(* ===== verification/Cattle_Prelude.thy ===== *)
theory Cattle_Prelude
  imports Main "HOL-Library.Monad_Syntax" "HOL-Library.AList" "HOL-Library.Multiset"
    "HOL-Library.Sublist" "HOL-Library.Signed_Division"
begin

section \<open>What the Go sources use of the language and its standard library\<close>

text \<open>
  The conventions shared by every theory of the development, and the parts of the Go language
  and of its standard library that the sources rely on.

  \<^item> A Go string is a byte string: HOL's \<open>string\<close>, a list of 8-bit characters.
  \<^item> A Go \<open>int\<close> or \<open>int64\<close> is an \<open>int\<close> kept in range by \<open>i64\<close>, which is applied
    wherever the source adds, subtracts or multiplies values that can leave the range.
  \<^item> A call that can panic (index or slice bounds out of range, nil dereference) returns an
    \<open>option\<close>: \<open>None\<close> is the panic.
  \<^item> A call that returns a value and an \<open>error\<close> returns a sum: \<open>Inl\<close> is the error.
  \<^item> A Go map that the source only looks keys up in is a HOL map. A Go map that the source
    ranges over is an association list with distinct keys: its order is the order in which
    the loop visits the entries, which Go leaves open, so a theorem about every association
    list is a theorem about every iteration order.
\<close>

named_theorems go_def "definitions of library calls, unfolded to evaluate a closed term"
named_theorems sublist_intros "facts that a result is a subsequence of its input"

subsection \<open>Integers\<close>

definition i64 :: "int \<Rightarrow> int" where
  "i64 x = (x + 2 ^ 63) mod 2 ^ 64 - 2 ^ 63"

definition in_i64 :: "int \<Rightarrow> bool" where
  "in_i64 x \<longleftrightarrow> - (2 ^ 63) \<le> x \<and> x < 2 ^ 63"

lemma i64_id [simp]: "in_i64 x \<Longrightarrow> i64 x = x"
  by (simp add: i64_def in_i64_def)

lemma i64_range: "in_i64 (i64 x)"
proof -
  have "0 \<le> (x + 2 ^ 63) mod 2 ^ 64" "(x + 2 ^ 63) mod 2 ^ 64 < (2::int) ^ 64"
    by (rule pos_mod_sign, simp) (rule pos_mod_bound, simp)
  then show ?thesis by (simp add: i64_def in_i64_def)
qed

lemma i64_idem [simp]: "i64 (i64 x) = i64 x"
  by (simp add: i64_range)

lemma in_i64_0 [simp]: "in_i64 0"
  by (simp add: in_i64_def)

lemma in_i64_numeral: "in_i64 (numeral k) \<longleftrightarrow> (numeral k :: int) < 2 ^ 63"
  by (auto simp: in_i64_def intro: order_trans [of _ 0])

subsection \<open>Errors\<close>

text \<open>
  An \<open>error\<close> value: its message, and the answers that the predicates of the vendored docker
  clients give on it (\<open>dockerclient.ErrConnectionRefused\<close>, \<open>engineapi.IsErrConnectionFailed\<close>,
  \<open>engineapi.IsErrImageNotFound\<close>).
\<close>

record go_error =
  Error :: string
  isErrConnectionRefused :: bool
  isErrConnectionFailed :: bool
  isErrImageNotFound :: bool

definition errorf :: "string \<Rightarrow> go_error" where
  "errorf s = \<lparr>Error = s, isErrConnectionRefused = False, isErrConnectionFailed = False,
     isErrImageNotFound = False\<rparr>"

type_synonym 'a result = "go_error + 'a"

lemma Error_errorf [simp]: "Error (errorf s) = s"
  by (simp add: errorf_def)

primrec res_ok :: "'a result \<Rightarrow> bool" where
  "res_ok (Inl e) = False"
| "res_ok (Inr x) = True"

primrec res_err :: "'a result \<Rightarrow> go_error option" where
  "res_err (Inl e) = Some e"
| "res_err (Inr x) = None"

subsection \<open>Strings\<close>

definition HasPrefix :: "string \<Rightarrow> string \<Rightarrow> bool" where
  "HasPrefix s p \<longleftrightarrow> take (length p) s = p"

fun str_Index :: "string \<Rightarrow> string \<Rightarrow> nat option" where
  "str_Index [] sub = (if sub = [] then Some 0 else None)"
| "str_Index (c # s) sub =
     (if HasPrefix (c # s) sub then Some 0 else map_option Suc (str_Index s sub))"

definition Contains :: "string \<Rightarrow> string \<Rightarrow> bool" where
  "Contains s sub \<longleftrightarrow> str_Index s sub \<noteq> None"

fun str_LastIndex :: "char \<Rightarrow> string \<Rightarrow> nat option" where
  "str_LastIndex x [] = None"
| "str_LastIndex x (c # s) =
     (case str_LastIndex x s of Some i \<Rightarrow> Some (Suc i) | None \<Rightarrow> if c = x then Some 0 else None)"

text \<open>\<open>strings.SplitN(s, sep, 2)\<close>, the only bound the sources use, for a non-empty separator.\<close>

definition SplitN2 :: "string \<Rightarrow> string \<Rightarrow> string list" where
  "SplitN2 s sep =
     (case str_Index s sep of None \<Rightarrow> [s] | Some i \<Rightarrow> [take i s, drop (i + length sep) s])"

text \<open>\<open>strings.Split\<close> on a separator of one character.\<close>

fun str_Split :: "string \<Rightarrow> char \<Rightarrow> string list" where
  "str_Split [] x = [[]]"
| "str_Split (c # s) x =
     (if c = x then [] # str_Split s x
      else case str_Split s x of [] \<Rightarrow> [[c]] | p # ps \<Rightarrow> (c # p) # ps)"

text \<open>A text between quotes, which is \<open>%q\<close> for a text without characters that are escaped.\<close>

definition quoted :: "string \<Rightarrow> string" where
  "quoted s = CHR 0x22 # s @ [CHR 0x22]"

definition TrimLeft :: "string \<Rightarrow> string \<Rightarrow> string" where
  "TrimLeft s cutset = dropWhile (\<lambda>c. c \<in> set cutset) s"

definition TrimPrefix :: "string \<Rightarrow> string \<Rightarrow> string" where
  "TrimPrefix s p = (if HasPrefix s p then drop (length p) s else s)"

text \<open>\<open>strings.Replace(s, old, new, 1)\<close>, and \<open>strings.Replace(s, "x", new, -1)\<close> for one character.\<close>

definition Replace1 :: "string \<Rightarrow> string \<Rightarrow> string \<Rightarrow> string" where
  "Replace1 s old new =
     (case str_Index s old of None \<Rightarrow> s | Some i \<Rightarrow> take i s @ new @ drop (i + length old) s)"

definition ReplaceChar :: "string \<Rightarrow> char \<Rightarrow> string \<Rightarrow> string" where
  "ReplaceChar s x new = concat (map (\<lambda>c. if c = x then new else [c]) s)"

fun str_Join :: "string list \<Rightarrow> string \<Rightarrow> string" where
  "str_Join [] sep = []"
| "str_Join [s] sep = s"
| "str_Join (s # ss) sep = s @ sep @ str_Join ss sep"

lemma HasPrefix_iff: "HasPrefix s p \<longleftrightarrow> (\<exists>t. s = p @ t)"
  by (auto simp: HasPrefix_def) (metis append_take_drop_id)

lemma HasPrefix_append [simp]: "HasPrefix (p @ t) p"
  by (simp add: HasPrefix_def)

lemma HasPrefix_refl [simp]: "HasPrefix s s"
  by (simp add: HasPrefix_def)

lemma HasPrefix_Nil [simp]: "HasPrefix s []"
  by (simp add: HasPrefix_def)

lemma HasPrefix_Cons [simp]: "HasPrefix (c # s) (d # p) \<longleftrightarrow> c = d \<and> HasPrefix s p"
  by (auto simp: HasPrefix_def)

lemma HasPrefix_empty [simp]: "HasPrefix [] (d # p) \<longleftrightarrow> False"
  by (simp add: HasPrefix_def)

lemma str_Index_Some:
  "str_Index s sub = Some i \<Longrightarrow> s = take i s @ sub @ drop (i + length sub) s \<and> i + length sub \<le> length s"
proof (induction s sub arbitrary: i rule: str_Index.induct)
  case (2 c s sub)
  show ?case
  proof (cases "HasPrefix (c # s) sub")
    case True
    with "2.prems" have "i = 0" and "take (length sub) (c # s) = sub"
      by (auto simp: HasPrefix_def)
    then show ?thesis
      by (metis add_0 append_Nil append_take_drop_id length_take min.cobounded1 take0)
  next
    case False
    with "2.prems" obtain j where "i = Suc j" "str_Index s sub = Some j" by auto
    with "2.IH" False show ?thesis by auto
  qed
qed (auto split: if_splits)

lemma str_Index_0: "HasPrefix s sub \<Longrightarrow> str_Index s sub = Some 0"
  by (cases s) (auto simp: HasPrefix_def)

lemma str_Index_append: "\<exists>i. str_Index (a @ sub @ b) sub = Some i"
  by (induction a) (auto simp: str_Index_0)

lemma Contains_iff: "Contains s sub \<longleftrightarrow> (\<exists>a b. s = a @ sub @ b)"
proof
  assume "Contains s sub"
  then obtain i where "str_Index s sub = Some i" by (auto simp: Contains_def)
  then show "\<exists>a b. s = a @ sub @ b" using str_Index_Some by blast
next
  assume "\<exists>a b. s = a @ sub @ b"
  then show "Contains s sub"
    unfolding Contains_def using str_Index_append by fastforce
qed

lemma str_Index_char: "x \<notin> set a \<Longrightarrow> str_Index (a @ x # b) [x] = Some (length a)"
  by (induction a) auto

lemma str_Index_char_None [simp]: "str_Index s [x] = None \<longleftrightarrow> x \<notin> set s"
  by (induction s) auto

lemma SplitN2_char [simp]: "x \<notin> set a \<Longrightarrow> SplitN2 (a @ x # b) [x] = [a, b]"
  by (simp add: SplitN2_def str_Index_char)

lemma SplitN2_no_char [simp]: "x \<notin> set s \<Longrightarrow> SplitN2 s [x] = [s]"
  by (auto simp: SplitN2_def split: option.splits dest: str_Index_char_None [THEN iffD2])

lemma SplitN2_length: "length (SplitN2 s sep) = 1 \<or> length (SplitN2 s sep) = 2"
  by (simp add: SplitN2_def split: option.splits)

lemma SplitN2_not_Nil [simp]: "SplitN2 s sep \<noteq> []"
  by (simp add: SplitN2_def split: option.splits)

lemma SplitN2_pair: "SplitN2 s sep = [a, b] \<Longrightarrow> s = a @ sep @ b"
  using str_Index_Some by (fastforce simp: SplitN2_def split: option.splits)

lemma str_Split_not_Nil [simp]: "str_Split s x \<noteq> []"
  by (induction s) (auto split: list.splits)

lemma str_Split_no_char: "x \<notin> set s \<Longrightarrow> str_Split s x = [s]"
  by (induction s) auto

lemma str_Split_char: "x \<notin> set a \<Longrightarrow> str_Split (a @ x # b) x = a # str_Split b x"
  by (induction a) auto

lemma str_LastIndex_char: "x \<notin> set b \<Longrightarrow> str_LastIndex x (a @ x # b) = Some (length a)"
proof (induction a)
  case Nil
  moreover have "x \<notin> set b \<Longrightarrow> str_LastIndex x b = None" for b
    by (induction b) auto
  ultimately show ?case by simp
qed simp

lemma str_LastIndex_None: "str_LastIndex x s = None \<longleftrightarrow> x \<notin> set s"
  by (induction s) (auto split: option.splits)

lemma TrimPrefix_append [simp]: "TrimPrefix (p @ s) p = s"
  by (simp add: TrimPrefix_def)

subsection \<open>\<open>strconv.Atoi\<close>\<close>

definition digit_val :: "char \<Rightarrow> int option" where
  "digit_val c =
     (let n = int (of_char c) in if 48 \<le> n \<and> n \<le> 57 then Some (n - 48) else None)"

datatype num_error = ErrSyntax | ErrRange

fun ParseUint :: "int \<Rightarrow> string \<Rightarrow> num_error + int" where
  "ParseUint acc [] = Inr acc"
| "ParseUint acc (c # s) =
     (case digit_val c of
        None \<Rightarrow> Inl ErrSyntax
      | Some d \<Rightarrow> if acc * 10 + d > 2 ^ 64 - 1 then Inl ErrRange else ParseUint (acc * 10 + d) s)"

text \<open>
  The value and whether the error is nil. A range error yields the nearest representable
  value, a syntax error yields 0.
\<close>

definition Atoi :: "string \<Rightarrow> int \<times> bool" where
  "Atoi s0 =
     (let neg = (s0 \<noteq> [] \<and> hd s0 = CHR ''-'');
          s = (if s0 \<noteq> [] \<and> (hd s0 = CHR ''-'' \<or> hd s0 = CHR ''+'') then tl s0 else s0)
      in if s = [] then (0, False)
         else case ParseUint 0 s of
             Inl ErrSyntax \<Rightarrow> (0, False)
           | Inl ErrRange \<Rightarrow> (if neg then - (2 ^ 63) else 2 ^ 63 - 1, False)
           | Inr un \<Rightarrow>
               if \<not> neg \<and> un \<ge> 2 ^ 63 then (2 ^ 63 - 1, False)
               else if neg \<and> un > 2 ^ 63 then (- (2 ^ 63), False)
               else (if neg then - un else un, True))"

lemma digit_val_nonneg: "digit_val c = Some d \<Longrightarrow> 0 \<le> d \<and> d \<le> 9"
  by (auto simp: digit_val_def Let_def split: if_splits)

lemma ParseUint_nonneg: "0 \<le> acc \<Longrightarrow> ParseUint acc s = Inr n \<Longrightarrow> 0 \<le> n"
proof (induction acc s rule: ParseUint.induct)
  case (2 acc c s)
  then show ?case
    by (auto split: option.splits if_splits dest: digit_val_nonneg)
qed simp

lemma Atoi_range: "in_i64 (fst (Atoi s))"
  by (auto simp: Atoi_def in_i64_def Let_def split: sum.splits num_error.splits
      dest: ParseUint_nonneg [OF order_refl])

subsection \<open>Ranging over the runes of a string\<close>

text \<open>
  \<open>for i := range s\<close> visits the byte offsets at which a rune starts. \<open>rune_width\<close> is the
  number of bytes \<open>utf8.DecodeRuneInString\<close> consumes: 2 to 4 for a well-formed multi-byte
  sequence, 1 for an ASCII byte and for a byte that starts no well-formed sequence.
\<close>

definition byte :: "char \<Rightarrow> nat" where
  "byte c = of_char c"

definition cont_byte :: "char \<Rightarrow> bool" where
  "cont_byte c \<longleftrightarrow> 128 \<le> byte c \<and> byte c \<le> 191"

definition second_ok :: "char \<Rightarrow> char \<Rightarrow> bool" where
  "second_ok b0 b1 \<longleftrightarrow>
     (if byte b0 = 224 then 160 \<le> byte b1 \<and> byte b1 \<le> 191
      else if byte b0 = 237 then 128 \<le> byte b1 \<and> byte b1 \<le> 159
      else if byte b0 = 240 then 144 \<le> byte b1 \<and> byte b1 \<le> 191
      else if byte b0 = 244 then 128 \<le> byte b1 \<and> byte b1 \<le> 143
      else cont_byte b1)"

fun rune_width :: "string \<Rightarrow> nat" where
  "rune_width (a # b # c # d # _) =
     (if 194 \<le> byte a \<and> byte a \<le> 223 \<and> second_ok a b then 2
      else if 224 \<le> byte a \<and> byte a \<le> 239 \<and> second_ok a b \<and> cont_byte c then 3
      else if 240 \<le> byte a \<and> byte a \<le> 244 \<and> second_ok a b \<and> cont_byte c \<and> cont_byte d then 4
      else 1)"
| "rune_width [a, b, c] =
     (if 194 \<le> byte a \<and> byte a \<le> 223 \<and> second_ok a b then 2
      else if 224 \<le> byte a \<and> byte a \<le> 239 \<and> second_ok a b \<and> cont_byte c then 3
      else 1)"
| "rune_width [a, b] = (if 194 \<le> byte a \<and> byte a \<le> 223 \<and> second_ok a b then 2 else 1)"
| "rune_width [a] = 1"
| "rune_width [] = 0"

lemma rune_width_pos: "s \<noteq> [] \<Longrightarrow> 0 < rune_width s"
  by (cases s rule: rune_width.cases) auto

lemma rune_width_le: "rune_width s \<le> length s"
  by (cases s rule: rune_width.cases) auto

lemma rune_width_ascii: "byte c < 128 \<Longrightarrow> rune_width (c # s) = 1"
  by (cases "c # s" rule: rune_width.cases) auto

function rune_offsets_from :: "nat \<Rightarrow> string \<Rightarrow> nat list" where
  "rune_offsets_from i s =
     (if s = [] then [] else i # rune_offsets_from (i + rune_width s) (drop (rune_width s) s))"
  by pat_completeness auto
termination
  by (relation "measure (\<lambda>(i, s). length s)") (auto simp: rune_width_pos)

declare rune_offsets_from.simps [simp del]

definition rune_offsets :: "string \<Rightarrow> nat list" where
  "rune_offsets s = rune_offsets_from 0 s"

definition is_ascii :: "string \<Rightarrow> bool" where
  "is_ascii s \<longleftrightarrow> (\<forall>c \<in> set s. byte c < 128)"

lemma rune_offsets_from_Nil [simp]: "rune_offsets_from i [] = []"
  by (simp add: rune_offsets_from.simps)

lemma rune_offsets_from_ascii: "is_ascii s \<Longrightarrow> rune_offsets_from i s = [i ..< i + length s]"
proof (induction s arbitrary: i)
  case (Cons c s)
  then have "rune_width (c # s) = 1" "is_ascii s"
    by (auto simp: is_ascii_def rune_width_ascii)
  moreover have "[i ..< i + length (c # s)] = i # [Suc i ..< Suc i + length s]"
    by (simp add: upt_conv_Cons del: upt_Suc)
  ultimately show ?case
    using Cons.IH [of "Suc i"] by (simp add: rune_offsets_from.simps [of i "c # s"])
qed simp

lemma rune_offsets_ascii: "is_ascii s \<Longrightarrow> rune_offsets s = [0 ..< length s]"
  by (simp add: rune_offsets_def rune_offsets_from_ascii)

subsection \<open>Slices\<close>

text \<open>
  \<open>xs[i]\<close>, \<open>xs[k:]\<close> and \<open>xs[:k]\<close>. Out of range is a panic. Go lets \<open>xs[:k]\<close> reach past the
  length up to the capacity; the elements found there are nil pointers, which the callers
  dereference, so that case is a panic here as well.
\<close>

definition index :: "'a list \<Rightarrow> int \<Rightarrow> 'a option" where
  "index xs i = (if 0 \<le> i \<and> i < int (length xs) then Some (xs ! nat i) else None)"

definition slice_from :: "'a list \<Rightarrow> int \<Rightarrow> 'a list option" where
  "slice_from xs k = (if 0 \<le> k \<and> k \<le> int (length xs) then Some (drop (nat k) xs) else None)"

definition slice_to :: "'a list \<Rightarrow> int \<Rightarrow> 'a list option" where
  "slice_to xs k = (if 0 \<le> k \<and> k \<le> int (length xs) then Some (take (nat k) xs) else None)"

lemma slice_from_Some: "slice_from xs k = Some ys \<longleftrightarrow> 0 \<le> k \<and> k \<le> int (length xs) \<and> ys = drop (nat k) xs"
  by (auto simp: slice_from_def)

lemma slice_to_Some: "slice_to xs k = Some ys \<longleftrightarrow> 0 \<le> k \<and> k \<le> int (length xs) \<and> ys = take (nat k) xs"
  by (auto simp: slice_to_def)

lemma slice_from_None: "slice_from xs k = None \<longleftrightarrow> k < 0 \<or> int (length xs) < k"
  by (auto simp: slice_from_def)

subsection \<open>Rounding up\<close>

text \<open>
  \<open>int(math.Ceil(float64(n) / float64(m)))\<close>, exact for amounts below \<open>2^53\<close>. With \<open>m = 0\<close> the quotient is infinite or
  not a number, and its conversion yields the smallest integer on amd64.
\<close>

definition ceil_div :: "int \<Rightarrow> int \<Rightarrow> int" where
  "ceil_div n m = (if m = 0 then - (2 ^ 63) else - ((- n) div m))"

subsection \<open>Lists and options\<close>

primrec first_such :: "('a \<Rightarrow> bool) \<Rightarrow> 'a list \<Rightarrow> 'a option" where
  "first_such P [] = None"
| "first_such P (x # xs) = (if P x then Some x else first_such P xs)"

lemma first_such_Some: "first_such P xs = Some x \<Longrightarrow> x \<in> set xs \<and> P x"
  by (induction xs) (auto split: if_splits)

lemma first_such_None: "first_such P xs = None \<longleftrightarrow> (\<forall>x \<in> set xs. \<not> P x)"
  by (induction xs) auto

lemma subseq_filter_self [sublist_intros]: "subseq (filter P xs) xs"
  by (rule subseq_filter_left)

lemma subseq_set: "subseq xs ys \<Longrightarrow> set xs \<subseteq> set ys"
  by (auto elim: list_emb_set)

lemma first_such_unique:
  "x \<in> set xs \<Longrightarrow> P x \<Longrightarrow> (\<And>y. y \<in> set xs \<Longrightarrow> P y \<Longrightarrow> y = x) \<Longrightarrow> first_such P xs = Some x"
  by (metis first_such_None first_such_Some not_None_eq)

lemma nth0_filter_mem:
  assumes "length (filter P xs) = 1"
  shows "filter P xs ! 0 \<in> set xs \<and> P (filter P xs ! 0)"
proof -
  from assms have "filter P xs ! 0 \<in> set (filter P xs)" by (intro nth_mem) simp
  then show ?thesis by simp
qed

subsection \<open>Association lists\<close>

lemma alist_keys_update [simp]: "fst ` set (AList.update k v al) = insert k (fst ` set al)"
  by (simp add: AList.dom_update)

lemma alist_mem_update:
  "distinct (map fst al) \<Longrightarrow> (a, b) \<in> set (AList.update k v al) \<Longrightarrow>
     a = k \<and> b = v \<or> a \<noteq> k \<and> (a, b) \<in> set al"
  by (induction al) (force split: if_splits)+

lemma alist_distinct_update [simp]:
  "distinct (map fst al) \<Longrightarrow> distinct (map fst (AList.update k v al))"
  by (rule distinct_update)

lemma alist_distinct_delete [simp]:
  "distinct (map fst al) \<Longrightarrow> distinct (map fst (AList.delete k al))"
  by (rule distinct_delete)

lemma alist_map_of_update [simp]:
  "map_of (AList.update k v al) a = (if a = k then Some v else map_of al a)"
  by (simp add: update_conv')

lemma alist_map_of_delete [simp]:
  "map_of (AList.delete k al) a = (if a = k then None else map_of al a)"
  by (simp add: delete_conv')

lemma alist_mem_delete [simp]: "(a, b) \<in> set (AList.delete k al) \<longleftrightarrow> a \<noteq> k \<and> (a, b) \<in> set al"
  by (auto simp: AList.delete_eq)

lemma alist_mem_iff: "distinct (map fst al) \<Longrightarrow> (a, b) \<in> set al \<longleftrightarrow> map_of al a = Some b"
  by (simp add: map_of_eq_Some_iff)

end
