(* ===== verification/Go_Json.thy ===== *)
theory Go_Json
  imports Cattle_Prelude
begin

section \<open>\<open>encoding/json\<close> on lists of strings\<close>

text \<open>
  The sources keep affinities, constraints, whitelists and reschedule policies in container
  labels as JSON arrays of strings: \<open>json.Marshal\<close> writes them, \<open>json.Unmarshal\<close> into a nil
  \<open>[]string\<close> reads them back, and the error of \<open>Unmarshal\<close> is ignored. This theory models both
  calls on that type: the escapes the encoder writes, and the whole JSON grammar on the decoder's
  side, because a label may hold any text. The main lemma is the round trip on well-formed
  UTF-8 (\<open>json_codec\<close>, interpreted at the end of the theory).
\<close>

subsection \<open>Encoding\<close>

definition hex_digit :: "nat \<Rightarrow> char" where
  "hex_digit n = char_of (if n < 10 then 48 + n else 87 + n)"

definition json_u00 :: "char \<Rightarrow> string" where
  "json_u00 c = [CHR 0x5C, CHR ''u'', CHR ''0'', CHR ''0'',
     hex_digit (byte c div 16), hex_digit (byte c mod 16)]"

definition json_escape_ascii :: "char \<Rightarrow> string" where
  "json_escape_ascii c =
     (if c = CHR 0x22 \<or> c = CHR 0x5C then [CHR 0x5C, c]
      else if c = CHR 0x0A then [CHR 0x5C, CHR ''n'']
      else if c = CHR 0x0D then [CHR 0x5C, CHR ''r'']
      else if c = CHR 0x09 then [CHR 0x5C, CHR ''t'']
      else if byte c < 32 \<or> c = CHR ''<'' \<or> c = CHR ''>'' \<or> c = CHR ''&'' then json_u00 c
      else [c])"

function json_escape :: "string \<Rightarrow> string" where
  "json_escape s =
     (if s = [] then []
      else if byte (hd s) < 128 then json_escape_ascii (hd s) @ json_escape (tl s)
      else if rune_width s = 1 then CHR 0x5C # ''ufffd'' @ json_escape (tl s)
      else if take 3 s = [CHR 0xE2, CHR 0x80, CHR 0xA8] then
        CHR 0x5C # ''u2028'' @ json_escape (drop 3 s)
      else if take 3 s = [CHR 0xE2, CHR 0x80, CHR 0xA9] then
        CHR 0x5C # ''u2029'' @ json_escape (drop 3 s)
      else take (rune_width s) s @ json_escape (drop (rune_width s) s))"
  by pat_completeness auto
termination
  by (relation "measure length") (auto simp: rune_width_pos)

declare json_escape.simps [simp del]

definition json_quote :: "string \<Rightarrow> string" where
  "json_quote s = CHR 0x22 # json_escape s @ [CHR 0x22]"

definition json_marshal :: "string list \<Rightarrow> string" where
  "json_marshal xs = CHR ''['' # str_Join (map json_quote xs) '','' @ '']''"

subsection \<open>Decoding\<close>

definition hex_val :: "char \<Rightarrow> nat option" where
  "hex_val c = (let n = byte c in
     if 48 \<le> n \<and> n \<le> 57 then Some (n - 48)
     else if 97 \<le> n \<and> n \<le> 102 then Some (n - 87)
     else if 65 \<le> n \<and> n \<le> 70 then Some (n - 55) else None)"

fun hex4 :: "string \<Rightarrow> (nat \<times> string) option" where
  "hex4 (a # b # c # d # r) = do {
     w \<leftarrow> hex_val a; x \<leftarrow> hex_val b; y \<leftarrow> hex_val c; z \<leftarrow> hex_val d;
     Some (w * 4096 + x * 256 + y * 16 + z, r) }"
| "hex4 _ = None"

definition utf8_enc :: "nat \<Rightarrow> string" where
  "utf8_enc n =
     (if n < 128 then [char_of n]
      else if n < 2048 then [char_of (192 + n div 64), char_of (128 + n mod 64)]
      else if n < 65536 then
        [char_of (224 + n div 4096), char_of (128 + n div 64 mod 64), char_of (128 + n mod 64)]
      else [char_of (240 + n div 262144), char_of (128 + n div 4096 mod 64),
            char_of (128 + n div 64 mod 64), char_of (128 + n mod 64)])"

definition replacement :: string where
  "replacement = utf8_enc 65533"

definition is_surrogate :: "nat \<Rightarrow> bool" where
  "is_surrogate n \<longleftrightarrow> 55296 \<le> n \<and> n < 57344"

definition utf16_pair :: "nat \<Rightarrow> nat \<Rightarrow> nat option" where
  "utf16_pair a b =
     (if 55296 \<le> a \<and> a < 56320 \<and> 56320 \<le> b \<and> b < 57344
      then Some ((a - 55296) * 1024 + (b - 56320) + 65536) else None)"

definition simple_escape :: "char \<Rightarrow> char option" where
  "simple_escape e =
     (if e = CHR 0x22 \<or> e = CHR 0x5C \<or> e = CHR ''/'' then Some e
      else if e = CHR ''b'' then Some (CHR 0x08)
      else if e = CHR ''f'' then Some (CHR 0x0C)
      else if e = CHR ''n'' then Some (CHR 0x0A)
      else if e = CHR ''r'' then Some (CHR 0x0D)
      else if e = CHR ''t'' then Some (CHR 0x09) else None)"

text \<open>The escape \<open>\u\<close> after its first four hexadecimal digits: the bytes and what is left.\<close>

definition unicode_escape :: "nat \<Rightarrow> string \<Rightarrow> string \<times> string" where
  "unicode_escape n r =
     (if \<not> is_surrogate n then (utf8_enc n, r)
      else if take 2 r = [CHR 0x5C, CHR ''u''] then
        (case hex4 (drop 2 r) of
           Some (m, r') \<Rightarrow>
             (case utf16_pair n m of Some k \<Rightarrow> (utf8_enc k, r') | None \<Rightarrow> (replacement, r))
         | None \<Rightarrow> (replacement, r))
      else (replacement, r))"

definition prepend :: "string \<Rightarrow> (string \<times> string) option \<Rightarrow> (string \<times> string) option" where
  "prepend p x = map_option (\<lambda>(d, r). (p @ d, r)) x"

lemma prepend_Some [simp]: "prepend p (Some (d, r)) = Some (p @ d, r)"
  by (simp add: prepend_def)

lemma hex4_length: "hex4 s = Some (n, r) \<Longrightarrow> length s = length r + 4"
  by (cases s rule: hex4.cases) (auto split: bind_splits)

lemma unicode_escape_length: "length (snd (unicode_escape n r)) \<le> length r"
  by (auto simp: unicode_escape_def split: option.splits dest!: hex4_length)

text \<open>A string literal after its opening quote: the decoded bytes and the text after it.\<close>

function json_str :: "string \<Rightarrow> (string \<times> string) option" where
  "json_str s =
     (case s of
        [] \<Rightarrow> None
      | c # r \<Rightarrow>
          if c = CHR 0x22 then Some ([], r)
          else if byte c < 32 then None
          else if c = CHR 0x5C then
            (case r of
               [] \<Rightarrow> None
             | e # r' \<Rightarrow>
                 if e = CHR ''u'' then
                   (case hex4 r' of
                      None \<Rightarrow> None
                    | Some (n, r'') \<Rightarrow>
                        prepend (fst (unicode_escape n r'')) (json_str (snd (unicode_escape n r''))))
                 else (case simple_escape e of
                         None \<Rightarrow> None
                       | Some x \<Rightarrow> prepend [x] (json_str r')))
          else if byte c < 128 then prepend [c] (json_str r)
          else prepend (if rune_width s = 1 then replacement else take (rune_width s) s)
                 (json_str (drop (rune_width s) s)))"
  by pat_completeness auto
termination
proof (relation "measure length", goal_cases)
  case (2 s c r e r' a n r'')
  with unicode_escape_length [of n r''] hex4_length [of r' n r''] show ?case by auto
qed (auto simp: rune_width_pos)

declare json_str.simps [simp del]

datatype json = JNull | JStr string | JArr "json list" | JOther

definition skip_ws :: "string \<Rightarrow> string" where
  "skip_ws s = dropWhile (\<lambda>c. c \<in> {CHR '' '', CHR 0x09, CHR 0x0D, CHR 0x0A}) s"

definition expect :: "string \<Rightarrow> json \<Rightarrow> string \<Rightarrow> (json \<times> string) option" where
  "expect w v s = (if HasPrefix s w then Some (v, drop (length w) s) else None)"

definition json_digits :: "string \<Rightarrow> string option" where
  "json_digits s =
     (if s \<noteq> [] \<and> digit_val (hd s) \<noteq> None then Some (dropWhile (\<lambda>c. digit_val c \<noteq> None) s) else None)"

definition json_number :: "string \<Rightarrow> (json \<times> string) option" where
  "json_number s0 = do {
     let s = (if HasPrefix s0 ''-'' then tl s0 else s0);
     r1 \<leftarrow> (if HasPrefix s ''0'' then Some (tl s) else json_digits s);
     r2 \<leftarrow> (if HasPrefix r1 ''.'' then json_digits (tl r1) else Some r1);
     r3 \<leftarrow> (if HasPrefix r2 ''e'' \<or> HasPrefix r2 ''E''
            then json_digits (if HasPrefix (tl r2) ''+'' \<or> HasPrefix (tl r2) ''-''
                              then tl (tl r2) else tl r2)
            else Some r2);
     Some (JOther, r3) }"

text \<open>
  The fuel bounds the depth of the calls; two nested calls consume at least one character, and
  \<open>json_unmarshal\<close> passes twice the length of the text and more (\<open>json_fuel_enough\<close>).
\<close>

fun json_value :: "nat \<Rightarrow> string \<Rightarrow> (json \<times> string) option"
and json_elems :: "nat \<Rightarrow> string \<Rightarrow> (json list \<times> string) option"
and json_members :: "nat \<Rightarrow> string \<Rightarrow> string option" where
  "json_value 0 s = None"
| "json_value (Suc f) s =
     (case skip_ws s of
        [] \<Rightarrow> None
      | c # r \<Rightarrow>
          if c = CHR 0x22 then map_option (\<lambda>(d, r'). (JStr d, r')) (json_str r)
          else if c = CHR ''['' then
            (if HasPrefix (skip_ws r) '']'' then Some (JArr [], tl (skip_ws r))
             else map_option (\<lambda>(vs, r'). (JArr vs, r')) (json_elems f r))
          else if c = CHR ''{'' then
            (if HasPrefix (skip_ws r) ''}'' then Some (JOther, tl (skip_ws r))
             else map_option (\<lambda>r'. (JOther, r')) (json_members f r))
          else if c = CHR ''t'' then expect ''rue'' JOther r
          else if c = CHR ''f'' then expect ''alse'' JOther r
          else if c = CHR ''n'' then expect ''ull'' JNull r
          else json_number (c # r))"
| "json_elems 0 s = None"
| "json_elems (Suc f) s =
     (case json_value f s of
        None \<Rightarrow> None
      | Some (v, r) \<Rightarrow>
          if HasPrefix (skip_ws r) '']'' then Some ([v], tl (skip_ws r))
          else if HasPrefix (skip_ws r) '','' then
            map_option (\<lambda>(vs, r'). (v # vs, r')) (json_elems f (tl (skip_ws r)))
          else None)"
| "json_members 0 s = None"
| "json_members (Suc f) s =
     (case skip_ws s of
        [] \<Rightarrow> None
      | c # r \<Rightarrow>
          if c \<noteq> CHR 0x22 then None
          else case json_str r of
              None \<Rightarrow> None
            | Some (_, r1) \<Rightarrow>
                if \<not> HasPrefix (skip_ws r1) '':'' then None
                else case json_value f (tl (skip_ws r1)) of
                    None \<Rightarrow> None
                  | Some (_, r2) \<Rightarrow>
                      if HasPrefix (skip_ws r2) ''}'' then Some (tl (skip_ws r2))
                      else if HasPrefix (skip_ws r2) '','' then json_members f (tl (skip_ws r2))
                      else None)"

text \<open>
  \<open>var xs []string; json.Unmarshal(data, &xs)\<close> with the error dropped. A syntax error is found
  before anything is stored and leaves \<open>xs\<close> nil, and so does a value that is not an array. In
  an array an element that is not a string is skipped with its slot left empty.
\<close>

primrec json_elem_string :: "json \<Rightarrow> string" where
  "json_elem_string (JStr s) = s"
| "json_elem_string JNull = []"
| "json_elem_string (JArr vs) = []"
| "json_elem_string JOther = []"

definition json_unmarshal :: "string \<Rightarrow> string list" where
  "json_unmarshal s =
     (case json_value (2 * length s + 2) s of
        Some (JArr vs, r) \<Rightarrow> if skip_ws r = [] then map json_elem_string vs else []
      | _ \<Rightarrow> [])"

subsection \<open>The fuel is enough\<close>

lemma prepend_eq_Some: "prepend p x = Some (d, r) \<longleftrightarrow> (\<exists>d'. x = Some (d', r) \<and> d = p @ d')"
  by (auto simp: prepend_def split: prod.splits)

lemma json_str_step:
  assumes "json_str s = Some (d, r)"
  shows "length r < length s \<or> (\<exists>s' d'. length s' < length s \<and> json_str s' = Some (d', r))"
proof -
  have "length (drop (rune_width s) s) < length s" if "s \<noteq> []"
    using rune_width_pos [OF that] that by simp
  moreover have "length (snd (unicode_escape n r'')) < length s"
    if "s = c # e # r'" "hex4 r' = Some (n, r'')" for c e r' n r''
    using that unicode_escape_length [of n r''] hex4_length [of r' n r''] by auto
  ultimately show ?thesis
    using assms
    by (subst (asm) json_str.simps)
      (fastforce simp: prepend_eq_Some split: list.splits if_splits option.splits prod.splits)
qed

lemma json_str_length: "json_str s = Some (d, r) \<Longrightarrow> length r < length s"
proof (induction s arbitrary: d rule: length_induct)
  case (1 s)
  from json_str_step [OF "1.prems"] "1.IH" show ?case
    using order_less_trans by blast
qed

lemma skip_ws_length: "length (skip_ws s) \<le> length s"
  by (simp add: skip_ws_def length_dropWhile_le)

lemma skip_ws_Cons: "skip_ws s = c # t \<Longrightarrow> length t < length s"
  using skip_ws_length [of s] by simp

lemma json_digits_length: "json_digits s = Some r \<Longrightarrow> length r < length s"
proof -
  assume "json_digits s = Some r"
  then obtain c t where "s = c # t" "r = dropWhile (\<lambda>c. digit_val c \<noteq> None) t"
    by (cases s) (auto simp: json_digits_def split: if_splits)
  then show ?thesis by (simp add: length_dropWhile_le less_Suc_eq_le)
qed

lemma HasPrefix_ConsD: "HasPrefix s (c # p) \<Longrightarrow> \<exists>t. s = c # t"
  by (cases s) auto

lemma json_number_length:
  assumes "json_number s0 = Some (v, r)"
  shows "length r < length s0"
proof -
  define s where "s = (if HasPrefix s0 ''-'' then tl s0 else s0)"
  from assms obtain r1 r2 where
    r1: "(if HasPrefix s ''0'' then Some (tl s) else json_digits s) = Some r1" and
    r2: "(if HasPrefix r1 ''.'' then json_digits (tl r1) else Some r1) = Some r2" and
    r3: "(if HasPrefix r2 ''e'' \<or> HasPrefix r2 ''E''
          then json_digits (if HasPrefix (tl r2) ''+'' \<or> HasPrefix (tl r2) ''-''
                            then tl (tl r2) else tl r2)
          else Some r2) = Some r"
    unfolding json_number_def Let_def s_def by (auto split: bind_splits simp del: HasPrefix_Cons)
  have "length s \<le> length s0" by (simp add: s_def)
  moreover from r1 have "length r1 < length s"
    by (auto split: if_splits dest!: json_digits_length HasPrefix_ConsD)
  moreover from r2 have "length r2 \<le> length r1"
    by (auto split: if_splits dest!: json_digits_length)
  moreover from r3 have "length r \<le> length r2"
    by (auto split: if_splits dest!: json_digits_length)
  ultimately show ?thesis by linarith
qed

lemma expect_length: "expect w v s = Some (x, r) \<Longrightarrow> length r \<le> length s"
  by (auto simp: expect_def split: if_splits)

lemma json_lengths:
  "json_value f s = Some (v, r) \<Longrightarrow> length r < length s"
  "json_elems f s = Some (vs, r) \<Longrightarrow> length r < length s"
  "json_members f s = Some r \<Longrightarrow> length r < length s"
proof (induction f arbitrary: s v vs r)
  case (Suc f)
  {
    case 1
    then obtain c t where ct: "skip_ws s = c # t" by (auto split: list.splits)
    with 1 skip_ws_Cons [OF ct] Suc.IH(2,3) [of t] skip_ws_length [of t] show ?case
      by (fastforce split: if_splits dest!: json_str_length json_number_length expect_length)
  next
    case 2
    then obtain u t where ut: "json_value f s = Some (u, t)" by (auto split: option.splits)
    from Suc.IH(1) [OF ut] skip_ws_length [of t] 2 show ?case
      by (auto simp: ut split: if_splits dest!: Suc.IH(2))
  next
    case 3
    then obtain t d r1 u r2 where t: "skip_ws s = CHR 0x22 # t" and r1: "json_str t = Some (d, r1)"
      and r2: "json_value f (tl (skip_ws r1)) = Some (u, r2)"
      by (auto split: option.splits list.splits if_splits)
    have "length r2 < length s"
      using skip_ws_Cons [OF t] json_str_length [OF r1] skip_ws_length [of r1] Suc.IH(1) [OF r2] by simp
    with 3 t r1 r2 skip_ws_length [of r2] show ?case
      by (auto split: if_splits dest!: Suc.IH(3))
  }
qed auto

lemma json_fuel_enough:
  "2 * length s + 1 \<le> f \<Longrightarrow> 2 * length s + 1 \<le> g \<Longrightarrow> json_value f s = json_value g s"
  "2 * length s + 2 \<le> f \<Longrightarrow> 2 * length s + 2 \<le> g \<Longrightarrow> json_elems f s = json_elems g s"
  "2 * length s + 2 \<le> f \<Longrightarrow> 2 * length s + 2 \<le> g \<Longrightarrow> json_members f s = json_members g s"
proof (induction f arbitrary: g s)
  case (Suc f)
  {
    case 1
    then obtain g' where g: "g = Suc g'" by (cases g) auto
    have "json_elems f t = json_elems g' t" "json_members f t = json_members g' t"
      if "skip_ws s = c # t" for c t
      using skip_ws_Cons [OF that] 1 g by (auto intro!: Suc.IH)
    then show ?case by (auto simp: g split: list.splits)
  next
    case 2
    then obtain g' where g: "g = Suc g'" by (cases g) auto
    with 2 have v: "json_value f s = json_value g' s" by (intro Suc.IH) auto
    have "json_elems f (tl (skip_ws r)) = json_elems g' (tl (skip_ws r))"
      if "json_value g' s = Some (v, r)" for v r
      using json_lengths(1) [OF that] skip_ws_length [of r] 2 g by (intro Suc.IH) auto
    then show ?case by (auto simp: g v split: option.splits)
  next
    case 3
    then obtain g' where g: "g = Suc g'" by (cases g) auto
    have v: "json_value f (tl (skip_ws r1)) = json_value g' (tl (skip_ws r1))"
      and m: "json_value g' (tl (skip_ws r1)) = Some (v, r2) \<Longrightarrow>
        json_members f (tl (skip_ws r2)) = json_members g' (tl (skip_ws r2))"
      if "skip_ws s = c # t" "json_str t = Some (d, r1)" for c t d r1 v r2
    proof -
      from skip_ws_Cons [OF that(1)] json_str_length [OF that(2)] skip_ws_length [of r1]
      have "length (tl (skip_ws r1)) < length s" by simp
      with 3 g show "json_value f (tl (skip_ws r1)) = json_value g' (tl (skip_ws r1))"
        by (intro Suc.IH) auto
      assume "json_value g' (tl (skip_ws r1)) = Some (v, r2)"
      from json_lengths(1) [OF this] \<open>length (tl (skip_ws r1)) < length s\<close> skip_ws_length [of r2] 3 g
      show "json_members f (tl (skip_ws r2)) = json_members g' (tl (skip_ws r2))"
        by (intro Suc.IH) auto
    qed
    show ?case by (auto simp: g v split: option.splits list.splits dest!: m)
  }
qed auto


subsection \<open>Round trip on well-formed UTF-8\<close>

function utf8_ok :: "string \<Rightarrow> bool" where
  "utf8_ok s =
     (if s = [] then True
      else (byte (hd s) < 128 \<or> 2 \<le> rune_width s) \<and> utf8_ok (drop (rune_width s) s))"
  by pat_completeness auto
termination
  by (relation "measure length") (auto simp: rune_width_pos)

declare utf8_ok.simps [simp del]

lemma utf8_ok_Nil [simp]: "utf8_ok []"
  by (simp add: utf8_ok.simps)

lemma utf8_ok_ascii: "byte c < 128 \<Longrightarrow> utf8_ok (c # s) \<longleftrightarrow> utf8_ok s"
  by (subst utf8_ok.simps) (simp add: rune_width_ascii)

lemma is_ascii_utf8_ok: "is_ascii s \<Longrightarrow> utf8_ok s"
  by (induction s) (auto simp: is_ascii_def utf8_ok_ascii)

lemma rune_width2: "194 \<le> byte a \<Longrightarrow> byte a \<le> 223 \<Longrightarrow> second_ok a b \<Longrightarrow> rune_width (a # b # t) = 2"
  by (cases "a # b # t" rule: rune_width.cases) auto

lemma rune_width3:
  "224 \<le> byte a \<Longrightarrow> byte a \<le> 239 \<Longrightarrow> second_ok a b \<Longrightarrow> cont_byte c \<Longrightarrow> rune_width (a # b # c # t) = 3"
  by (cases "a # b # c # t" rule: rune_width.cases) auto

lemma rune_width_append:
  assumes "2 \<le> rune_width s"
  shows "rune_width (take (rune_width s) s @ t) = rune_width s"
  using assms
  by (cases s rule: rune_width.cases) (auto simp: rune_width2 rune_width3 split: if_splits)

lemma rune_width_ge2_byte: "2 \<le> rune_width s \<Longrightarrow> 194 \<le> byte (hd s)"
  by (cases s rule: rune_width.cases) (auto split: if_splits)

lemma byte_less: "byte c < 256"
  by (simp add: byte_def)

lemma char_of_byte [simp]: "char_of (byte c) = c"
  by (simp add: byte_def)

lemma byte_char_of [simp]: "n < 256 \<Longrightarrow> byte (char_of n) = n"
  by (simp add: byte_def)

lemma hex_val_digit: "n < 16 \<Longrightarrow> hex_val (hex_digit n) = Some n"
  by (auto simp: hex_val_def hex_digit_def Let_def)

lemma json_str_unicode:
  "hex4 t = Some (n, r) \<Longrightarrow> \<not> is_surrogate n \<Longrightarrow>
     json_str (CHR 0x5C # CHR ''u'' # t) = prepend (utf8_enc n) (json_str r)"
  by (subst json_str.simps) (simp add: unicode_escape_def byte_def)

lemma json_str_simple:
  "simple_escape e = Some x \<Longrightarrow> json_str (CHR 0x5C # e # r) = prepend [x] (json_str r)"
  by (subst json_str.simps) (auto simp: byte_def simple_escape_def split: if_splits)

lemma json_str_plain:
  "c \<noteq> CHR 0x22 \<Longrightarrow> c \<noteq> CHR 0x5C \<Longrightarrow> 32 \<le> byte c \<Longrightarrow> byte c < 128 \<Longrightarrow>
     json_str (c # r) = prepend [c] (json_str r)"
  by (subst json_str.simps) simp

lemma json_str_multi:
  assumes "2 \<le> rune_width s"
  shows "json_str (take (rune_width s) s @ r) = prepend (take (rune_width s) s) (json_str r)"
proof -
  let ?t = "take (rune_width s) s @ r"
  obtain c u where s: "s = c # u" using assms by (cases s) auto
  have "194 \<le> byte c" using rune_width_ge2_byte [OF assms] s by simp
  moreover from this have "c \<noteq> CHR 0x22" "c \<noteq> CHR 0x5C" by (auto simp: byte_def)
  moreover have "?t = c # tl ?t" using s assms by (cases "rune_width s") auto
  moreover have "rune_width ?t = rune_width s" by (rule rune_width_append [OF assms])
  moreover have "take (rune_width s) ?t = take (rune_width s) s" "drop (rune_width s) ?t = r"
    using rune_width_le [of s] by (simp_all add: min_def)
  ultimately show ?thesis using assms
    by (subst json_str.simps) (auto split: list.splits simp del: take_append drop_append)
qed

lemma utf8_enc_2028:
  "utf8_enc 8232 = [CHR 0xE2, CHR 0x80, CHR 0xA8]" "utf8_enc 8233 = [CHR 0xE2, CHR 0x80, CHR 0xA9]"
  using char_of_byte [of "CHR 0xE2"] char_of_byte [of "CHR 0x80"] char_of_byte [of "CHR 0xA8"]
    char_of_byte [of "CHR 0xA9"]
  by (simp_all add: utf8_enc_def byte_def)

lemma json_str_u2028:
  "json_str (CHR 0x5C # ''u2028'' @ r) = prepend [CHR 0xE2, CHR 0x80, CHR 0xA8] (json_str r)"
  "json_str (CHR 0x5C # ''u2029'' @ r) = prepend [CHR 0xE2, CHR 0x80, CHR 0xA9] (json_str r)"
  using json_str_unicode [of "''2028'' @ r" 8232 r] json_str_unicode [of "''2029'' @ r" 8233 r]
  by (simp_all add: hex_val_def byte_def is_surrogate_def utf8_enc_2028)

lemma json_str_u00:
  assumes "byte c < 128"
  shows "json_str (json_u00 c @ r) = prepend [c] (json_str r)"
proof -
  have "hex4 (CHR ''0'' # CHR ''0'' # hex_digit (byte c div 16) # hex_digit (byte c mod 16) # r)
      = Some (byte c, r)"
    using assms by (simp add: hex_val_digit less_mult_imp_div_less) (simp add: hex_val_def byte_def)
  from json_str_unicode [OF this] assms show ?thesis
    by (simp add: json_u00_def is_surrogate_def utf8_enc_def)
qed

lemma json_str_escape_ascii:
  "byte c < 128 \<Longrightarrow> json_str (json_escape_ascii c @ r) = prepend [c] (json_str r)"
  by (simp add: json_escape_ascii_def json_str_u00 json_str_simple json_str_plain simple_escape_def)


lemma json_str_escape: "utf8_ok s \<Longrightarrow> json_str (json_escape s @ CHR 0x22 # r) = Some (s, r)"
proof (induction s rule: json_escape.induct)
  case (1 s)
  show ?case
  proof (cases s)
    case Nil
    then show ?thesis by (simp add: json_escape.simps json_str.simps)
  next
    case (Cons c t)
    show ?thesis
    proof (cases "byte c < 128")
      case True
      with Cons "1" show ?thesis
        by (simp add: json_escape.simps [of "c # t"] utf8_ok_ascii json_str_escape_ascii)
    next
      case False
      with Cons "1.prems" have w: "2 \<le> rune_width s" and ok: "utf8_ok (drop (rune_width s) s)"
        by (simp_all add: utf8_ok.simps [of "c # t"])
      show ?thesis
      proof (cases "\<exists>x. take 3 s = [CHR 0xE2, CHR 0x80, x] \<and> (x = CHR 0xA8 \<or> x = CHR 0xA9)")
        case True
        then obtain x where x: "take 3 s = [CHR 0xE2, CHR 0x80, x]" "x = CHR 0xA8 \<or> x = CHR 0xA9"
          by blast
        then have s: "s = CHR 0xE2 # CHR 0x80 # x # drop 3 s"
          by (metis append.simps append_take_drop_id)
        from x(2) have "rune_width s = 3"
          by (subst s) (auto simp: rune_width3 byte_def second_ok_def cont_byte_def)
        then have "json_str (json_escape (drop 3 s) @ CHR 0x22 # r) = Some (drop 3 s, r)"
          using False w ok x "1.IH"(3,4) Cons by auto
        then show ?thesis
          using x s False Cons w
          by (subst json_escape.simps) (auto simp: json_str_u2028 [simplified])
      next
        case no: False
        then have "json_escape s = take (rune_width s) s @ json_escape (drop (rune_width s) s)"
          using False w Cons by (auto simp: json_escape.simps [of "c # t"])
        moreover have "json_str (json_escape (drop (rune_width s) s) @ CHR 0x22 # r) = Some (drop (rune_width s) s, r)"
          using False w ok Cons no by (intro "1.IH") auto
        ultimately show ?thesis
          by (simp add: json_str_multi [OF w])
      qed
    qed
  qed
qed


lemma json_value_quote:
  "utf8_ok s \<Longrightarrow> json_value (Suc f) (json_quote s @ r) = Some (JStr s, r)"
  by (simp add: json_quote_def skip_ws_def json_str_escape)

lemma json_elems_join:
  "xs \<noteq> [] \<Longrightarrow> \<forall>x \<in> set xs. utf8_ok x \<Longrightarrow> length xs < f \<Longrightarrow>
     json_elems f (str_Join (map json_quote xs) '','' @ '']'' @ r) = Some (map JStr xs, r)"
proof (induction xs arbitrary: f)
  case (Cons x xs)
  then obtain g where f: "f = Suc (Suc g)" by (cases f; cases "f - 1") auto
  show ?case
  proof (cases xs)
    case Nil
    with Cons.prems show ?thesis by (simp add: f json_value_quote skip_ws_def del: json_value.simps)
  next
    case (Cons y ys)
    then have "json_elems (Suc g) (str_Join (map json_quote xs) '','' @ '']'' @ r) = Some (map JStr xs, r)"
      using Cons.prems Cons.IH [of "Suc g"] f by simp
    with Cons Cons.prems show ?thesis
      by (simp add: f json_value_quote skip_ws_def del: json_value.simps json_elems.simps(2)
          add: json_elems.simps(2) [of "Suc g" "_ @ _"])
  qed
qed simp

lemma length_str_Join_quote: "length xs \<le> length (str_Join (map json_quote xs) sep)"
  by (induction xs rule: induct_list012) (auto simp: json_quote_def)

lemma json_round_trip:
  assumes "\<forall>x \<in> set xs. utf8_ok x"
  shows "json_unmarshal (json_marshal xs) = xs"
proof (cases "xs = []")
  case True
  then show ?thesis
    by (simp add: json_unmarshal_def json_marshal_def skip_ws_def numeral_eq_Suc)
next
  case False
  let ?s = "str_Join (map json_quote xs) '','' @ '']''"
  have "\<not> HasPrefix (skip_ws ?s) '']''"
    using False by (cases xs; cases "tl xs") (auto simp: json_quote_def skip_ws_def)
  moreover have "json_elems (2 * length (CHR ''['' # ?s) + 1) ?s = Some (map JStr xs, [])"
    using json_elems_join [OF False assms, of _ "[]"] length_str_Join_quote [of xs "'',''"]
    by (simp del: json_elems.simps)
  ultimately show ?thesis
    by (simp add: json_unmarshal_def json_marshal_def skip_ws_def comp_def
        del: json_elems.simps HasPrefix_Cons)
qed

text \<open>
  The contract the configuration code relies on, and its provider. A string that is not
  well-formed UTF-8 does not survive: the encoder writes the replacement character for it.
\<close>

locale json_codec =
  fixes marshal :: "string list \<Rightarrow> string"
    and unmarshal :: "string \<Rightarrow> string list"
  assumes round_trip: "\<forall>x \<in> set xs. utf8_ok x \<Longrightarrow> unmarshal (marshal xs) = xs"
begin

lemma marshal_inj:
  "\<forall>x \<in> set xs. utf8_ok x \<Longrightarrow> \<forall>y \<in> set ys. utf8_ok y \<Longrightarrow> marshal xs = marshal ys \<longleftrightarrow> xs = ys"
  using round_trip by metis

end

interpretation go_json: json_codec json_marshal json_unmarshal
  by unfold_locales (rule json_round_trip)

end
