(* ===== verification/Container_Config.thy ===== *)
theory Container_Config
  imports Go_Json
begin

section \<open>Container configurations (\<open>cluster/config.go\<close>)\<close>

text \<open>
  A \<open>ContainerConfig\<close> embeds docker's \<open>container.Config\<close> and adds the host and networking
  configurations; the records keep the fields the sources read or write. Affinities, constraints,
  whitelists and reschedule policies live in the labels as JSON arrays. The lemmas show that
  \<open>BuildContainerConfig\<close> moves exactly the scheduling entries of the environment into those
  labels, that building twice changes nothing, and what the \<open>Add\<close> and \<open>Remove\<close> operations
  do to the lists that the scheduler reads.
\<close>

subsection \<open>Data\<close>

record PortBinding =
  HostIP :: string
  HostPort :: string

type_synonym PortMap = "(string \<times> PortBinding list) list"

record HostConfig =
  Memory :: int
  MemorySwap :: int
  CPUShares :: int
  CpusetCpus :: string
  NetworkMode :: string
  PortBindings :: PortMap
  VolumesFrom :: "string list"
  Links :: "string list"

record EndpointSettings =
  NetworkID :: string

type_synonym NetworkingConfig = "(string \<times> EndpointSettings) list"

record Config =
  Env :: "string list"
  Labels :: "string \<rightharpoonup> string"
  Image :: string
  ExposedPorts :: "string list"

record ContainerConfig = Config +
  HostConfig :: HostConfig
  NetworkingConfig :: NetworkingConfig

record OldContainerConfig = ContainerConfig +
  OldMemory :: int
  OldMemorySwap :: int
  OldCPUShares :: int
  OldCPUSet :: string

definition SwarmLabelNamespace :: string where
  "SwarmLabelNamespace = ''com.docker.swarm''"

subsection \<open>Reading the environment and the labels\<close>

definition parseEnv :: "string \<Rightarrow> bool \<times> string \<times> string" where
  "parseEnv e =
     (let parts = SplitN2 e '':'' in
      if length parts = 2 then (True, parts ! 0, parts ! 1) else (False, [], []))"

definition ConsolidateResourceFields :: "OldContainerConfig \<Rightarrow> OldContainerConfig" where
  "ConsolidateResourceFields c =
     (let h = HostConfig c;
          h = (if OldMemory c \<noteq> Memory h \<and> OldMemory c \<noteq> 0 then h\<lparr>Memory := OldMemory c\<rparr> else h);
          h = (if OldMemorySwap c \<noteq> MemorySwap h \<and> OldMemorySwap c \<noteq> 0
               then h\<lparr>MemorySwap := OldMemorySwap c\<rparr> else h);
          h = (if OldCPUShares c \<noteq> CPUShares h \<and> OldCPUShares c \<noteq> 0
               then h\<lparr>CPUShares := OldCPUShares c\<rparr> else h);
          h = (if OldCPUSet c \<noteq> CpusetCpus h \<and> OldCPUSet c \<noteq> []
               then h\<lparr>CpusetCpus := OldCPUSet c\<rparr> else h)
      in c\<lparr>HostConfig := h\<rparr>)"

record EnvExprs =
  affinities :: "string list"
  constraints :: "string list"
  whitelists :: "string list"
  reschedulePolicies :: "string list"
  env :: "string list"

fun parse_env_exprs :: "EnvExprs \<Rightarrow> string list \<Rightarrow> EnvExprs" where
  "parse_env_exprs a [] = a"
| "parse_env_exprs a (e # es) =
     (let (ok, key, value) = parseEnv e in
      parse_env_exprs
        (if ok \<and> key = ''affinity'' then a\<lparr>affinities := affinities a @ [value]\<rparr>
         else if ok \<and> key = ''constraint'' then a\<lparr>constraints := constraints a @ [value]\<rparr>
         else if ok \<and> key = ''reschedule'' then
           a\<lparr>reschedulePolicies := reschedulePolicies a @ [value]\<rparr>
         else if ok \<and> key = ''whitelist'' then a\<lparr>whitelists := whitelists a @ [value]\<rparr>
         else a\<lparr>env := env a @ [e]\<rparr>)
        es)"

definition swarm_key :: "string \<Rightarrow> string" where
  "swarm_key key = SwarmLabelNamespace @ ''.'' @ key"

definition label_exprs :: "(string \<rightharpoonup> string) \<Rightarrow> string \<Rightarrow> string list" where
  "label_exprs ls key = (case ls (swarm_key key) of Some l \<Rightarrow> json_unmarshal l | None \<Rightarrow> [])"

definition store_exprs ::
    "string \<Rightarrow> string list \<Rightarrow> (string \<rightharpoonup> string) \<Rightarrow> (string \<rightharpoonup> string)" where
  "store_exprs key xs ls = (if length xs > 0 then ls(swarm_key key \<mapsto> json_marshal xs) else ls)"

definition BuildContainerConfig ::
    "Config \<Rightarrow> HostConfig \<Rightarrow> NetworkingConfig \<Rightarrow> ContainerConfig" where
  "BuildContainerConfig c h n =
     (let a = parse_env_exprs
            \<lparr>affinities = label_exprs (Labels c) ''affinities'',
             constraints = label_exprs (Labels c) ''constraints'',
             whitelists = label_exprs (Labels c) ''whitelists'',
             reschedulePolicies = label_exprs (Labels c) ''reschedule-policies'',
             env = []\<rparr> (Env c);
          ls = store_exprs ''affinities'' (affinities a) (Labels c);
          ls = store_exprs ''constraints'' (constraints a) ls;
          ls = store_exprs ''reschedule-policies'' (reschedulePolicies a) ls;
          ls = store_exprs ''whitelists'' (whitelists a) ls
      in \<lparr>Env = env a, Labels = ls, Image = Image c, ExposedPorts = ExposedPorts c,
          HostConfig = h, NetworkingConfig = n\<rparr>)"

definition extractExprs :: "ContainerConfig \<Rightarrow> string \<Rightarrow> string list" where
  "extractExprs c key = label_exprs (Labels c) key"

subsection \<open>Accessors and updates\<close>

definition SwarmID :: "ContainerConfig \<Rightarrow> string" where
  "SwarmID c = (case Labels c (swarm_key ''id'') of Some l \<Rightarrow> l | None \<Rightarrow> [])"

definition SetSwarmID :: "ContainerConfig \<Rightarrow> string \<Rightarrow> ContainerConfig" where
  "SetSwarmID c i = c\<lparr>Labels := (Labels c)(swarm_key ''id'' \<mapsto> i)\<rparr>"

definition Affinities :: "ContainerConfig \<Rightarrow> string list" where
  "Affinities c = extractExprs c ''affinities''"

definition Constraints :: "ContainerConfig \<Rightarrow> string list" where
  "Constraints c = extractExprs c ''constraints''"

definition Whitelists :: "ContainerConfig \<Rightarrow> string list" where
  "Whitelists c = extractExprs c ''whitelists''"

definition set_exprs :: "ContainerConfig \<Rightarrow> string \<Rightarrow> string list \<Rightarrow> ContainerConfig" where
  "set_exprs c key xs = c\<lparr>Labels := (Labels c)(swarm_key key \<mapsto> json_marshal xs)\<rparr>"

definition AddWhitelist :: "ContainerConfig \<Rightarrow> string \<Rightarrow> ContainerConfig" where
  "AddWhitelist c w = set_exprs c ''whitelists'' (extractExprs c ''whitelists'' @ [w])"

definition RemoveWhitelist :: "ContainerConfig \<Rightarrow> string \<Rightarrow> ContainerConfig" where
  "RemoveWhitelist c w =
     set_exprs c ''whitelists'' (filter (\<lambda>a. a \<noteq> w) (extractExprs c ''whitelists''))"

definition AddAffinity :: "ContainerConfig \<Rightarrow> string \<Rightarrow> ContainerConfig" where
  "AddAffinity c a = set_exprs c ''affinities'' (extractExprs c ''affinities'' @ [a])"

definition RemoveAffinity :: "ContainerConfig \<Rightarrow> string \<Rightarrow> ContainerConfig" where
  "RemoveAffinity c x =
     set_exprs c ''affinities'' (filter (\<lambda>a. a \<noteq> x) (extractExprs c ''affinities''))"

definition AddConstraint :: "ContainerConfig \<Rightarrow> string \<Rightarrow> ContainerConfig" where
  "AddConstraint c x = set_exprs c ''constraints'' (extractExprs c ''constraints'' @ [x])"

definition HaveNodeConstraint :: "ContainerConfig \<Rightarrow> bool" where
  "HaveNodeConstraint c \<longleftrightarrow>
     (\<exists>x \<in> set (extractExprs c ''constraints''). HasPrefix x ''node=='' \<and> \<not> HasPrefix x ''node==~'')"

definition HasReschedulePolicy :: "ContainerConfig \<Rightarrow> string \<Rightarrow> bool" where
  "HasReschedulePolicy c p \<longleftrightarrow> (\<exists>x \<in> set (extractExprs c ''reschedule-policies''). x = p)"

definition Validate :: "ContainerConfig \<Rightarrow> go_error option" where
  "Validate c =
     (let ps = extractExprs c ''reschedule-policies'' in
      if length ps > 1 then Some (errorf ''too many reschedule policies'')
      else if length ps = 1 then
        (if ps ! 0 \<in> set [''off'', ''on-node-failure''] then None
         else Some (errorf (''invalid reschedule policy: '' @ ps ! 0)))
      else None)"

subsection \<open>The lists the scheduler reads\<close>

text \<open>
  The four labels have different keys, so that updating one list leaves the others alone.
\<close>

lemma swarm_key_inj [simp]: "swarm_key a = swarm_key b \<longleftrightarrow> a = b"
  by (simp add: swarm_key_def)

lemma label_exprs_upd_other [simp]:
  "key \<noteq> key' \<Longrightarrow> label_exprs (ls(swarm_key key' \<mapsto> v)) key = label_exprs ls key"
  by (simp add: label_exprs_def)

lemma label_exprs_upd_same:
  "\<forall>x \<in> set xs. utf8_ok x \<Longrightarrow> label_exprs (ls(swarm_key key \<mapsto> json_marshal xs)) key = xs"
  by (simp add: label_exprs_def go_json.round_trip)

lemma label_exprs_store_other [simp]:
  "key \<noteq> key' \<Longrightarrow> label_exprs (store_exprs key' xs ls) key = label_exprs ls key"
  by (simp add: store_exprs_def)

lemma label_exprs_store_same:
  "\<forall>x \<in> set xs. utf8_ok x \<Longrightarrow> (xs = [] \<Longrightarrow> label_exprs ls key = []) \<Longrightarrow>
     label_exprs (store_exprs key xs ls) key = xs"
  by (auto simp: store_exprs_def label_exprs_upd_same)

lemma extractExprs_set_exprs_same:
  "\<forall>x \<in> set xs. utf8_ok x \<Longrightarrow> extractExprs (set_exprs c key xs) key = xs"
  by (simp add: extractExprs_def set_exprs_def label_exprs_upd_same)

lemma extractExprs_set_exprs_other [simp]:
  "key \<noteq> key' \<Longrightarrow> extractExprs (set_exprs c key' xs) key = extractExprs c key"
  by (simp add: extractExprs_def set_exprs_def)

text \<open>What the environment contributes: the values of the entries \<open>key:value\<close> with one key.\<close>

definition env_values :: "string \<Rightarrow> string list \<Rightarrow> string list" where
  "env_values key es =
     map (\<lambda>e. snd (snd (parseEnv e))) (filter (\<lambda>e. fst (parseEnv e) \<and> fst (snd (parseEnv e)) = key) es)"

definition sched_keys :: "string set" where
  "sched_keys = {''affinity'', ''constraint'', ''reschedule'', ''whitelist''}"

definition plain_env :: "string \<Rightarrow> bool" where
  "plain_env e \<longleftrightarrow> \<not> (fst (parseEnv e) \<and> fst (snd (parseEnv e)) \<in> sched_keys)"

lemma parse_env_exprs_eq:
  "parse_env_exprs a es =
     \<lparr>affinities = affinities a @ env_values ''affinity'' es,
      constraints = constraints a @ env_values ''constraint'' es,
      whitelists = whitelists a @ env_values ''whitelist'' es,
      reschedulePolicies = reschedulePolicies a @ env_values ''reschedule'' es,
      env = env a @ filter plain_env es\<rparr>"
proof (induction es arbitrary: a)
  case (Cons e es)
  obtain ok key v where e: "parseEnv e = (ok, key, v)" by (cases "parseEnv e")
  show ?case
    by (simp add: Cons.IH e env_values_def plain_env_def sched_keys_def)
qed (simp add: env_values_def)


definition exprs_utf8 :: "Config \<Rightarrow> bool" where
  "exprs_utf8 c \<longleftrightarrow>
     (\<forall>(label, key) \<in> set [(''affinities'', ''affinity''), (''constraints'', ''constraint''),
         (''whitelists'', ''whitelist''), (''reschedule-policies'', ''reschedule'')].
        \<forall>x \<in> set (label_exprs (Labels c) label @ env_values key (Env c)). utf8_ok x)"

lemmas build_defs = BuildContainerConfig_def parse_env_exprs_eq Let_def extractExprs_def
  Affinities_def Constraints_def Whitelists_def

lemma build_exprs:
  assumes "exprs_utf8 c"
  shows "Affinities (BuildContainerConfig c h n) =
      label_exprs (Labels c) ''affinities'' @ env_values ''affinity'' (Env c)"
    and "Constraints (BuildContainerConfig c h n) =
      label_exprs (Labels c) ''constraints'' @ env_values ''constraint'' (Env c)"
    and "Whitelists (BuildContainerConfig c h n) =
      label_exprs (Labels c) ''whitelists'' @ env_values ''whitelist'' (Env c)"
    and "extractExprs (BuildContainerConfig c h n) ''reschedule-policies'' =
      label_exprs (Labels c) ''reschedule-policies'' @ env_values ''reschedule'' (Env c)"
  using assms
  by (auto simp: build_defs exprs_utf8_def ball_Un intro!: label_exprs_store_same)

lemma env_values_plain: "key \<in> sched_keys \<Longrightarrow> env_values key (filter plain_env es) = []"
  by (induction es) (auto simp: env_values_def plain_env_def)

lemma store_exprs_again:
  "label_exprs ls key = xs \<Longrightarrow> (xs \<noteq> [] \<Longrightarrow> ls (swarm_key key) = Some (json_marshal xs)) \<Longrightarrow>
     store_exprs key xs ls = ls"
  by (auto simp: store_exprs_def)

lemma store_exprs_get:
  "store_exprs key xs ls (swarm_key key') =
     (if key' = key \<and> xs \<noteq> [] then Some (json_marshal xs) else ls (swarm_key key'))"
  by (auto simp: store_exprs_def)

lemma build_twice:
  assumes "exprs_utf8 c"
  shows "BuildContainerConfig (Config.truncate (BuildContainerConfig c h n)) h n =
     BuildContainerConfig c h n"
proof -
  let ?b = "BuildContainerConfig c h n" and ?t = "Config.truncate (BuildContainerConfig c h n)"
  have t: "Labels ?t = Labels ?b" "Env ?t = Env ?b" "Image ?t = Image ?b"
    "ExposedPorts ?t = ExposedPorts ?b"
    by (simp_all add: Config.truncate_def)
  have e: "Env ?b = filter plain_env (Env c)" by (simp add: build_defs)
  note ex = build_exprs [OF assms, unfolded Affinities_def Constraints_def Whitelists_def extractExprs_def]
  have st: "store_exprs label (label_exprs (Labels ?b) label) (Labels ?b) = Labels ?b"
    if "label \<in> {''affinities'', ''constraints'', ''whitelists'', ''reschedule-policies''}" for label
    using that
    by (intro store_exprs_again refl) (auto simp: ex, simp_all add: build_defs store_exprs_get)
  show ?thesis
    unfolding BuildContainerConfig_def [of ?t] parse_env_exprs_eq Let_def
    by (simp add: t e env_values_plain sched_keys_def st) (simp add: build_defs)
qed

lemma extract_RemoveAffinity:
  "\<forall>a \<in> set (Affinities c). utf8_ok a \<Longrightarrow>
     Affinities (RemoveAffinity c x) = filter (\<lambda>a. a \<noteq> x) (Affinities c)"
  by (simp add: RemoveAffinity_def Affinities_def extractExprs_set_exprs_same)

lemma extract_AddAffinity:
  "\<forall>a \<in> set (Affinities c). utf8_ok a \<Longrightarrow> utf8_ok x \<Longrightarrow>
     Affinities (AddAffinity c x) = Affinities c @ [x]"
  by (simp add: AddAffinity_def Affinities_def extractExprs_set_exprs_same)

subsection \<open>Properties\<close>

text \<open>
  C9. \<open>BuildContainerConfig\<close> appends the values of the environment entries
  \<open>affinity:\<close>, \<open>constraint:\<close>, \<open>whitelist:\<close> and \<open>reschedule:\<close> to the lists already stored in the
  labels, which is what the accessors of the result return, and keeps every other environment
  entry, in order, and no scheduling entry.
\<close>

theorem build_config_exprs:
  assumes "exprs_utf8 c"
  shows "let b = BuildContainerConfig c h n in
     Affinities b = label_exprs (Labels c) ''affinities'' @ env_values ''affinity'' (Env c) \<and>
     Constraints b = label_exprs (Labels c) ''constraints'' @ env_values ''constraint'' (Env c) \<and>
     Whitelists b = label_exprs (Labels c) ''whitelists'' @ env_values ''whitelist'' (Env c) \<and>
     extractExprs b ''reschedule-policies'' =
       label_exprs (Labels c) ''reschedule-policies'' @ env_values ''reschedule'' (Env c) \<and>
     Env b = filter plain_env (Env c) \<and> HostConfig b = h"
  unfolding Let_def using build_exprs [OF assms] by (simp add: build_defs)

definition sample_config :: Config where
  "sample_config = \<lparr>Env = [''affinity:container==redis'', ''FOO=bar'', ''constraint:storage==ssd''],
     Labels = Map.empty, Image = ''nginx'', ExposedPorts = []\<rparr>"

definition sample_host :: HostConfig where
  "sample_host = \<lparr>Memory = 0, MemorySwap = 0, CPUShares = 0, CpusetCpus = [], NetworkMode = [],
     PortBindings = [], VolumesFrom = [], Links = []\<rparr>"

lemma sample_config_utf8: "exprs_utf8 sample_config"
  by code_simp

lemma sample_env_values:
  "env_values ''affinity'' (Env sample_config) = [''container==redis'']"
  "env_values ''constraint'' (Env sample_config) = [''storage==ssd'']"
  "filter plain_env (Env sample_config) = [''FOO=bar'']"
  by code_simp+

theorem build_config_exprs_witness:
  "Affinities (BuildContainerConfig sample_config sample_host []) = [''container==redis''] \<and>
   Constraints (BuildContainerConfig sample_config sample_host []) = [''storage==ssd''] \<and>
   Env (BuildContainerConfig sample_config sample_host []) = [''FOO=bar'']"
  using build_config_exprs [OF sample_config_utf8, of sample_host "[]"]
  by (simp add: Let_def sample_env_values) (simp add: sample_config_def label_exprs_def)

text \<open>
  Building is idempotent: the configuration that docker reports back for a container that
  was created from a built configuration is rebuilt to the same configuration, so that no
  affinity, constraint, whitelist or policy is duplicated by a refresh.
\<close>

lemma build_config_idempotent:
  assumes "exprs_utf8 c"
  shows "BuildContainerConfig (Config.truncate (BuildContainerConfig c h n)) h n =
     BuildContainerConfig c h n"
  by (rule build_twice [OF assms])

lemma build_config_idempotent_witness:
  "BuildContainerConfig (Config.truncate (BuildContainerConfig sample_config sample_host [])) sample_host []
     = BuildContainerConfig sample_config sample_host []"
  by (rule build_config_idempotent [OF sample_config_utf8])

text \<open>
  C10. The image affinity that a retried creation adds is removed again afterwards; the two
  steps leave the affinities as they were exactly when the user did not ask for the same
  affinity, and the constraints in any case, for texts that are valid UTF-8.
\<close>

theorem add_remove_affinity:
  assumes "\<forall>a \<in> set (Affinities c). utf8_ok a" and "utf8_ok x"
  shows "(Affinities (RemoveAffinity (AddAffinity c x) x) = Affinities c \<longleftrightarrow> x \<notin> set (Affinities c)) \<and>
     Constraints (RemoveAffinity (AddAffinity c x) x) = Constraints c"
proof (intro conjI)
  have *: "Affinities (RemoveAffinity (AddAffinity c x) x) = filter (\<lambda>a. a \<noteq> x) (Affinities c)"
    using assms by (simp add: extract_RemoveAffinity extract_AddAffinity)
  show "Affinities (RemoveAffinity (AddAffinity c x) x) = Affinities c \<longleftrightarrow> x \<notin> set (Affinities c)"
    unfolding * by (auto simp: filter_id_conv)
  show "Constraints (RemoveAffinity (AddAffinity c x) x) = Constraints c"
    by (simp add: RemoveAffinity_def AddAffinity_def Constraints_def)
qed

theorem add_remove_affinity_witness:
  "let c = set_exprs (BuildContainerConfig sample_config sample_host []) ''affinities'' [''image==nginx''] in
     Affinities (RemoveAffinity (AddAffinity c ''image==nginx'') ''image==nginx'') \<noteq> Affinities c"
proof -
  let ?c = "set_exprs (BuildContainerConfig sample_config sample_host []) ''affinities'' [''image==nginx'']"
  have u: "utf8_ok ''image==nginx''" by code_simp
  then have a: "Affinities ?c = [''image==nginx'']"
    by (simp add: Affinities_def extractExprs_set_exprs_same)
  show ?thesis
    using add_remove_affinity [of ?c "''image==nginx''"] a u by (simp add: Let_def)
qed

end
