(* ===== verification/Cluster_Objects.thy ===== *)
theory Cluster_Objects
  imports Container_Config
begin

section \<open>Containers, images, networks and volumes (\<open>cluster/\<close>)\<close>

text \<open>
  The objects an engine reports and the look-ups over lists of them: \<open>cluster/container.go\<close>,
  \<open>cluster/image.go\<close>, \<open>cluster/network.go\<close> and \<open>cluster/volume.go\<close>. An object points at the engine
  it lives on; the sources read only the identity of that engine through the pointer, so the
  model stores it (\<open>EngineSpec\<close>) in the object. The shared contract of the look-ups, that a
  result is one of the listed objects and that an empty name finds nothing, is the locale
  \<open>object_lookup\<close>.
\<close>

subsection \<open>Vendored helpers\<close>

text \<open>\<open>stringid.TruncateID\<close> and the parts of docker's \<open>filters.Args\<close> that the sources call.\<close>

definition TruncateID :: "string \<Rightarrow> string" where
  "TruncateID i = take 12 (case str_Index i '':'' of Some k \<Rightarrow> drop (k + 1) i | None \<Rightarrow> i)"

type_synonym Args = "(string \<times> string list) list"

definition args_Get :: "Args \<Rightarrow> string \<Rightarrow> string list" where
  "args_Get a field = (case map_of a field of Some vs \<Rightarrow> vs | None \<Rightarrow> [])"

definition args_Include :: "Args \<Rightarrow> string \<Rightarrow> bool" where
  "args_Include a field \<longleftrightarrow> map_of a field \<noteq> None"

definition args_MatchKVList :: "Args \<Rightarrow> string \<Rightarrow> (string \<times> string) list \<Rightarrow> bool" where
  "args_MatchKVList a field sources \<longleftrightarrow>
     (let vs = args_Get a field in
      vs = [] \<or>
      (sources \<noteq> [] \<and>
       list_all (\<lambda>name.
         let kv = SplitN2 name ''='' in
         case map_of sources (kv ! 0) of
           None \<Rightarrow> False
         | Some v \<Rightarrow> \<not> (length kv = 2 \<and> kv ! 1 \<noteq> v)) vs))"

definition args_ExactMatch :: "Args \<Rightarrow> string \<Rightarrow> string \<Rightarrow> bool" where
  "args_ExactMatch a field source \<longleftrightarrow>
     (case map_of a field of None \<Rightarrow> True | Some vs \<Rightarrow> vs = [] \<or> source \<in> set vs)"

subsection \<open>Engines as the other objects see them\<close>

record EngineSpec =
  e_ID :: string
  e_IP :: string
  e_Addr :: string
  e_Name :: string
  e_Labels :: "string \<rightharpoonup> string"

subsection \<open>Containers\<close>

text \<open>Times are nanoseconds since the zero \<open>time.Time\<close>; a text that does not parse is the zero time.\<close>

record ContainerState =
  Running :: bool
  Paused :: bool
  Restarting :: bool
  Dead :: bool
  ExitCode :: int
  StartedAt :: int
  FinishedAt :: int
  Health :: "string option"

record NetworkSettings =
  Ports :: PortMap
  Networks :: NetworkingConfig

text \<open>\<open>types.MountPoint\<close> and \<open>types.Port\<close>.\<close>

record MountPoint =
  mp_Name :: string
  mp_Destination :: string

record Port =
  p_IP :: string
  p_PrivatePort :: int
  p_PublicPort :: int
  p_Type :: string

record ContainerJSON =
  Info_Name :: string
  Info_Created :: string
  Info_State :: "ContainerState option"
  Info_HostConfig :: "HostConfig option"
  Info_Config :: Config
  Info_NetworkSettings :: "NetworkSettings option"
  Mounts :: "MountPoint list"
  ExecIDs :: "string list"

record Container =
  c_ID :: string
  Names :: "string list"
  c_Image :: string
  c_Ports :: "Port list"
  c_Labels :: "string \<rightharpoonup> string"
  State :: string
  Created :: int
  c_Config :: ContainerConfig
  Info :: ContainerJSON
  c_Engine :: EngineSpec

type_synonym Containers = "Container list"

definition StateString :: "ContainerState \<Rightarrow> string" where
  "StateString s =
     (if Running s then
        (if Paused s then ''paused'' else if Restarting s then ''restarting'' else ''running'')
      else if Dead s then ''dead''
      else if StartedAt s = 0 then ''created''
      else ''exited'')"

text \<open>
  \<open>human\<close> stands for \<open>units.HumanDuration\<close>, \<open>now\<close> for \<open>time.Now().UTC()\<close>, \<open>itoa\<close> for the verb
  \<open>%d\<close>.
\<close>

definition FullStateString ::
    "(int \<Rightarrow> string) \<Rightarrow> (int \<Rightarrow> string) \<Rightarrow> int \<Rightarrow> ContainerState \<Rightarrow> string" where
  "FullStateString human itoa now s =
     (if Running s then
        if Paused s then ''Up '' @ human (now - StartedAt s) @ '' (Paused)''
        else if Restarting s then
          ''Restarting ('' @ itoa (ExitCode s) @ '') '' @ human (now - FinishedAt s) @ '' ago''
        else
          let healthText = (case Health s of
                None \<Rightarrow> []
              | Some h \<Rightarrow> if h = ''starting'' then ''health: starting'' else h)
          in if length healthText > 0
             then ''Up '' @ human (now - StartedAt s) @ '' ('' @ healthText @ '')''
             else ''Up '' @ human (now - StartedAt s)
      else if Dead s then ''Dead''
      else if StartedAt s = 0 then ''Created''
      else if FinishedAt s = 0 then []
      else ''Exited ('' @ itoa (ExitCode s) @ '') '' @ human (now - FinishedAt s) @ '' ago'')"

definition name_matches :: "string \<Rightarrow> Container \<Rightarrow> bool" where
  "name_matches q c \<longleftrightarrow>
     list_ex (\<lambda>name. name = q \<or> name = ''/'' @ q \<or> e_ID (c_Engine c) @ name = q \<or>
                e_Name (c_Engine c) @ name = q) (Names c)"

definition Containers_Get :: "Containers \<Rightarrow> string \<Rightarrow> Container option" where
  "Containers_Get cs q =
     (if length q = 0 then None
      else case first_such (\<lambda>c. c_ID c = q \<or> TruncateID (c_ID c) = q) cs of
        Some c \<Rightarrow> Some c
      | None \<Rightarrow>
       (case first_such (\<lambda>c. SwarmID (c_Config c) = q \<or> TruncateID (SwarmID (c_Config c)) = q) cs of
          Some c \<Rightarrow> Some c
        | None \<Rightarrow>
            let candidates = filter (name_matches q) cs in
            if length candidates = 1 then Some (candidates ! 0)
            else if length candidates > 1 then None
            else
              let candidates = candidates @ filter (\<lambda>c. HasPrefix (c_ID c) q) cs;
                  candidates = candidates @ filter (\<lambda>c. HasPrefix (SwarmID (c_Config c)) q) cs
              in if length candidates = 1 then Some (candidates ! 0) else None))"

subsection \<open>Images\<close>

record Image =
  i_ID :: string
  RepoTags :: "string list"
  RepoDigests :: "string list"
  i_Created :: int
  i_Labels :: "(string \<times> string) list"
  i_Engine :: EngineSpec

definition ParseRepositoryTag :: "string \<Rightarrow> string \<times> string" where
  "ParseRepositoryTag repos =
     (if CHR ''@'' \<in> set repos then
        (let parts = str_Split repos (CHR ''@'') in (parts ! 0, parts ! 1))
      else case str_LastIndex (CHR '':'') repos of
        None \<Rightarrow> (repos, [])
      | Some n \<Rightarrow>
          let tag = drop (n + 1) repos in
          if \<not> Contains tag ''/'' then (take n repos, tag) else (repos, []))"

definition repo_match :: "string \<Rightarrow> string \<Rightarrow> bool \<Rightarrow> string \<Rightarrow> bool" where
  "repo_match repoName tag matchTag x =
     (let (imageRepoName, imageTag) = ParseRepositoryTag x in
      (matchTag = False \<and> imageRepoName = repoName) \<or>
      (imageRepoName = repoName \<and> (imageTag = tag \<or> tag = [])))"

definition Image_Match :: "Image \<Rightarrow> string \<Rightarrow> bool \<Rightarrow> bool" where
  "Image_Match im q matchTag =
     (let size = length q; parts = SplitN2 (i_ID im) '':'' in
      if i_ID im = q \<or> (size > 2 \<and> HasPrefix (i_ID im) q) then True
      else if length parts = 2 \<and> (parts ! 1 = q \<or> (size > 2 \<and> HasPrefix (parts ! 1) q)) then True
      else
        let (repoName, tag) = ParseRepositoryTag q in
        list_ex (repo_match repoName tag matchTag) (RepoTags im) \<or>
        list_ex (repo_match repoName tag matchTag) (RepoDigests im))"

record ImageFilterOptions =
  opt_All :: bool
  opt_Filters :: Args

definition includeAll :: "ImageFilterOptions \<Rightarrow> Image \<Rightarrow> bool" where
  "includeAll opts im \<longleftrightarrow>
     opt_All opts \<or>
     (length (RepoTags im) \<noteq> 0 \<and> RepoTags im ! 0 \<noteq> ''<none>:<none>'') \<or>
     (length (RepoDigests im) \<noteq> 0 \<and> RepoDigests im ! 0 \<noteq> ''<none>@<none>'')"

definition includeFilter :: "ImageFilterOptions \<Rightarrow> Image \<Rightarrow> bool" where
  "includeFilter opts im \<longleftrightarrow>
     length (opt_Filters opts) = 0 \<or> args_MatchKVList (opt_Filters opts) ''label'' (i_Labels im)"

definition referenceFilter :: "ImageFilterOptions \<Rightarrow> Image \<Rightarrow> string \<Rightarrow> bool" where
  "referenceFilter opts im fld \<longleftrightarrow>
     \<not> args_Include (opt_Filters opts) fld \<or>
     list_ex (\<lambda>ref. list_ex (\<lambda>pattern. ref = pattern \<or> pattern = fst (ParseRepositoryTag ref))
        (args_Get (opt_Filters opts) fld)) (RepoTags im) \<or>
     list_ex (\<lambda>ref. list_ex (\<lambda>pattern. ref = pattern \<or> pattern = fst (ParseRepositoryTag ref))
        (args_Get (opt_Filters opts) fld)) (RepoDigests im)"

definition Images_Filter :: "Image list \<Rightarrow> ImageFilterOptions \<Rightarrow> Image list" where
  "Images_Filter images opts =
     filter (\<lambda>im. includeAll opts im \<and> includeFilter opts im \<and>
        referenceFilter opts im ''reference'') images"

subsection \<open>Networks\<close>

record EndpointResource =
  EndpointID :: string

record Network =
  n_ID :: string
  n_Name :: string
  Scope :: string
  n_Driver :: string
  n_Labels :: "(string \<times> string) list"
  n_Containers :: "(string \<times> EndpointResource) list"
  n_Engine :: EngineSpec

definition isPreDefined :: "Network \<Rightarrow> bool" where
  "isPreDefined n \<longleftrightarrow> n_Name n = ''none'' \<or> n_Name n = ''host'' \<or> n_Name n = ''bridge''"

text \<open>Ranging over \<open>network.Containers\<close> and writing every endpoint into another map.\<close>

definition merge_endpoints ::
    "(string \<times> EndpointResource) list \<Rightarrow> (string \<times> EndpointResource) list \<Rightarrow> (string \<times> EndpointResource) list" where
  "merge_endpoints src dst = fold (\<lambda>(k, v). AList.update k v) src dst"

fun uniq_step :: "(string \<times> Network) list \<Rightarrow> Network list \<Rightarrow> (string \<times> Network) list" where
  "uniq_step tmp [] = tmp"
| "uniq_step tmp (n # ns) =
     (case map_of tmp (n_ID n) of
        Some m \<Rightarrow>
          uniq_step (AList.update (n_ID n)
            (m\<lparr>n_Containers := merge_endpoints (n_Containers n) (n_Containers m)\<rparr>) tmp) ns
      | None \<Rightarrow>
          uniq_step (AList.update (n_ID n)
            (n\<lparr>n_Containers := merge_endpoints (n_Containers n) []\<rparr>) tmp) ns)"

definition Networks_Uniq :: "Network list \<Rightarrow> Network list" where
  "Networks_Uniq ns = map snd (uniq_step [] ns)"

definition Networks_Get :: "Network list \<Rightarrow> string \<Rightarrow> Network option" where
  "Networks_Get ns q =
     (if length q = 0 then None
      else case first_such (\<lambda>n. n_ID n = q \<or> TruncateID (n_ID n) = q) ns of
        Some n \<Rightarrow> Some n
      | None \<Rightarrow>
          let candidates = filter (\<lambda>n. n_Name n = q \<or> e_ID (n_Engine n) @ ''/'' @ n_Name n = q \<or>
                 e_Name (n_Engine n) @ ''/'' @ n_Name n = q) ns;
              size = length (Networks_Uniq candidates)
          in if size = 1 then Some (candidates ! 0)
             else if size > 1 then None
             else case first_such (\<lambda>n. n_Name n = ''/'' @ q) ns of
               Some n \<Rightarrow> Some n
             | None \<Rightarrow>
                 let candidates = candidates @ filter (\<lambda>n. HasPrefix (n_ID n) q) ns in
                 if length (Networks_Uniq candidates) = 1 then Some (candidates ! 0) else None)"

definition network_include :: "Args \<Rightarrow> Network \<Rightarrow> bool" where
  "network_include flt n \<longleftrightarrow>
     list_all (\<lambda>typ. \<not> (typ = ''custom'' \<and> isPreDefined n) \<and> \<not> (typ = ''builtin'' \<and> \<not> isPreDefined n))
       (args_Get flt ''type'') \<and>
     (args_Include flt ''label'' \<longrightarrow> args_MatchKVList flt ''label'' (n_Labels n)) \<and>
     (args_Include flt ''driver'' \<longrightarrow> args_ExactMatch flt ''driver'' (n_Driver n))"

definition Networks_Filter :: "Network list \<Rightarrow> Args \<Rightarrow> Network list" where
  "Networks_Filter ns flt =
     (let names = args_Get flt ''name''; ids = args_Get flt ''id'' in
      if length names = 0 \<and> length ids = 0 then filter (network_include flt) (Networks_Uniq ns)
      else filter (network_include flt) (List.map_filter (Networks_Get ns) (names @ ids)))"

fun endpoint_index :: "(string \<times> string) list \<Rightarrow> (string \<times> EndpointResource) list \<Rightarrow> (string \<times> string) list" where
  "endpoint_index m [] = m"
| "endpoint_index m ((ix, r) # rs) =
     endpoint_index
       (if map_of m (EndpointID r) = None \<or> \<not> Contains ix (EndpointID r)
        then AList.update (EndpointID r) ix m else m) rs"

definition RemoveDuplicateEndpoints :: "Network \<Rightarrow> Network" where
  "RemoveDuplicateEndpoints n =
     (let endpointMap = endpoint_index [] (n_Containers n) in
      n\<lparr>n_Containers :=
         fold (\<lambda>(_, ix). AList.update ix
                 (case map_of (n_Containers n) ix of Some r \<Rightarrow> r | None \<Rightarrow> \<lparr>EndpointID = []\<rparr>))
              endpointMap []\<rparr>)"

subsection \<open>Volumes\<close>

record Volume =
  v_Name :: string
  v_Driver :: string
  v_Engine :: EngineSpec

definition Volumes_Get :: "Volume list \<Rightarrow> string \<Rightarrow> Volume option" where
  "Volumes_Get vs q =
     (if length q = 0 then None
      else
        let candidates = filter (\<lambda>v. v_Name v = q \<or> e_ID (v_Engine v) @ ''/'' @ v_Name v = q \<or>
               e_Name (v_Engine v) @ ''/'' @ v_Name v = q) vs
        in if length candidates = 1 then Some (candidates ! 0)
           else if length candidates > 1 then
             first_such (\<lambda>v. v_Name v = q \<and> v_Driver v \<noteq> ''local'') candidates
           else first_such (\<lambda>v. v_Name v = ''/'' @ q) vs)"

subsection \<open>The shared contract of the look-ups\<close>

locale object_lookup =
  fixes get :: "'a list \<Rightarrow> string \<Rightarrow> 'a option"
  assumes get_empty: "get xs [] = None"
    and get_mem: "get xs q = Some x \<Longrightarrow> x \<in> set xs"
begin

lemma get_Nil: "get [] q = None"
  using get_mem [of "[]" q] by (cases "get [] q") auto

lemma get_Some_query: "get xs q = Some x \<Longrightarrow> q \<noteq> []"
  using get_empty by fastforce

lemma get_subset: "set xs \<subseteq> set ys \<Longrightarrow> get xs q = Some x \<Longrightarrow> x \<in> set ys"
  using get_mem by blast

end

definition container_matches :: "Container \<Rightarrow> string \<Rightarrow> bool" where
  "container_matches c q \<longleftrightarrow>
     c_ID c = q \<or> TruncateID (c_ID c) = q \<or>
     SwarmID (c_Config c) = q \<or> TruncateID (SwarmID (c_Config c)) = q \<or>
     name_matches q c \<or> HasPrefix (c_ID c) q \<or> HasPrefix (SwarmID (c_Config c)) q"

lemma Containers_Get_sound:
  assumes "Containers_Get cs q = Some c"
  shows "c \<in> set cs \<and> container_matches c q \<and> q \<noteq> []"
proof -
  let ?n = "filter (name_matches q) cs"
  let ?p = "?n @ filter (\<lambda>c. HasPrefix (c_ID c) q) cs @ filter (\<lambda>c. HasPrefix (SwarmID (c_Config c)) q) cs"
  from assms consider (id) "first_such (\<lambda>c. c_ID c = q \<or> TruncateID (c_ID c) = q) cs = Some c"
    | (swarm) "first_such (\<lambda>c. SwarmID (c_Config c) = q \<or> TruncateID (SwarmID (c_Config c)) = q) cs = Some c"
    | (name) "length ?n = 1" "c = ?n ! 0"
    | (prefix) "length ?p = 1" "c = ?p ! 0"
    by (auto simp: Containers_Get_def Let_def split: if_splits option.splits)
  then have "c \<in> set cs \<and> container_matches c q"
  proof cases
    case prefix
    then have "c \<in> set ?p" using nth_mem [of 0 ?p] by simp
    then show ?thesis by (auto simp: container_matches_def)
  next
    case name
    then show ?thesis using nth0_filter_mem [of "name_matches q" cs] by (simp add: container_matches_def)
  qed (auto simp: container_matches_def dest: first_such_Some)
  moreover from assms have "q \<noteq> []" by (auto simp: Containers_Get_def)
  ultimately show ?thesis by simp
qed

interpretation containers: object_lookup Containers_Get
  by unfold_locales (simp add: Containers_Get_def, blast dest: Containers_Get_sound)

lemma TruncateID_length: "length (TruncateID i) \<le> 12"
  by (simp add: TruncateID_def)

lemma Containers_Get_full_id:
  assumes "distinct (map c_ID cs)" and "c \<in> set cs" and "12 < length (c_ID c)"
  shows "Containers_Get cs (c_ID c) = Some c"
proof -
  have "TruncateID (c_ID y) \<noteq> c_ID c" for y
    using TruncateID_length [of "c_ID y"] assms(3) by auto
  moreover have "y = c" if "y \<in> set cs" "c_ID y = c_ID c" for y
    using assms(1,2) that by (auto simp: distinct_map dest: inj_onD)
  ultimately have "first_such (\<lambda>y. c_ID y = c_ID c \<or> TruncateID (c_ID y) = c_ID c) cs = Some c"
    using assms(2) by (intro first_such_unique) auto
  with assms(3) show ?thesis by (auto simp: Containers_Get_def)
qed

lemma keys_merge: "fst ` set (merge_endpoints src dst) = fst ` set src \<union> fst ` set dst"
  unfolding merge_endpoints_def
proof (induction src arbitrary: dst)
  case (Cons a src)
  show ?case by (simp add: Cons.IH split: prod.splits)
qed simp

definition keyed_by_id :: "(string \<times> Network) list \<Rightarrow> bool" where
  "keyed_by_id tmp \<longleftrightarrow> distinct (map fst tmp) \<and> (\<forall>(k, n) \<in> set tmp. n_ID n = k)"

lemma keyed_by_id_update:
  "keyed_by_id tmp \<Longrightarrow> n_ID x = k \<Longrightarrow> keyed_by_id (AList.update k x tmp)"
  by (auto simp: keyed_by_id_def dest!: alist_mem_update)

lemma uniq_step_keyed:
  "keyed_by_id tmp \<Longrightarrow> keyed_by_id (uniq_step tmp ns) \<and>
     fst ` set (uniq_step tmp ns) = fst ` set tmp \<union> n_ID ` set ns"
proof (induction tmp ns rule: uniq_step.induct)
  case (2 tmp n ns)
  show ?case
  proof (cases "map_of tmp (n_ID n)")
    case None
    with 2 show ?thesis by (simp add: keyed_by_id_update)
  next
    case (Some m)
    then have "n_ID m = n_ID n" using "2.prems" by (auto simp: keyed_by_id_def dest: map_of_SomeD)
    with Some 2 show ?thesis by (simp add: keyed_by_id_update)
  qed
qed simp

lemma Networks_Uniq_ids:
  "distinct (map n_ID (Networks_Uniq ns)) \<and> n_ID ` set (Networks_Uniq ns) = n_ID ` set ns"
proof -
  have k: "keyed_by_id (uniq_step [] ns)" "fst ` set (uniq_step [] ns) = n_ID ` set ns"
    using uniq_step_keyed [of "[]" ns] by (auto simp: keyed_by_id_def)
  then have "map n_ID (Networks_Uniq ns) = map fst (uniq_step [] ns)"
    by (auto simp: Networks_Uniq_def keyed_by_id_def)
  with k show ?thesis by (metis keyed_by_id_def list.set_map)
qed

lemma Networks_Uniq_empty: "length (Networks_Uniq ns) = 1 \<Longrightarrow> ns \<noteq> []"
  by (auto simp: Networks_Uniq_def)

lemma Networks_Get_mem: "Networks_Get ns q = Some n \<Longrightarrow> n \<in> set ns"
proof -
  have nth: "xs ! 0 \<in> set ns" if "length (Networks_Uniq xs) = 1" "set xs \<subseteq> set ns" for xs
    using that Networks_Uniq_empty nth_mem [of 0 xs] by fastforce
  assume "Networks_Get ns q = Some n"
  then show ?thesis
    by (auto simp: Networks_Get_def Let_def split: if_splits option.splits
        dest: first_such_Some intro!: nth)
qed

lemma Volumes_Get_mem: "Volumes_Get vs q = Some v \<Longrightarrow> v \<in> set vs"
  by (auto simp: Volumes_Get_def Let_def split: if_splits dest!: first_such_Some
      intro: nth0_filter_mem [THEN conjunct1])

interpretation networks: object_lookup Networks_Get
  by unfold_locales (simp add: Networks_Get_def, rule Networks_Get_mem)

interpretation volumes: object_lookup Volumes_Get
  by unfold_locales (simp add: Volumes_Get_def, rule Volumes_Get_mem)


subsection \<open>Duplicate endpoints\<close>

definition endpoint_map_ok :: "(string \<times> EndpointResource) list \<Rightarrow> (string \<times> string) list \<Rightarrow> bool" where
  "endpoint_map_ok cs m \<longleftrightarrow> distinct (map fst m) \<and>
     (\<forall>(i, ix) \<in> set m. \<exists>r. map_of cs ix = Some r \<and> EndpointID r = i)"

lemma endpoint_map_ok_update:
  "endpoint_map_ok cs m \<Longrightarrow> map_of cs ix = Some r \<Longrightarrow> endpoint_map_ok cs (AList.update (EndpointID r) ix m)"
  by (auto simp: endpoint_map_ok_def dest!: alist_mem_update)

lemma endpoint_index_ok:
  "endpoint_map_ok cs m \<Longrightarrow> \<forall>(ix, r) \<in> set rs. map_of cs ix = Some r \<Longrightarrow>
     endpoint_map_ok cs (endpoint_index m rs) \<and>
     fst ` set (endpoint_index m rs) = fst ` set m \<union> (\<lambda>(ix, r). EndpointID r) ` set rs"
proof (induction m rs rule: endpoint_index.induct)
  case (2 m ix r rs)
  let ?m = "if map_of m (EndpointID r) = None \<or> \<not> Contains ix (EndpointID r)
    then AList.update (EndpointID r) ix m else m"
  have "endpoint_map_ok cs ?m"
    using "2.prems" by (simp add: endpoint_map_ok_update)
  moreover have "fst ` set ?m = insert (EndpointID r) (fst ` set m)"
    by (auto simp: map_of_eq_None_iff image_iff)
  ultimately show ?case using "2.IH" "2.prems" by simp
qed simp

lemma endpoint_map_snd_distinct: "endpoint_map_ok cs m \<Longrightarrow> distinct (map snd m)"
proof -
  assume ok: "endpoint_map_ok cs m"
  then have "\<exists>r. map_of cs (snd x) = Some r \<and> EndpointID r = fst x" if "x \<in> set m" for x
    using that by (auto simp: endpoint_map_ok_def)
  then have "x = y" if "x \<in> set m" "y \<in> set m" "snd x = snd y" for x y
    using that by (metis option.inject prod.expand)
  moreover from ok have "distinct m" by (simp add: endpoint_map_ok_def distinct_map)
  ultimately show ?thesis by (auto simp: distinct_map intro: inj_onI)
qed

lemma fold_update_fresh:
  "distinct (map snd m) \<Longrightarrow> snd ` set m \<inter> fst ` set al = {} \<Longrightarrow>
     fold (\<lambda>(_, ix). AList.update ix (f ix)) m al = al @ map (\<lambda>(_, ix). (ix, f ix)) m"
proof (induction m arbitrary: al)
  case (Cons a m)
  obtain i ix where a: "a = (i, ix)" by (cases a)
  have "AList.update ix v al = al @ [(ix, v)]" if "ix \<notin> fst ` set al" for v
    using that by (induction al) auto
  with Cons a show ?case by (subst fold.simps) (auto simp: image_iff)
qed simp

lemma RemoveDuplicateEndpoints_correct:
  assumes "distinct (map fst (n_Containers n))"
  defines "n' \<equiv> RemoveDuplicateEndpoints n"
  shows "distinct (map (EndpointID \<circ> snd) (n_Containers n'))"
    and "(EndpointID \<circ> snd) ` set (n_Containers n') = (EndpointID \<circ> snd) ` set (n_Containers n)"
    and "set (n_Containers n') \<subseteq> set (n_Containers n)"
proof -
  let ?m = "endpoint_index [] (n_Containers n)"
  have ok: "endpoint_map_ok (n_Containers n) ?m"
    and keys: "fst ` set ?m = (\<lambda>(ix, r). EndpointID r) ` set (n_Containers n)"
    using endpoint_index_ok [of "n_Containers n" "[]" "n_Containers n"] assms(1)
    by (auto simp: endpoint_map_ok_def)
  have n': "n_Containers n' = map (\<lambda>(_, ix). (ix, case map_of (n_Containers n) ix of Some r \<Rightarrow> r
      | None \<Rightarrow> \<lparr>EndpointID = []\<rparr>)) ?m"
    unfolding n'_def RemoveDuplicateEndpoints_def Let_def
    using fold_update_fresh [OF endpoint_map_snd_distinct [OF ok], of "[]"] by simp
  have ids: "map (EndpointID \<circ> snd) (n_Containers n') = map fst ?m"
    unfolding n' using ok by (fastforce simp: endpoint_map_ok_def)
  show "distinct (map (EndpointID \<circ> snd) (n_Containers n'))"
    unfolding ids using ok by (simp add: endpoint_map_ok_def)
  show "(EndpointID \<circ> snd) ` set (n_Containers n') = (EndpointID \<circ> snd) ` set (n_Containers n)"
    using arg_cong [OF ids, of set] keys by (simp add: case_prod_unfold comp_def)
  show "set (n_Containers n') \<subseteq> set (n_Containers n)"
    unfolding n' using ok by (fastforce simp: endpoint_map_ok_def dest: map_of_SomeD)
qed

lemma ParseRepositoryTag_join:
  "CHR ''@'' \<notin> set (repo @ tag) \<Longrightarrow> CHR '':'' \<notin> set tag \<Longrightarrow> CHR ''/'' \<notin> set tag \<Longrightarrow>
     ParseRepositoryTag (repo @ '':'' @ tag) = (repo, tag)"
  by (auto simp: ParseRepositoryTag_def str_LastIndex_char Contains_def)


subsection \<open>Properties\<close>

definition empty_spec :: EngineSpec where
  "empty_spec = \<lparr>e_ID = [], e_IP = [], e_Addr = [], e_Name = [], e_Labels = Map.empty\<rparr>"

definition empty_info :: ContainerJSON where
  "empty_info = \<lparr>Info_Name = [], Info_Created = [], Info_State = None, Info_HostConfig = None,
     Info_Config = \<lparr>Env = [], Labels = Map.empty, Image = [], ExposedPorts = []\<rparr>,
     Info_NetworkSettings = None, Mounts = [], ExecIDs = []\<rparr>"

definition empty_config :: ContainerConfig where
  "empty_config = \<lparr>Env = [], Labels = Map.empty, Image = [], ExposedPorts = [],
     HostConfig = sample_host, NetworkingConfig = []\<rparr>"

definition a_container :: "string \<Rightarrow> string list \<Rightarrow> Container" where
  "a_container i ns = \<lparr>c_ID = i, Names = ns, c_Image = [], c_Ports = [], c_Labels = Map.empty, State = ''running'', Created = 0,
     c_Config = empty_config, Info = empty_info, c_Engine = empty_spec\<rparr>"

text \<open>
  Looking a container up by its full identifier finds it, whatever else the list holds:
  neither the short identifier, the Swarm identifier nor the name of another container can
  take precedence, because identifiers are unique and longer than a short one.
\<close>

lemma container_get_full_id:
  assumes "distinct (map c_ID cs)" and "c \<in> set cs" and "12 < length (c_ID c)"
  shows "Containers_Get cs (c_ID c) = Some c"
  by (rule Containers_Get_full_id [OF assms])

lemma container_get_full_id_witness:
  "Containers_Get [a_container ''0123456789abcdef'' [''/a''], a_container ''x'' [''/0123456789abcdef'']]
     ''0123456789abcdef'' = Some (a_container ''0123456789abcdef'' [''/a''])"
  using container_get_full_id [of "[a_container ''0123456789abcdef'' [''/a''],
      a_container ''x'' [''/0123456789abcdef'']]" "a_container ''0123456789abcdef'' [''/a'']"]
  by (simp add: a_container_def)

text \<open>
  Whatever \<open>Containers.Get\<close> returns is a listed container that the query designates, by
  identifier, Swarm identifier, name or prefix; and a name that several containers answer to,
  when no identifier equals it, designates none of them.
\<close>

lemma container_get_sound:
  "(\<forall>c. Containers_Get cs q = Some c \<longrightarrow> c \<in> set cs \<and> container_matches c q) \<and>
   (2 \<le> length (filter (name_matches q) cs) \<and>
    (\<forall>c \<in> set cs. c_ID c \<noteq> q \<and> TruncateID (c_ID c) \<noteq> q \<and>
       SwarmID (c_Config c) \<noteq> q \<and> TruncateID (SwarmID (c_Config c)) \<noteq> q) \<longrightarrow>
    Containers_Get cs q = None)"
proof (intro conjI allI impI)
  fix c assume "Containers_Get cs q = Some c"
  then show "c \<in> set cs" and "container_matches c q"
    using containers.get_mem Containers_Get_sound by blast+
next
  assume *: "2 \<le> length (filter (name_matches q) cs) \<and>
    (\<forall>c \<in> set cs. c_ID c \<noteq> q \<and> TruncateID (c_ID c) \<noteq> q \<and>
       SwarmID (c_Config c) \<noteq> q \<and> TruncateID (SwarmID (c_Config c)) \<noteq> q)"
  then have "first_such (\<lambda>c. c_ID c = q \<or> TruncateID (c_ID c) = q) cs = None"
    and "first_such (\<lambda>c. SwarmID (c_Config c) = q \<or> TruncateID (SwarmID (c_Config c)) = q) cs = None"
    by (auto simp: first_such_None)
  with * show "Containers_Get cs q = None" by (simp add: Containers_Get_def)
qed

lemma container_get_sound_witness:
  "Containers_Get [a_container ''aaa'' [''/web''], a_container ''bbb'' [''/web'']] ''web'' = None"
proof -
  have "TruncateID ''aaa'' = ''aaa''" "TruncateID ''bbb'' = ''bbb''" "TruncateID [] = []"
    by (simp_all add: TruncateID_def)
  then show ?thesis
    using container_get_sound [of "[a_container ''aaa'' [''/web''], a_container ''bbb'' [''/web'']]" "''web''"]
    by (simp add: a_container_def name_matches_def empty_config_def SwarmID_def)
qed

text \<open>
  \<open>ParseRepositoryTag\<close> inverts the join of a repository and a tag, also when the repository
  carries a registry port.
\<close>

lemma repository_tag_round_trip:
  assumes "CHR ''@'' \<notin> set (repo @ tag)" and "CHR '':'' \<notin> set tag" and "CHR ''/'' \<notin> set tag"
  shows "ParseRepositoryTag (repo @ '':'' @ tag) = (repo, tag)"
  by (rule ParseRepositoryTag_join [OF assms])

lemma repository_tag_round_trip_witness:
  "ParseRepositoryTag ''localhost:5000/samalba/hipache:latest'' =
     (''localhost:5000/samalba/hipache'', ''latest'')"
  using repository_tag_round_trip [of "''localhost:5000/samalba/hipache''" "''latest''"] by simp

text \<open>
  \<open>RemoveDuplicateEndpoints\<close> keeps one entry for every endpoint identifier, and only entries
  of the network it is given.
\<close>

lemma remove_duplicate_endpoints:
  assumes "distinct (map fst (n_Containers n))"
  shows "distinct (map (EndpointID \<circ> snd) (n_Containers (RemoveDuplicateEndpoints n))) \<and>
     (EndpointID \<circ> snd) ` set (n_Containers (RemoveDuplicateEndpoints n)) =
       (EndpointID \<circ> snd) ` set (n_Containers n) \<and>
     set (n_Containers (RemoveDuplicateEndpoints n)) \<subseteq> set (n_Containers n)"
  using RemoveDuplicateEndpoints_correct [OF assms] by blast

definition two_endpoints :: Network where
  "two_endpoints = \<lparr>n_ID = ''n'', n_Name = ''n'', Scope = ''global'', n_Driver = [], n_Labels = [],
     n_Containers = [(''ep-x'', \<lparr>EndpointID = ''x''\<rparr>), (''c1'', \<lparr>EndpointID = ''x''\<rparr>)],
     n_Engine = empty_spec\<rparr>"

lemma remove_duplicate_endpoints_witness:
  "distinct (map fst (n_Containers two_endpoints)) \<and>
   distinct (map (EndpointID \<circ> snd) (n_Containers (RemoveDuplicateEndpoints two_endpoints)))"
  using remove_duplicate_endpoints [of two_endpoints] by (simp add: two_endpoints_def)

end
