(* ===== verification/Sched_Filters.thy ===== *)
theory Sched_Filters
  imports Cluster_Objects
begin

section \<open>Nodes, expressions and filters (\<open>scheduler/node\<close>, \<open>scheduler/filter\<close>)\<close>

text \<open>
  The scheduler's view of an engine (\<open>Node\<close>), the expression language of affinities, constraints
  and whitelists (\<open>expr.go\<close>), the seven filters, and \<open>ApplyFilters\<close>. A filter may panic, hence the
  option around its result. Go's \<open>regexp\<close> engine on patterns supplied by the user is the
  parameter \<open>re\<close>: \<open>re p\<close> is \<open>None\<close> when \<open>p\<close> does not compile, and otherwise the matcher of
  \<open>MatchString\<close>; the two fixed patterns of \<open>parseExprs\<close> are written out. The locale
  \<open>node_filter\<close> is the contract of the interface \<open>Filter\<close>, interpreted for each of the seven.
\<close>

type_synonym regexp = "string \<Rightarrow> (string \<Rightarrow> bool) option"

subsection \<open>Nodes\<close>

record Node =
  nd_ID :: string
  nd_IP :: string
  nd_Addr :: string
  nd_Name :: string
  nd_Labels :: "string \<rightharpoonup> string"
  nd_Containers :: Containers
  nd_Images :: "Image list"
  UsedMemory :: int
  UsedCpus :: int
  TotalMemory :: int
  TotalCpus :: int
  HealthIndicator :: int

definition Node_IsHealthy :: "Node \<Rightarrow> bool" where
  "Node_IsHealthy n \<longleftrightarrow> HealthIndicator n > 0"

definition Node_Container :: "Node \<Rightarrow> string \<Rightarrow> Container option" where
  "Node_Container n q = Containers_Get (nd_Containers n) q"

definition Node_AddContainer :: "Node \<Rightarrow> Container \<Rightarrow> go_error option \<times> Node" where
  "Node_AddContainer n c =
     (let memory = Memory (HostConfig (c_Config c));
          cpus = CPUShares (HostConfig (c_Config c))
      in if i64 (TotalMemory n - memory) < 0 \<or> i64 (TotalCpus n - cpus) < 0
         then (Some (errorf ''not enough resources''), n)
         else (None, n\<lparr>UsedMemory := i64 (UsedMemory n + memory), UsedCpus := i64 (UsedCpus n + cpus),
                 nd_Containers := nd_Containers n @ [c]\<rparr>))"

subsection \<open>Expressions\<close>

text \<open>
  The character classes of the two fixed patterns, under \<open>(?i)\<close>. Simple case folding adds
  two characters outside ASCII to \<open>[a-z]\<close>: the long s and the Kelvin sign.
\<close>

definition is_letter :: "char \<Rightarrow> bool" where
  "is_letter c \<longleftrightarrow> 97 \<le> byte c \<and> byte c \<le> 122 \<or> 65 \<le> byte c \<and> byte c \<le> 90"

definition is_digit :: "char \<Rightarrow> bool" where
  "is_digit c \<longleftrightarrow> 48 \<le> byte c \<and> byte c \<le> 57"

definition key_first_char :: "char \<Rightarrow> bool" where
  "key_first_char c \<longleftrightarrow> is_letter c \<or> c = CHR ''_''"

definition key_char :: "char \<Rightarrow> bool" where
  "key_char c \<longleftrightarrow> is_letter c \<or> is_digit c \<or> c \<in> set ''-_.''"

definition value_char :: "char \<Rightarrow> bool" where
  "value_char c \<longleftrightarrow> is_letter c \<or> is_digit c \<or> c \<in> set '':-_.*/()?+[]^$| '' \<or>
     c \<in> {CHR 0x5C, CHR 0x09, CHR 0x0A, CHR 0x0C, CHR 0x0D}"

definition strip_class :: "(char \<Rightarrow> bool) \<Rightarrow> string \<Rightarrow> string option" where
  "strip_class P s =
     (if s = [] then None
      else if byte (hd s) < 128 then (if P (hd s) then Some (tl s) else None)
      else if take 2 s = [CHR 0xC5, CHR 0xBF] then Some (drop 2 s)
      else if take 3 s = [CHR 0xE2, CHR 0x84, CHR 0xAA] then Some (drop 3 s)
      else None)"

lemma strip_class_length: "strip_class P s = Some t \<Longrightarrow> length t < length s"
  by (auto simp: strip_class_def split: if_splits)

function all_class :: "(char \<Rightarrow> bool) \<Rightarrow> string \<Rightarrow> bool" where
  "all_class P s =
     (if s = [] then True else case strip_class P s of None \<Rightarrow> False | Some t \<Rightarrow> all_class P t)"
  by pat_completeness auto
termination
  by (relation "measure (\<lambda>(P, s). length s)") (auto dest: strip_class_length)

declare all_class.simps [simp del]

definition key_valid :: "string \<Rightarrow> bool" where
  "key_valid s \<longleftrightarrow>
     (case strip_class key_first_char s of None \<Rightarrow> False | Some t \<Rightarrow> t \<noteq> [] \<and> all_class key_char t)"

definition optional_head :: "(char \<Rightarrow> bool) \<Rightarrow> string \<Rightarrow> string list" where
  "optional_head P s = (if s \<noteq> [] \<and> P (hd s) then [s, tl s] else [s])"

definition value_valid :: "string \<Rightarrow> bool" where
  "value_valid s \<longleftrightarrow>
     list_ex (\<lambda>s1. list_ex (\<lambda>s2. s2 \<noteq> [] \<and> all_class value_char s2) (optional_head (\<lambda>c. c = CHR ''~'') s1))
       (optional_head (\<lambda>c. c \<in> set ''=!/'') s)"

definition OPERATORS :: "string list" where
  "OPERATORS = [''=='', ''!='']"

record expr =
  expr_key :: string
  expr_op :: nat
  expr_value :: string
  expr_isSoft :: bool

text \<open>\<open>value[0]\<close> panics on an empty string.\<close>

definition isSoft :: "string \<Rightarrow> bool option" where
  "isSoft v = map_option (\<lambda>c. c = CHR ''~'') (index v 0)"

text \<open>The body of the loop for one entry, split at the operator that was found in it.\<close>

definition squote :: "string \<Rightarrow> string" where
  "squote s = CHR 0x27 # s @ [CHR 0x27]"

definition parse_at :: "string \<Rightarrow> nat \<Rightarrow> expr result option" where
  "parse_at e i =
     (let parts = SplitN2 e (OPERATORS ! i) in
      if \<not> key_valid (parts ! 0) then Some (Inl (errorf (''Key '' @ squote (parts ! 0) @ '' is invalid'')))
      else if length parts = 2 then
        (if \<not> value_valid (parts ! 1) then
           Some (Inl (errorf (''Value '' @ squote (parts ! 1) @ '' is invalid'')))
         else do {
           soft \<leftarrow> isSoft (parts ! 1);
           Some (Inr \<lparr>expr_key = parts ! 0, expr_op = i, expr_value = TrimLeft (parts ! 1) ''~'', expr_isSoft = soft\<rparr>) })
      else Some (Inr \<lparr>expr_key = parts ! 0, expr_op = i, expr_value = [], expr_isSoft = False\<rparr>))"

fun parseExprs :: "string list \<Rightarrow> expr list result option" where
  "parseExprs [] = Some (Inr [])"
| "parseExprs (e # es) =
     (if Contains e ''=='' \<or> Contains e ''!='' then do {
        r \<leftarrow> parse_at e (if Contains e ''=='' then 0 else 1);
        (case r of
           Inl err \<Rightarrow> Some (Inl err)
         | Inr x \<Rightarrow> do {
             rs \<leftarrow> parseExprs es;
             Some (case rs of Inl err \<Rightarrow> Inl err | Inr xs \<Rightarrow> Inr (x # xs)) }) }
      else Some (Inl (errorf ''One of operator ==, != is expected'')))"

text \<open>The pattern of \<open>Match\<close>: the indexing and the slicing of the value can panic.\<close>

definition match_pattern :: "string \<Rightarrow> string option" where
  "match_pattern v = do {
     c0 \<leftarrow> index v 0;
     c1 \<leftarrow> index v (int (length v) - 1);
     if c0 = CHR ''/'' \<and> c1 = CHR ''/'' then
       (if length v - 1 < 1 then None else Some (take (length v - 2) (drop 1 v)))
     else Some (''^'' @ ReplaceChar v (CHR ''*'') ''.*'' @ ''$'') }"

definition Match :: "regexp \<Rightarrow> expr \<Rightarrow> string list \<Rightarrow> bool option" where
  "Match re e whats = do {
     pattern \<leftarrow> match_pattern (expr_value e);
     let match = (case re pattern of None \<Rightarrow> False | Some m \<Rightarrow> list_ex m whats);
     Some (if expr_op e = 0 then match else if expr_op e = 1 then \<not> match else False) }"

definition expr_text :: "expr \<Rightarrow> string" where
  "expr_text e = expr_key e @ OPERATORS ! expr_op e @ expr_value e"

definition expr_soft_text :: "expr \<Rightarrow> string" where
  "expr_soft_text e =
     expr_text e @ '' (soft='' @ (if expr_isSoft e then ''true'' else ''false'') @ '')''"

subsection \<open>The loop over the expressions of a configuration\<close>

primrec filter_opt :: "('a \<Rightarrow> bool option) \<Rightarrow> 'a list \<Rightarrow> 'a list option" where
  "filter_opt P [] = Some []"
| "filter_opt P (x # xs) = do { b \<leftarrow> P x; ys \<leftarrow> filter_opt P xs; Some (if b then x # ys else ys) }"

text \<open>
  \<open>AffinityFilter.Filter\<close>, \<open>ConstraintFilter.Filter\<close> and \<open>WhitelistFilter.Filter\<close> share this loop;
  they differ in the test \<open>m\<close> of one node and in the noun of the error.
\<close>

fun expr_loop ::
    "(expr \<Rightarrow> Node \<Rightarrow> bool option) \<Rightarrow> string \<Rightarrow> bool \<Rightarrow> expr list \<Rightarrow> Node list \<Rightarrow> Node list result option" where
  "expr_loop m noun soft [] nodes = Some (Inr nodes)"
| "expr_loop m noun soft (e # es) nodes =
     (if \<not> soft \<and> expr_isSoft e then expr_loop m noun soft es nodes
      else do {
        candidates \<leftarrow> filter_opt (m e) nodes;
        (if length candidates = 0
         then Some (Inl (errorf (''unable to find a node that satisfies the '' @ noun @ '' '' @ expr_text e)))
         else expr_loop m noun soft es candidates) })"

definition with_exprs ::
    "string list \<Rightarrow> (expr list \<Rightarrow> 'a result option) \<Rightarrow> 'a result option" where
  "with_exprs raw k = do {
     r \<leftarrow> parseExprs raw;
     (case r of Inl err \<Rightarrow> Some (Inl err) | Inr es \<Rightarrow> k es) }"

subsection \<open>The seven filters\<close>

definition HealthFilter_Filter ::
    "ContainerConfig \<Rightarrow> Node list \<Rightarrow> bool \<Rightarrow> Node list result option" where
  "HealthFilter_Filter config nodes soft =
     (let res = filter Node_IsHealthy nodes in
      if length res = 0 then Some (Inl (errorf ''No healthy node available in the cluster''))
      else Some (Inr res))"

definition has_free_slot :: "Node \<Rightarrow> bool" where
  "has_free_slot n =
     (case nd_Labels n ''containerslots'' of
        Some slotsString \<Rightarrow>
          let (slots, ok) = Atoi slotsString in
          \<not> ok \<or> int (length (nd_Containers n)) < slots
      | None \<Rightarrow> True)"

definition SlotsFilter_Filter ::
    "ContainerConfig \<Rightarrow> Node list \<Rightarrow> bool \<Rightarrow> Node list result option" where
  "SlotsFilter_Filter config nodes soft =
     (let res = filter has_free_slot nodes in
      if length res = 0
      then Some (Inl (errorf ''No node with enough open slots available in the cluster''))
      else Some (Inr res))"

definition affinity_match :: "regexp \<Rightarrow> expr \<Rightarrow> Node \<Rightarrow> bool option" where
  "affinity_match re affinity n =
     (if expr_key affinity = ''container'' then
        Match re affinity (concat (map (\<lambda>c.
          if length (Names c) > 0 then [c_ID c, TrimPrefix (Names c ! 0) ''/''] else [])
          (nd_Containers n)))
      else if expr_key affinity = ''image'' then
        Match re affinity (concat (map (\<lambda>i.
          i_ID i # RepoTags i @ map (\<lambda>tag. fst (ParseRepositoryTag tag)) (RepoTags i))
          (nd_Images n)))
      else
        Match re affinity (map (\<lambda>c.
          (case c_Labels c (expr_key affinity) of Some v \<Rightarrow> v | None \<Rightarrow> [])) (nd_Containers n)))"

definition AffinityFilter_Filter ::
    "regexp \<Rightarrow> ContainerConfig \<Rightarrow> Node list \<Rightarrow> bool \<Rightarrow> Node list result option" where
  "AffinityFilter_Filter re config nodes soft =
     with_exprs (Affinities config) (\<lambda>es. expr_loop (affinity_match re) ''affinity'' soft es nodes)"

definition constraint_match :: "regexp \<Rightarrow> expr \<Rightarrow> Node \<Rightarrow> bool option" where
  "constraint_match re c n =
     (if expr_key c = ''node'' then Match re c [nd_ID n, nd_Name n]
      else Match re c [case nd_Labels n (expr_key c) of Some v \<Rightarrow> v | None \<Rightarrow> []])"

definition ConstraintFilter_Filter ::
    "regexp \<Rightarrow> ContainerConfig \<Rightarrow> Node list \<Rightarrow> bool \<Rightarrow> Node list result option" where
  "ConstraintFilter_Filter re config nodes soft =
     with_exprs (Constraints config) (\<lambda>es. expr_loop (constraint_match re) ''constraint'' soft es nodes)"

definition whitelist_match :: "expr \<Rightarrow> Node \<Rightarrow> bool option" where
  "whitelist_match w n = Some (nd_Name n \<in> set (str_Split (expr_value w) (CHR ''|'')))"

definition WhitelistFilter_Filter ::
    "ContainerConfig \<Rightarrow> Node list \<Rightarrow> bool \<Rightarrow> Node list result option" where
  "WhitelistFilter_Filter config nodes soft =
     with_exprs (Whitelists config) (\<lambda>es. expr_loop whitelist_match ''whitelist'' soft es nodes)"

definition dependency_check :: "string list \<Rightarrow> Node \<Rightarrow> bool" where
  "dependency_check deps n = list_all (\<lambda>d. Node_Container n d \<noteq> None) deps"

definition DependencyFilter_GetFilters :: "ContainerConfig \<Rightarrow> string list" where
  "DependencyFilter_GetFilters config =
     (let h = HostConfig config in
      map (\<lambda>v. ''--volumes-from='' @ v) (VolumesFrom h) @
      map (\<lambda>l. ''--link='' @ l) (Links h) @
      (if HasPrefix (NetworkMode h) ''container:'' then [''--net='' @ NetworkMode h] else []))"

definition DependencyFilter_String :: "ContainerConfig \<Rightarrow> string" where
  "DependencyFilter_String config = str_Join (DependencyFilter_GetFilters config) '' ''"

definition DependencyFilter_Filter ::
    "ContainerConfig \<Rightarrow> Node list \<Rightarrow> bool \<Rightarrow> Node list result option" where
  "DependencyFilter_Filter config nodes soft =
     (if length nodes = 0 then Some (Inr nodes)
      else
        let h = HostConfig config;
            volumes = map (\<lambda>v. SplitN2 v '':'' ! 0) (VolumesFrom h);
            links = map (\<lambda>l. SplitN2 l '':'' ! 0) (Links h);
            net = (if HasPrefix (NetworkMode h) ''container:''
                   then [TrimPrefix (NetworkMode h) ''container:''] else []);
            candidates = filter (\<lambda>n. dependency_check volumes n \<and> dependency_check links n \<and>
                                   dependency_check net n) nodes
        in if length candidates = 0
           then Some (Inl (errorf (''Unable to find a node fulfilling all dependencies: '' @
                                   DependencyFilter_String config)))
           else Some (Inr candidates))"

subsection \<open>Ports\<close>

text \<open>
  \<open>net.ParseIP\<close> as far as \<open>IsUnspecified\<close> needs it: the sixteen bytes of the address, an IPv4
  address in its mapped form.
\<close>

definition take_num :: "int \<Rightarrow> (char \<Rightarrow> int option) \<Rightarrow> string \<Rightarrow> (int \<times> string) option" where
  "take_num base val s =
     (let ds = takeWhile (\<lambda>c. val c \<noteq> None) s;
          n = foldl (\<lambda>a c. a * base + the (val c)) 0 ds
      in if ds = [] \<or> n \<ge> 16777215 then None else Some (n, drop (length ds) s))"

fun parse_octets :: "nat \<Rightarrow> string \<Rightarrow> int list option" where
  "parse_octets 0 s = (if s = [] then Some [] else None)"
| "parse_octets (Suc k) s = do {
     (n, r) \<leftarrow> take_num 10 digit_val s;
     r' \<leftarrow> (if k = 0 then Some r else if HasPrefix r ''.'' then Some (tl r) else None);
     ns \<leftarrow> (if n > 255 then None else parse_octets k r');
     Some (n # ns) }"

definition parseIPv4 :: "string \<Rightarrow> int list option" where
  "parseIPv4 s = map_option (\<lambda>ns. replicate 10 0 @ [255, 255] @ ns) (parse_octets 4 s)"

definition expand_ellipsis :: "int list \<Rightarrow> nat option \<Rightarrow> int list option" where
  "expand_ellipsis acc ell =
     (if length acc < 16 then
        (case ell of None \<Rightarrow> None
         | Some k \<Rightarrow> Some (take k acc @ replicate (16 - length acc) 0 @ drop k acc))
      else if ell \<noteq> None then None else Some acc)"

function parseIPv6_loop :: "int list \<Rightarrow> nat option \<Rightarrow> string \<Rightarrow> int list option" where
  "parseIPv6_loop acc ell s =
     (if length acc \<ge> 16 then (if s = [] then expand_ellipsis acc ell else None)
      else case take_num 16 (\<lambda>c. map_option int (hex_val c)) s of
        None \<Rightarrow> None
      | Some (n, r) \<Rightarrow>
          if n > 65535 then None
          else if HasPrefix r ''.'' then
            (if ell = None \<and> length acc \<noteq> 12 then None
             else if length acc + 4 > 16 then None
             else case parse_octets 4 s of None \<Rightarrow> None | Some ns \<Rightarrow> expand_ellipsis (acc @ ns) ell)
          else if r = [] then expand_ellipsis (acc @ [n div 256, n mod 256]) ell
          else if hd r \<noteq> CHR '':'' \<or> tl r = [] then None
          else if hd (tl r) = CHR '':'' then
            (if ell \<noteq> None then None
             else if tl (tl r) = [] then
               expand_ellipsis (acc @ [n div 256, n mod 256]) (Some (length acc + 2))
             else parseIPv6_loop (acc @ [n div 256, n mod 256]) (Some (length acc + 2)) (tl (tl r)))
          else parseIPv6_loop (acc @ [n div 256, n mod 256]) ell (tl r))"
  by pat_completeness auto
termination
  by (relation "measure (\<lambda>(acc, ell, s). 16 - length acc)") auto

declare parseIPv6_loop.simps [simp del]

definition parseIPv6 :: "string \<Rightarrow> int list option" where
  "parseIPv6 s =
     (if HasPrefix s ''::'' then
        (if length s = 2 then Some (replicate 16 0) else parseIPv6_loop [] (Some 0) (drop 2 s))
      else parseIPv6_loop [] None s)"

definition ParseIP :: "string \<Rightarrow> int list option" where
  "ParseIP s =
     (case first_such (\<lambda>c. c = CHR ''.'' \<or> c = CHR '':'') s of
        None \<Rightarrow> None
      | Some c \<Rightarrow> if c = CHR ''.'' then parseIPv4 s else parseIPv6 s)"

definition IsUnspecified :: "int list \<Rightarrow> bool" where
  "IsUnspecified ip \<longleftrightarrow> ip = replicate 16 0 \<or> ip = replicate 10 0 @ [255, 255, 0, 0, 0, 0]"

definition bindsAllInterfaces :: "PortBinding \<Rightarrow> bool" where
  "bindsAllInterfaces b \<longleftrightarrow>
     HostIP b = [] \<or> (case ParseIP (HostIP b) of None \<Rightarrow> False | Some ip \<Rightarrow> IsUnspecified ip)"

definition port_conflict :: "PortBinding \<Rightarrow> PortBinding \<Rightarrow> bool" where
  "port_conflict requested b \<longleftrightarrow>
     HostPort b \<noteq> [] \<and> HostPort b = HostPort requested \<and>
     (HostIP requested = HostIP b \<or> bindsAllInterfaces requested \<or> bindsAllInterfaces b)"

definition compare :: "PortBinding \<Rightarrow> PortMap \<Rightarrow> bool" where
  "compare requested bindings =
     list_ex (\<lambda>(_, binding). list_ex (port_conflict requested) binding) bindings"

definition portAlreadyExposed :: "Node \<Rightarrow> string \<Rightarrow> bool" where
  "portAlreadyExposed n requestedPort =
     list_ex (\<lambda>c. (case Info_HostConfig (Info c) of
                    Some h \<Rightarrow> NetworkMode h = ''host'' \<and>
                      list_ex (\<lambda>port. port = requestedPort) (ExposedPorts (Info_Config (Info c)))
                  | None \<Rightarrow> False)) (nd_Containers n)"

definition portAlreadyInUse :: "Node \<Rightarrow> PortBinding \<Rightarrow> bool" where
  "portAlreadyInUse n requested =
     list_ex (\<lambda>c.
       if c_ID c \<noteq> [] then
         (case Info_HostConfig (Info c) of
            Some h \<Rightarrow> compare requested (PortBindings h) | None \<Rightarrow> False) \<or>
         (case Info_NetworkSettings (Info c) of
            Some s \<Rightarrow> compare requested (Ports s) | None \<Rightarrow> False)
       else compare requested (PortBindings (HostConfig (c_Config c)))) (nd_Containers n)"

fun filterHost :: "string list \<Rightarrow> Node list \<Rightarrow> Node list result option" where
  "filterHost [] nodes = Some (Inr nodes)"
| "filterHost (port # ports) nodes =
     (let candidates = filter (\<lambda>n. \<not> portAlreadyExposed n port) nodes in
      if length candidates = 0
      then Some (Inl (errorf (''unable to find a node with port '' @ port @ '' available in the Host mode'')))
      else filterHost ports candidates)"

fun filterBridge_bindings :: "PortBinding list \<Rightarrow> Node list \<Rightarrow> Node list result" where
  "filterBridge_bindings [] nodes = Inr nodes"
| "filterBridge_bindings (binding # bs) nodes =
     (let candidates = filter (\<lambda>n. \<not> portAlreadyInUse n binding) nodes in
      if length candidates = 0
      then Inl (errorf (''unable to find a node with port '' @ HostPort binding @ '' available''))
      else filterBridge_bindings bs candidates)"

text \<open>The two nested loops visit the bindings of all ports one after the other.\<close>

definition filterBridge :: "PortMap \<Rightarrow> Node list \<Rightarrow> Node list result option" where
  "filterBridge ports nodes = Some (filterBridge_bindings (concat (map snd ports)) nodes)"

definition PortFilter_Filter ::
    "ContainerConfig \<Rightarrow> Node list \<Rightarrow> bool \<Rightarrow> Node list result option" where
  "PortFilter_Filter config nodes soft =
     (if NetworkMode (HostConfig config) = ''host'' then filterHost (ExposedPorts config) nodes
      else filterBridge (PortBindings (HostConfig config)) nodes)"

definition PortFilter_GetFilters :: "ContainerConfig \<Rightarrow> string list" where
  "PortFilter_GetFilters config =
     (if NetworkMode (HostConfig config) = ''host''
      then map (\<lambda>port. ''port '' @ port @ '' (Host mode)'') (ExposedPorts config)
      else map (\<lambda>b. ''port '' @ HostPort b @ '' (Bridge mode)'')
             (concat (map snd (PortBindings (HostConfig config)))))"

subsection \<open>The interface and the batch\<close>

record NodeFilter =
  f_Name :: string
  f_Filter :: "ContainerConfig \<Rightarrow> Node list \<Rightarrow> bool \<Rightarrow> Node list result option"
  f_GetFilters :: "ContainerConfig \<Rightarrow> string list result option"

definition HealthFilter :: NodeFilter where
  "HealthFilter = \<lparr>f_Name = ''health'', f_Filter = HealthFilter_Filter,
     f_GetFilters = (\<lambda>_. Some (Inr []))\<rparr>"

definition PortFilter :: NodeFilter where
  "PortFilter = \<lparr>f_Name = ''port'', f_Filter = PortFilter_Filter,
     f_GetFilters = (\<lambda>c. Some (Inr (PortFilter_GetFilters c)))\<rparr>"

definition SlotsFilter :: NodeFilter where
  "SlotsFilter = \<lparr>f_Name = ''containerslots'', f_Filter = SlotsFilter_Filter,
     f_GetFilters = (\<lambda>_. Some (Inr [''available container slots'']))\<rparr>"

definition DependencyFilter :: NodeFilter where
  "DependencyFilter = \<lparr>f_Name = ''dependency'', f_Filter = DependencyFilter_Filter,
     f_GetFilters = (\<lambda>c. Some (Inr (DependencyFilter_GetFilters c)))\<rparr>"

definition AffinityFilter :: "regexp \<Rightarrow> NodeFilter" where
  "AffinityFilter re = \<lparr>f_Name = ''affinity'', f_Filter = AffinityFilter_Filter re,
     f_GetFilters = (\<lambda>c. with_exprs (Affinities c) (\<lambda>es. Some (Inr (map expr_soft_text es))))\<rparr>"

definition ConstraintFilter :: "regexp \<Rightarrow> NodeFilter" where
  "ConstraintFilter re = \<lparr>f_Name = ''constraint'', f_Filter = ConstraintFilter_Filter re,
     f_GetFilters = (\<lambda>c. with_exprs (Constraints c) (\<lambda>es. Some (Inr (map expr_text es))))\<rparr>"

definition WhitelistFilter :: NodeFilter where
  "WhitelistFilter = \<lparr>f_Name = ''whitelist'', f_Filter = WhitelistFilter_Filter,
     f_GetFilters = (\<lambda>c. with_exprs (Whitelists c) (\<lambda>es. Some (Inr (map expr_soft_text es))))\<rparr>"

definition filters :: "regexp \<Rightarrow> NodeFilter list" where
  "filters re = [HealthFilter, PortFilter, SlotsFilter, DependencyFilter, AffinityFilter re,
     ConstraintFilter re, WhitelistFilter]"

fun filter_New :: "regexp \<Rightarrow> string list \<Rightarrow> NodeFilter list result" where
  "filter_New re [] = Inr []"
| "filter_New re (name # names) =
     (case first_such (\<lambda>f. f_Name f = name) (filters re) of
        None \<Rightarrow> Inl (errorf ''filter not supported'')
      | Some f \<Rightarrow> (case filter_New re names of Inl e \<Rightarrow> Inl e | Inr fs \<Rightarrow> Inr (f # fs)))"

definition filter_List :: "regexp \<Rightarrow> string list" where
  "filter_List re = map f_Name (filters re)"

fun listAllFilters :: "NodeFilter list \<Rightarrow> ContainerConfig \<Rightarrow> string \<Rightarrow> string option" where
  "listAllFilters [] config lastFilter = Some []"
| "listAllFilters (f # fs) config lastFilter = do {
     r \<leftarrow> f_GetFilters f config;
     let here = (case r of
           Inl _ \<Rightarrow> []
         | Inr ls \<Rightarrow> if length ls > 0 then CHR 0x0A # ''['' @ str_Join ls '' '' @ '']'' else []);
     rest \<leftarrow> (if f_Name f = lastFilter then Some [] else listAllFilters fs config lastFilter);
     Some (here @ rest) }"

fun apply_filters_loop ::
    "NodeFilter list \<Rightarrow> ContainerConfig \<Rightarrow> bool \<Rightarrow> NodeFilter list \<Rightarrow> Node list \<Rightarrow> Node list result option" where
  "apply_filters_loop every config soft [] candidates = Some (Inr candidates)"
| "apply_filters_loop every config soft (f # fs) candidates = do {
     r \<leftarrow> f_Filter f config candidates soft;
     (case r of
        Inr candidates' \<Rightarrow> apply_filters_loop every config soft fs candidates'
      | Inl err \<Rightarrow>
          if f_Name f = ''health'' then Some (Inl err)
          else do {
            txt \<leftarrow> listAllFilters every config (f_Name f);
            Some (Inl (errorf
              (''Unable to find a node that satisfies the following conditions '' @ txt))) }) }"

definition ApplyFilters ::
    "NodeFilter list \<Rightarrow> ContainerConfig \<Rightarrow> Node list \<Rightarrow> bool \<Rightarrow> Node list result option" where
  "ApplyFilters fs config nodes soft = apply_filters_loop fs config soft fs nodes"

subsection \<open>The contract of a filter\<close>

definition parses :: "string list \<Rightarrow> bool" where
  "parses raw \<longleftrightarrow> (case parseExprs raw of Some (Inr es) \<Rightarrow> True | _ \<Rightarrow> False)"

definition exprs_parse :: "ContainerConfig \<Rightarrow> bool" where
  "exprs_parse config \<longleftrightarrow>
     parses (Affinities config) \<and> parses (Constraints config) \<and> parses (Whitelists config)"

locale node_filter =
  fixes flt :: "ContainerConfig \<Rightarrow> Node list \<Rightarrow> bool \<Rightarrow> Node list result option"
    and accepts :: "ContainerConfig \<Rightarrow> bool \<Rightarrow> Node \<Rightarrow> bool"
  assumes flt_eq: "flt config ns soft = Some (Inr ns') \<Longrightarrow> ns' = filter (accepts config soft) ns"
    and flt_nonempty: "flt config ns soft = Some (Inr ns') \<Longrightarrow> ns \<noteq> [] \<Longrightarrow> ns' \<noteq> []"
    and flt_error: "flt config ns soft = Some (Inl err) \<Longrightarrow> exprs_parse config \<Longrightarrow>
      filter (accepts config soft) ns = []"
    and accepts_soft: "accepts config True n \<Longrightarrow> accepts config False n"
begin

lemma flt_result:
  "flt config ns soft = Some (Inr ns') \<Longrightarrow>
     ns' = filter (accepts config soft) ns \<and> (ns \<noteq> [] \<longrightarrow> ns' \<noteq> [])"
  using flt_eq flt_nonempty by blast

lemma flt_subseq [sublist_intros]: "flt config ns soft = Some (Inr ns') \<Longrightarrow> subseq ns' ns"
  using flt_eq subseq_filter_self by metis

lemma flt_accepts: "flt config ns soft = Some (Inr ns') \<Longrightarrow> n \<in> set ns' \<Longrightarrow> accepts config soft n"
  by (drule flt_eq) simp

end

lemma filter_opt_Some:
  "filter_opt P xs = Some ys \<Longrightarrow> ys = filter (\<lambda>x. P x = Some True) xs"
  by (induction xs arbitrary: ys) (auto split: bind_splits)

definition wanted :: "bool \<Rightarrow> expr \<Rightarrow> bool" where
  "wanted soft e \<longleftrightarrow> soft \<or> \<not> expr_isSoft e"

lemma expr_loop_Some:
  "expr_loop m noun soft es ns = Some (Inr ns') \<Longrightarrow>
     ns' = filter (\<lambda>n. \<forall>e \<in> set es. wanted soft e \<longrightarrow> m e n = Some True) ns \<and> (ns \<noteq> [] \<longrightarrow> ns' \<noteq> [])"
proof (induction m noun soft es ns rule: expr_loop.induct)
  case (2 m noun soft e es ns)
  show ?case
  proof (cases "wanted soft e")
    case False
    with "2.prems" have "expr_loop m noun soft es ns = Some (Inr ns')" by (simp add: wanted_def)
    with 2 False show ?thesis by (auto simp: wanted_def intro!: filter_cong)
  next
    case True
    with "2.prems" obtain cs where cs: "filter_opt (m e) ns = Some cs" "cs \<noteq> []"
      and rest: "expr_loop m noun soft es cs = Some (Inr ns')"
      by (auto simp: wanted_def split: bind_splits if_splits)
    with "2.IH"(2) [of cs] True show ?thesis
      by (auto simp: filter_opt_Some [OF cs(1)] wanted_def conj_commute intro!: filter_cong)
  qed
qed simp

lemma expr_loop_error:
  "expr_loop m noun soft es ns = Some (Inl err) \<Longrightarrow>
     filter (\<lambda>n. \<forall>e \<in> set es. wanted soft e \<longrightarrow> m e n = Some True) ns = []"
proof (induction m noun soft es ns rule: expr_loop.induct)
  case (2 m noun soft e es ns)
  show ?case
  proof (cases "wanted soft e")
    case False
    with 2 show ?thesis by (auto simp: wanted_def filter_empty_conv)
  next
    case True
    with "2.prems" obtain cs where cs: "filter_opt (m e) ns = Some cs"
      and rest: "cs = [] \<or> cs \<noteq> [] \<and> expr_loop m noun soft es cs = Some (Inl err)"
      by (auto simp: wanted_def split: bind_splits if_splits)
    note eq = filter_opt_Some [OF cs]
    from rest show ?thesis
    proof
      assume "cs = []"
      with eq have "filter (\<lambda>n. m e n = Some True) ns = []" by simp
      with True show ?thesis by (auto simp: filter_empty_conv)
    next
      assume "cs \<noteq> [] \<and> expr_loop m noun soft es cs = Some (Inl err)"
      with "2.IH"(2) [of cs] True cs
      have "filter (\<lambda>n. \<forall>e \<in> set es. wanted soft e \<longrightarrow> m e n = Some True) cs = []"
        by (simp add: wanted_def)
      with eq True show ?thesis by (auto simp: filter_empty_conv)
    qed
  qed
qed simp

definition expr_accepts :: "(expr \<Rightarrow> Node \<Rightarrow> bool option) \<Rightarrow> string list \<Rightarrow> bool \<Rightarrow> Node \<Rightarrow> bool" where
  "expr_accepts m raw soft n =
     (case parseExprs raw of
        Some (Inr es) \<Rightarrow> list_all (\<lambda>e. wanted soft e \<longrightarrow> m e n = Some True) es
      | _ \<Rightarrow> False)"

lemma with_exprs_loop:
  assumes "with_exprs raw (\<lambda>es. expr_loop m noun soft es ns) = Some (Inr ns')"
  shows "ns' = filter (expr_accepts m raw soft) ns \<and> (ns \<noteq> [] \<longrightarrow> ns' \<noteq> [])"
proof -
  from assms obtain es where "parseExprs raw = Some (Inr es)" "expr_loop m noun soft es ns = Some (Inr ns')"
    by (auto simp: with_exprs_def split: bind_splits sum.splits)
  then show ?thesis
    using expr_loop_Some [of m noun soft es ns ns'] by (auto simp: expr_accepts_def list_all_iff intro!: filter_cong)
qed

lemma with_exprs_error:
  assumes "with_exprs raw (\<lambda>es. expr_loop m noun soft es ns) = Some (Inl err)" and "parses raw"
  shows "filter (expr_accepts m raw soft) ns = []"
proof -
  from assms obtain es where "parseExprs raw = Some (Inr es)" "expr_loop m noun soft es ns = Some (Inl err)"
    by (auto simp: with_exprs_def parses_def split: bind_splits sum.splits)
  then show ?thesis
    using expr_loop_error [of m noun soft es ns err]
    by (auto simp: expr_accepts_def list_all_iff filter_empty_conv)
qed

lemma expr_accepts_soft: "expr_accepts m raw True n \<Longrightarrow> expr_accepts m raw False n"
  by (auto simp: expr_accepts_def wanted_def list_all_iff split: option.splits sum.splits)

interpretation health: node_filter HealthFilter_Filter "\<lambda>_ _. Node_IsHealthy"
  by unfold_locales (auto simp: HealthFilter_Filter_def Let_def split: if_splits)

interpretation slots: node_filter SlotsFilter_Filter "\<lambda>_ _. has_free_slot"
  by unfold_locales (auto simp: SlotsFilter_Filter_def Let_def split: if_splits)

interpretation affinity: node_filter "AffinityFilter_Filter re"
    "\<lambda>config. expr_accepts (affinity_match re) (Affinities config)" for re
  by unfold_locales
    (auto simp: AffinityFilter_Filter_def exprs_parse_def dest!: with_exprs_loop expr_accepts_soft
      dest: with_exprs_error)

interpretation constraint: node_filter "ConstraintFilter_Filter re"
    "\<lambda>config. expr_accepts (constraint_match re) (Constraints config)" for re
  by unfold_locales
    (auto simp: ConstraintFilter_Filter_def exprs_parse_def dest!: with_exprs_loop expr_accepts_soft
      dest: with_exprs_error)

interpretation whitelist: node_filter WhitelistFilter_Filter
    "\<lambda>config. expr_accepts whitelist_match (Whitelists config)"
  by unfold_locales
    (auto simp: WhitelistFilter_Filter_def exprs_parse_def dest!: with_exprs_loop expr_accepts_soft
      dest: with_exprs_error)

definition dependencies :: "ContainerConfig \<Rightarrow> string list" where
  "dependencies config =
     map (\<lambda>v. SplitN2 v '':'' ! 0) (VolumesFrom (HostConfig config)) @
     map (\<lambda>l. SplitN2 l '':'' ! 0) (Links (HostConfig config)) @
     (if HasPrefix (NetworkMode (HostConfig config)) ''container:''
      then [TrimPrefix (NetworkMode (HostConfig config)) ''container:''] else [])"

lemma DependencyFilter_eq:
  "DependencyFilter_Filter config ns soft =
     (let cs = filter (dependency_check (dependencies config)) ns in
      if ns \<noteq> [] \<and> cs = []
      then Some (Inl (errorf (''Unable to find a node fulfilling all dependencies: '' @
                              DependencyFilter_String config)))
      else Some (Inr cs))"
proof -
  have "dependency_check (dependencies config) = (\<lambda>n.
      dependency_check (map (\<lambda>v. SplitN2 v '':'' ! 0) (VolumesFrom (HostConfig config))) n \<and>
      dependency_check (map (\<lambda>l. SplitN2 l '':'' ! 0) (Links (HostConfig config))) n \<and>
      dependency_check (if HasPrefix (NetworkMode (HostConfig config)) ''container:''
        then [TrimPrefix (NetworkMode (HostConfig config)) ''container:''] else []) n)"
    by (rule ext) (simp add: dependencies_def dependency_check_def)
  then show ?thesis by (simp add: DependencyFilter_Filter_def Let_def)
qed

interpretation dependency: node_filter DependencyFilter_Filter
    "\<lambda>config _. dependency_check (dependencies config)"
  by unfold_locales (auto simp: DependencyFilter_eq Let_def split: if_splits)

lemma filterHost_Some:
  "filterHost ports ns = Some (Inr ns') \<Longrightarrow>
     ns' = filter (\<lambda>n. \<forall>p \<in> set ports. \<not> portAlreadyExposed n p) ns \<and> (ns \<noteq> [] \<longrightarrow> ns' \<noteq> [])"
  by (induction ports ns rule: filterHost.induct)
    (auto simp: Let_def conj_commute split: if_splits intro!: filter_cong)

lemma filterBridge_Some:
  "filterBridge_bindings bs ns = Inr ns' \<Longrightarrow>
     ns' = filter (\<lambda>n. \<forall>b \<in> set bs. \<not> portAlreadyInUse n b) ns \<and> (ns \<noteq> [] \<longrightarrow> ns' \<noteq> [])"
  by (induction bs ns rule: filterBridge_bindings.induct)
    (auto simp: Let_def conj_commute split: if_splits intro!: filter_cong)

lemma filterHost_error:
  "filterHost ports ns = Some (Inl err) \<Longrightarrow> filter (\<lambda>n. \<forall>p \<in> set ports. \<not> portAlreadyExposed n p) ns = []"
  by (induction ports ns rule: filterHost.induct)
    (auto simp: Let_def filter_empty_conv split: if_splits)

lemma filterBridge_error:
  "filterBridge_bindings bs ns = Inl err \<Longrightarrow> filter (\<lambda>n. \<forall>b \<in> set bs. \<not> portAlreadyInUse n b) ns = []"
  by (induction bs ns rule: filterBridge_bindings.induct)
    (auto simp: Let_def filter_empty_conv split: if_splits)

definition port_free :: "ContainerConfig \<Rightarrow> Node \<Rightarrow> bool" where
  "port_free config n \<longleftrightarrow>
     (if NetworkMode (HostConfig config) = ''host''
      then list_all (\<lambda>p. \<not> portAlreadyExposed n p) (ExposedPorts config)
      else list_all (\<lambda>b. \<not> portAlreadyInUse n b) (concat (map snd (PortBindings (HostConfig config)))))"

lemma port_free_eq:
  "port_free config =
     (if NetworkMode (HostConfig config) = ''host''
      then (\<lambda>n. \<forall>p \<in> set (ExposedPorts config). \<not> portAlreadyExposed n p)
      else (\<lambda>n. \<forall>b \<in> set (concat (map snd (PortBindings (HostConfig config)))). \<not> portAlreadyInUse n b))"
  by (rule ext) (simp add: port_free_def list_all_iff)

interpretation port: node_filter PortFilter_Filter "\<lambda>config _. port_free config"
  by unfold_locales
    (auto simp: PortFilter_Filter_def filterBridge_def port_free_eq simp del: set_concat split: if_splits
      dest!: filterHost_Some filterBridge_Some filterHost_error filterBridge_error)


subsection \<open>The batch of filters\<close>

definition policy :: "regexp \<Rightarrow> string \<Rightarrow> ContainerConfig \<Rightarrow> bool \<Rightarrow> Node \<Rightarrow> bool" where
  "policy re name config soft n \<longleftrightarrow>
     (if name = ''health'' then Node_IsHealthy n
      else if name = ''port'' then port_free config n
      else if name = ''containerslots'' then has_free_slot n
      else if name = ''dependency'' then dependency_check (dependencies config) n
      else if name = ''affinity'' then expr_accepts (affinity_match re) (Affinities config) soft n
      else if name = ''constraint'' then expr_accepts (constraint_match re) (Constraints config) soft n
      else if name = ''whitelist'' then expr_accepts whitelist_match (Whitelists config) soft n
      else True)"

lemmas filter_records = HealthFilter_def PortFilter_def SlotsFilter_def DependencyFilter_def
  AffinityFilter_def ConstraintFilter_def WhitelistFilter_def

lemmas flt_results = health.flt_result port.flt_result slots.flt_result dependency.flt_result
  affinity.flt_result constraint.flt_result whitelist.flt_result

lemma filters_policy:
  assumes "f \<in> set (filters re)" and "f_Filter f config ns soft = Some (Inr ns')"
  shows "ns' = filter (policy re (f_Name f) config soft) ns \<and> (ns \<noteq> [] \<longrightarrow> ns' \<noteq> [])"
proof -
  from assms(1) consider "f = HealthFilter" | "f = PortFilter" | "f = SlotsFilter"
    | "f = DependencyFilter" | "f = AffinityFilter re" | "f = ConstraintFilter re" | "f = WhitelistFilter"
    by (auto simp: filters_def)
  then show ?thesis
    by cases
      (use assms(2) in \<open>auto simp: filter_records policy_def [abs_def] dest!: flt_results\<close>)
qed

lemmas flt_errors = health.flt_error port.flt_error slots.flt_error dependency.flt_error
  affinity.flt_error constraint.flt_error whitelist.flt_error

lemma filters_error:
  assumes "f \<in> set (filters re)" and "f_Filter f config ns soft = Some (Inl err)" and "exprs_parse config"
  shows "filter (policy re (f_Name f) config soft) ns = []"
proof -
  from assms(1) consider "f = HealthFilter" | "f = PortFilter" | "f = SlotsFilter"
    | "f = DependencyFilter" | "f = AffinityFilter re" | "f = ConstraintFilter re" | "f = WhitelistFilter"
    by (auto simp: filters_def)
  then show ?thesis
    by cases (use assms(2,3) in \<open>auto simp: filter_records policy_def [abs_def] dest: flt_errors\<close>)
qed

lemma filter_New_set: "filter_New re names = Inr fs \<Longrightarrow> set fs \<subseteq> set (filters re) \<and> map f_Name fs = names"
  by (induction names arbitrary: fs)
    (fastforce split: option.splits sum.splits dest!: first_such_Some)+

lemma apply_filters_loop_policy:
  "set fs \<subseteq> set (filters re) \<Longrightarrow> apply_filters_loop every config soft fs ns = Some (Inr ns') \<Longrightarrow>
     ns' = filter (\<lambda>n. \<forall>f \<in> set fs. policy re (f_Name f) config soft n) ns \<and> (ns \<noteq> [] \<longrightarrow> ns' \<noteq> [])"
proof (induction every config soft fs ns rule: apply_filters_loop.induct)
  case (2 every config soft f fs ns)
  from "2.prems"(2) obtain cs where cs: "f_Filter f config ns soft = Some (Inr cs)"
    and rest: "apply_filters_loop every config soft fs cs = Some (Inr ns')"
    by (auto split: bind_splits sum.splits if_splits)
  have "cs = filter (policy re (f_Name f) config soft) ns \<and> (ns \<noteq> [] \<longrightarrow> cs \<noteq> [])"
    using "2.prems"(1) cs by (intro filters_policy) auto
  with "2.IH" [OF cs refl] "2.prems"(1) rest show ?case
    by (auto simp: conj_commute intro!: filter_cong)
qed simp

lemma apply_filters_loop_error:
  "set fs \<subseteq> set (filters re) \<Longrightarrow> exprs_parse config \<Longrightarrow>
     apply_filters_loop every config soft fs ns = Some (Inl err) \<Longrightarrow>
     filter (\<lambda>n. \<forall>f \<in> set fs. policy re (f_Name f) config soft n) ns = []"
proof (induction every config soft fs ns rule: apply_filters_loop.induct)
  case (2 every config soft f fs ns)
  from "2.prems"(3) obtain r where r: "f_Filter f config ns soft = Some r" by (auto split: bind_splits)
  show ?case
  proof (cases r)
    case (Inl e)
    with filters_error [of f re config ns soft e] "2.prems" r show ?thesis
      by (auto simp: filter_empty_conv)
  next
    case (Inr cs)
    moreover from this have "cs = filter (policy re (f_Name f) config soft) ns"
      using filters_policy [of f re config ns soft cs] "2.prems"(1) r by simp
    ultimately show ?thesis
      using "2.IH" [OF r] "2.prems" r by (auto simp: filter_empty_conv)
  qed
qed simp

lemma policy_soft: "policy re name config True n \<Longrightarrow> policy re name config False n"
  by (auto simp: policy_def dest: expr_accepts_soft split: if_splits)

definition satisfies :: "regexp \<Rightarrow> string list \<Rightarrow> ContainerConfig \<Rightarrow> bool \<Rightarrow> Node \<Rightarrow> bool" where
  "satisfies re names config soft = (\<lambda>n. \<forall>name \<in> set names. policy re name config soft n)"

lemma satisfies_soft: "satisfies re names config True n \<Longrightarrow> satisfies re names config False n"
  by (auto simp: satisfies_def intro: policy_soft)

lemma filter_New_satisfies:
  assumes "filter_New re names = Inr fs"
  shows "set fs \<subseteq> set (filters re)"
    and "(\<lambda>n. \<forall>f \<in> set fs. policy re (f_Name f) config soft n) = satisfies re names config soft"
  using filter_New_set [OF assms] by (auto simp: satisfies_def)

lemma ApplyFilters_result:
  assumes "filter_New re names = Inr fs" and "ApplyFilters fs config ns soft = Some (Inr ns')"
  shows "ns' = filter (satisfies re names config soft) ns \<and> (ns \<noteq> [] \<longrightarrow> ns' \<noteq> [])"
  using apply_filters_loop_policy [OF filter_New_satisfies(1) [OF assms(1)] assms(2) [unfolded ApplyFilters_def]]
  unfolding filter_New_satisfies(2) [OF assms(1)] .

lemma ApplyFilters_error:
  assumes "filter_New re names = Inr fs" and "exprs_parse config"
    and "ApplyFilters fs config ns soft = Some (Inl err)"
  shows "\<forall>n \<in> set ns. \<not> satisfies re names config soft n"
  using apply_filters_loop_error
    [OF filter_New_satisfies(1) [OF assms(1)] assms(2) assms(3) [unfolded ApplyFilters_def]]
  unfolding filter_New_satisfies(2) [OF assms(1)] by (simp add: filter_empty_conv)

subsection \<open>Panics\<close>

lemma value_valid_not_Nil: "value_valid v \<Longrightarrow> v \<noteq> []"
  by (auto simp: value_valid_def optional_head_def)

lemma parse_at_not_None: "parse_at e i \<noteq> None"
  by (auto simp: parse_at_def Let_def isSoft_def index_def dest: value_valid_not_Nil split: bind_splits)

lemma parseExprs_not_None: "parseExprs es \<noteq> None"
proof (induction es)
  case (Cons e es)
  then show ?case
    using parse_at_not_None [of e 0] parse_at_not_None [of e 1]
    by (auto split: sum.splits)
qed simp


lemma strip_class_char:
  "strip_class P s = Some t \<Longrightarrow> \<exists>c u. s = c # u \<and> (byte c < 128 \<longrightarrow> P c)"
  by (cases s) (auto simp: strip_class_def split: if_splits)

lemma all_class_head: "all_class P (c # s) \<Longrightarrow> byte c < 128 \<Longrightarrow> P c"
  by (subst (asm) all_class.simps) (auto split: option.splits dest: strip_class_char)

lemma value_valid_trim:
  assumes "value_valid v"
  shows "TrimLeft v ''~'' \<noteq> []"
proof -
  have no: "\<not> value_char (CHR ''~'')" by (simp add: value_char_def is_letter_def is_digit_def byte_def)
  have trim: "TrimLeft s ''~'' \<noteq> []" if "s \<noteq> []" "all_class value_char s" for s
  proof -
    from that(1) obtain c u where s: "s = c # u" by (meson neq_Nil_conv)
    have "c \<noteq> CHR ''~''" using no all_class_head [of value_char c u] that(2) s by (auto simp: byte_def)
    with s show ?thesis by (simp add: TrimLeft_def)
  qed
  have tl: "TrimLeft (c # u) ''~'' \<noteq> []" if "TrimLeft u ''~'' \<noteq> []" for c u
    using that by (simp add: TrimLeft_def)
  from assms obtain s1 s2 where
    "s1 = v \<or> (\<exists>c. v = c # s1)" "s2 = s1 \<or> (\<exists>c. s1 = c # s2)" "s2 \<noteq> []" "all_class value_char s2"
    by (auto simp: value_valid_def optional_head_def neq_Nil_conv split: if_splits)
  then show ?thesis using trim tl by metis
qed

lemma parse_at_value:
  "parse_at e i = Some (Inr x) \<Longrightarrow> Contains e (OPERATORS ! i) \<Longrightarrow> expr_value x \<noteq> [] \<and> expr_op x = i"
  by (auto simp: parse_at_def Let_def SplitN2_def Contains_def dest: value_valid_trim
      split: if_splits bind_splits option.splits)

lemma parseExprs_values:
  "parseExprs es = Some (Inr xs) \<Longrightarrow> x \<in> set xs \<Longrightarrow> expr_value x \<noteq> [] \<and> expr_op x < 2"
proof (induction es arbitrary: xs)
  case (Cons e es)
  then obtain y ys where xs: "xs = y # ys" "parseExprs es = Some (Inr ys)"
    and y: "parse_at e (if Contains e ''=='' then 0 else 1) = Some (Inr y)" "Contains e ''=='' \<or> Contains e ''!=''"
    by (auto split: if_splits bind_splits sum.splits)
  have "expr_value y \<noteq> [] \<and> expr_op y < 2"
    using parse_at_value [OF y(1)] y(2) by (cases "Contains e ''==''") (auto simp: OPERATORS_def)
  with Cons xs show ?case by auto
qed simp

lemma match_pattern_None: "v \<noteq> [] \<Longrightarrow> match_pattern v = None \<longleftrightarrow> v = ''/''"
  by (cases v; cases "tl v") (auto simp: match_pattern_def index_def)

lemma Match_None_iff:
  "parseExprs es = Some (Inr xs) \<Longrightarrow> x \<in> set xs \<Longrightarrow> Match re x whats = None \<longleftrightarrow> expr_value x = ''/''"
  using parseExprs_values [of es xs x] match_pattern_None [of "expr_value x"]
  by (auto simp: Match_def Let_def split: bind_splits)


subsection \<open>Properties\<close>

definition exact_re :: regexp where
  "exact_re p = Some (\<lambda>s. p = ''^'' @ s @ ''$'')"

definition a_node :: "string \<Rightarrow> int \<Rightarrow> Node" where
  "a_node name health = \<lparr>nd_ID = name, nd_IP = [], nd_Addr = [], nd_Name = name, nd_Labels = Map.empty,
     nd_Containers = [], nd_Images = [], UsedMemory = 0, UsedCpus = 0, TotalMemory = 1000,
     TotalCpus = 4, HealthIndicator = health\<rparr>"

text \<open>
  C5. When the batch of filters succeeds, the candidates are the nodes that satisfy the policy
  of every configured filter, all of them and in their order; if there was a node at all, at least one is left.
\<close>

theorem apply_filters_policy:
  assumes "filter_New re names = Inr fs" and "ApplyFilters fs config ns soft = Some (Inr ns')"
  shows "ns' = filter (\<lambda>n. \<forall>name \<in> set names. policy re name config soft n) ns \<and> (ns \<noteq> [] \<longrightarrow> ns' \<noteq> [])"
  using ApplyFilters_result [OF assms] unfolding satisfies_def .

theorem apply_filters_policy_witness:
  "filter (\<lambda>n. \<forall>name \<in> set [''health'']. policy exact_re name empty_config True n) [a_node ''a'' 0, a_node ''b'' 100] =
     [a_node ''b'' 100]"
proof -
  have "filter_New exact_re [''health''] = Inr [HealthFilter]"
    by (simp add: filters_def first_such_def HealthFilter_def)
  moreover have "ApplyFilters [HealthFilter] empty_config [a_node ''a'' 0, a_node ''b'' 100] True =
      Some (Inr [a_node ''b'' 100])"
    by (simp add: ApplyFilters_def HealthFilter_def HealthFilter_Filter_def Node_IsHealthy_def a_node_def)
  ultimately show ?thesis by (rule apply_filters_policy [THEN conjunct1, symmetric])
qed

text \<open>
  The filters lose no node: when the expressions of the configuration parse and the batch
  reports an error, no node satisfies all the policies.
\<close>

lemma apply_filters_complete:
  assumes "filter_New re names = Inr fs" and "exprs_parse config"
    and "ApplyFilters fs config ns soft = Some (Inl err)"
  shows "\<not> (\<exists>n \<in> set ns. \<forall>name \<in> set names. policy re name config soft n)"
  using ApplyFilters_error [OF assms] by (simp add: satisfies_def)

lemma apply_filters_complete_witness:
  "\<not> (\<exists>n \<in> set [a_node ''a'' 0]. \<forall>name \<in> set [''health'']. policy exact_re name empty_config True n)"
proof (rule apply_filters_complete)
  show "filter_New exact_re [''health''] = Inr [HealthFilter]"
    by (simp add: filters_def first_such_def HealthFilter_def)
  show "exprs_parse empty_config"
    by code_simp
  show "ApplyFilters [HealthFilter] empty_config [a_node ''a'' 0] True =
      Some (Inl (errorf ''No healthy node available in the cluster''))"
    by (simp add: ApplyFilters_def HealthFilter_def HealthFilter_Filter_def Node_IsHealthy_def a_node_def)
qed

text \<open>
  What a container publishes: the requested and the actual bindings of a container that was inspected,
  the requested ones of a container that is still being created.
\<close>

definition published :: "Container \<Rightarrow> PortMap list" where
  "published c =
     (if c_ID c \<noteq> [] then
        (case Info_HostConfig (Info c) of None \<Rightarrow> [] | Some h \<Rightarrow> [PortBindings h]) @
        (case Info_NetworkSettings (Info c) of None \<Rightarrow> [] | Some s \<Rightarrow> [Ports s])
      else [PortBindings (HostConfig (c_Config c))])"

lemma portAlreadyInUse_published:
  "portAlreadyInUse n w \<longleftrightarrow> (\<exists>c \<in> set (nd_Containers n). \<exists>m \<in> set (published c). compare w m)"
  unfolding portAlreadyInUse_def list_ex_iff
  by (rule bex_cong [OF refl]) (auto simp: published_def split: option.split)

text \<open>
  C6. A node that passes the port filter has no conflict. Outside the host network mode, no container on it,
  running or still being created, publishes a requested host port on the same address, or on any address when
  one of the two binds all interfaces. In the host network mode, no container on it that was inspected in that
  mode too exposes a port that the new one exposes.
\<close>

theorem port_filter_no_conflict:
  assumes "PortFilter_Filter config ns soft = Some (Inr ns')" and "n \<in> set ns'" and "c \<in> set (nd_Containers n)"
  shows "if NetworkMode (HostConfig config) = ''host''
    then \<forall>h. Info_HostConfig (Info c) = Some h \<longrightarrow> NetworkMode h = ''host'' \<longrightarrow>
      set (ExposedPorts config) \<inter> set (ExposedPorts (Info_Config (Info c))) = {}
    else \<forall>p req w m q used u. (p, req) \<in> set (PortBindings (HostConfig config)) \<longrightarrow> w \<in> set req \<longrightarrow>
      m \<in> set (published c) \<longrightarrow> (q, used) \<in> set m \<longrightarrow> u \<in> set used \<longrightarrow> HostPort u \<noteq> [] \<longrightarrow> HostPort u = HostPort w \<longrightarrow>
      HostIP w \<noteq> HostIP u \<and> \<not> bindsAllInterfaces w \<and> \<not> bindsAllInterfaces u"
proof (cases "NetworkMode (HostConfig config) = ''host''")
  case True
  have "port_free config n" using port.flt_accepts [OF assms(1,2)] .
  with True have "\<forall>p \<in> set (ExposedPorts config). \<not> portAlreadyExposed n p" by (simp add: port_free_eq)
  with assms(3) True show ?thesis by (fastforce simp: portAlreadyExposed_def list_ex_iff)
next
  case False
  have "HostIP w \<noteq> HostIP u \<and> \<not> bindsAllInterfaces w \<and> \<not> bindsAllInterfaces u"
    if "(p, req) \<in> set (PortBindings (HostConfig config))" "w \<in> set req" "m \<in> set (published c)"
      "(q, used) \<in> set m" "u \<in> set used" "HostPort u \<noteq> []" "HostPort u = HostPort w" for p req w m q used u
  proof -
    have "port_free config n" using port.flt_accepts [OF assms(1,2)] .
    with False that(1,2) have "\<not> portAlreadyInUse n w" by (auto simp: port_free_eq)
    with assms(3) that(3) have "\<not> compare w m" by (auto simp: portAlreadyInUse_published)
    with that(4,5) have "\<not> port_conflict w u" by (force simp: compare_def list_ex_iff)
    with that(6,7) show ?thesis by (auto simp: port_conflict_def)
  qed
  with False show ?thesis by simp
qed

definition port_config :: "string \<Rightarrow> string \<Rightarrow> ContainerConfig" where
  "port_config ip port = empty_config\<lparr>HostConfig := sample_host\<lparr>PortBindings :=
     [(''80/tcp'', [\<lparr>HostIP = ip, HostPort = port\<rparr>])]\<rparr>\<rparr>"

definition port_node :: Node where
  "port_node = (a_node ''a'' 100)\<lparr>nd_Containers := [(a_container ''c'' [''/c''])\<lparr>Info := empty_info\<lparr>
     Info_HostConfig := Some (HostConfig (port_config ''10.0.0.1'' ''8080''))\<rparr>\<rparr>]\<rparr>"

theorem port_filter_no_conflict_witness:
  "''10.0.0.2'' \<noteq> ''10.0.0.1'' \<and> \<not> bindsAllInterfaces \<lparr>HostIP = ''10.0.0.2'', HostPort = ''8080''\<rparr> \<and>
   \<not> bindsAllInterfaces \<lparr>HostIP = ''10.0.0.1'', HostPort = ''8080''\<rparr>"
proof -
  have "portAlreadyInUse port_node \<lparr>HostIP = ''10.0.0.2'', HostPort = ''8080''\<rparr> = False" by code_simp
  then have "PortFilter_Filter (port_config ''10.0.0.2'' ''8080'') [port_node] True = Some (Inr [port_node])"
    by (simp add: PortFilter_Filter_def filterBridge_def port_config_def sample_host_def)
  from port_filter_no_conflict [OF this, of port_node "hd (nd_Containers port_node)"]
  have "\<forall>p req w m q used u. (p, req) \<in> set (PortBindings (HostConfig (port_config ''10.0.0.2'' ''8080''))) \<longrightarrow> w \<in> set req \<longrightarrow>
      m \<in> set (published (hd (nd_Containers port_node))) \<longrightarrow> (q, used) \<in> set m \<longrightarrow> u \<in> set used \<longrightarrow> HostPort u \<noteq> [] \<longrightarrow>
      HostPort u = HostPort w \<longrightarrow> HostIP w \<noteq> HostIP u \<and> \<not> bindsAllInterfaces w \<and> \<not> bindsAllInterfaces u"
    by (simp add: port_config_def port_node_def sample_host_def)
  from this [rule_format, of "''80/tcp''" "[\<lparr>HostIP = ''10.0.0.2'', HostPort = ''8080''\<rparr>]"
      "\<lparr>HostIP = ''10.0.0.2'', HostPort = ''8080''\<rparr>" "PortBindings (HostConfig (port_config ''10.0.0.1'' ''8080''))"
      "''80/tcp''" "[\<lparr>HostIP = ''10.0.0.1'', HostPort = ''8080''\<rparr>]" "\<lparr>HostIP = ''10.0.0.1'', HostPort = ''8080''\<rparr>"]
  show ?thesis
    by (simp add: port_config_def port_node_def a_container_def published_def sample_host_def del: not_Cons_self2)
qed

text \<open>
  Expressions that \<open>parseExprs\<close> accepts make \<open>Match\<close> panic exactly when the value is a
  single slash: the value starts and ends with a slash, and the slice between them has a negative length.
\<close>

lemma match_panics_iff:
  assumes "parseExprs raw = Some (Inr es)" and "e \<in> set es"
  shows "Match re e whats = None \<longleftrightarrow> expr_value e = ''/''"
  using assms by (rule Match_None_iff)

lemma match_panics_iff_witness:
  "Match exact_re \<lparr>expr_key = ''node'', expr_op = 0, expr_value = ''/'', expr_isSoft = False\<rparr> [''n1''] = None"
proof -
  have "parseExprs [''node==/''] =
      Some (Inr [\<lparr>expr_key = ''node'', expr_op = 0, expr_value = ''/'', expr_isSoft = False\<rparr>])"
    by code_simp
  from match_panics_iff [OF this] show ?thesis by simp
qed

end
