(* ===== verification/Sched_Strategy.thy ===== *)
theory Sched_Strategy
  imports Sched_Filters
begin

section \<open>Strategies and the scheduler (\<open>scheduler/strategy\<close>, \<open>scheduler/scheduler.go\<close>)\<close>

text \<open>
  The weighing of nodes in 64-bit arithmetic, the three placement strategies and
  \<open>Scheduler.SelectNodesForContainer\<close>. \<open>sort.Sort\<close> is not stable and its order of equal elements
  depends on the release, so it is the parameter \<open>srt\<close>, used through the locale \<open>go_sort\<close>:
  a permutation, ordered whenever \<open>Less\<close> is a strict weak order. The locale is interpreted for
  the insertion sort that \<open>sort.Sort\<close> runs on short slices. The draws of \<open>rand.Intn\<close> are the
  parameter \<open>rnd\<close>: \<open>rnd i\<close> is the draw \<open>Intn(i + 1)\<close>. The locale \<open>placement_strategy\<close> is the contract
  of the interface \<open>PlacementStrategy\<close>; the scheduler's lemmas are proved inside it.
\<close>

subsection \<open>Weights\<close>

record weightedNode =
  w_Node :: Node
  Weight :: int

definition Less :: "weightedNode \<Rightarrow> weightedNode \<Rightarrow> bool" where
  "Less ip jp \<longleftrightarrow>
     (if Weight ip = Weight jp
      then length (nd_Containers (w_Node ip)) < length (nd_Containers (w_Node jp))
      else Weight ip < Weight jp)"

text \<open>The division of \<open>int64\<close> truncates; the divisor is positive in both uses.\<close>

definition score :: "int \<Rightarrow> int \<Rightarrow> int \<Rightarrow> int" where
  "score used request capacity = i64 (i64 (used + request) * 100) sdiv capacity"

definition cpuScore :: "ContainerConfig \<Rightarrow> Node \<Rightarrow> int" where
  "cpuScore config n =
     (if CPUShares (HostConfig config) > 0
      then score (UsedCpus n) (CPUShares (HostConfig config)) (TotalCpus n) else 100)"

definition memoryScore :: "ContainerConfig \<Rightarrow> Node \<Rightarrow> int" where
  "memoryScore config n =
     (if Memory (HostConfig config) > 0
      then score (UsedMemory n) (Memory (HostConfig config)) (TotalMemory n) else 100)"

definition node_fits :: "ContainerConfig \<Rightarrow> Node \<Rightarrow> bool" where
  "node_fits config n \<longleftrightarrow>
     \<not> (TotalMemory n < Memory (HostConfig config) \<or> TotalCpus n < CPUShares (HostConfig config)) \<and>
     cpuScore config n \<le> 100 \<and> memoryScore config n \<le> 100"

definition node_weight :: "ContainerConfig \<Rightarrow> int \<Rightarrow> Node \<Rightarrow> int" where
  "node_weight config factor n =
     i64 (i64 (cpuScore config n + memoryScore config n) + i64 (factor * HealthIndicator n))"

definition weighNodes :: "ContainerConfig \<Rightarrow> Node list \<Rightarrow> int \<Rightarrow> weightedNode list result" where
  "weighNodes config nodes healthinessFactor =
     (let weighted = map (\<lambda>n. \<lparr>w_Node = n, Weight = node_weight config healthinessFactor n\<rparr>)
                       (filter (node_fits config) nodes)
      in if length weighted = 0 then Inl (errorf ''no resources available to schedule container'')
         else Inr weighted)"

subsection \<open>Strategies\<close>

type_synonym sorter = "(weightedNode \<Rightarrow> weightedNode \<Rightarrow> bool) \<Rightarrow> weightedNode list \<Rightarrow> weightedNode list"

definition Spread_RankAndSort :: "sorter \<Rightarrow> ContainerConfig \<Rightarrow> Node list \<Rightarrow> Node list result" where
  "Spread_RankAndSort srt config nodes =
     (case weighNodes config nodes (- 10) of
        Inl err \<Rightarrow> Inl err
      | Inr weighted \<Rightarrow> Inr (map w_Node (srt Less weighted)))"

definition Binpack_RankAndSort :: "sorter \<Rightarrow> ContainerConfig \<Rightarrow> Node list \<Rightarrow> Node list result" where
  "Binpack_RankAndSort srt config nodes =
     (case weighNodes config nodes 10 of
        Inl err \<Rightarrow> Inl err
      | Inr weighted \<Rightarrow> Inr (map w_Node (srt (\<lambda>x y. Less y x) weighted)))"

text \<open>The loop from the last index down to 1; an index \<open>i\<close> is exchanged with the draw at \<open>i\<close>.\<close>

primrec shuffle :: "(nat \<Rightarrow> nat) \<Rightarrow> nat \<Rightarrow> 'a list \<Rightarrow> 'a list" where
  "shuffle rnd 0 xs = xs"
| "shuffle rnd (Suc i) xs = (let j = rnd (Suc i) in shuffle rnd i (xs[Suc i := xs ! j, j := xs ! Suc i]))"

definition Random_RankAndSort :: "(nat \<Rightarrow> nat) \<Rightarrow> ContainerConfig \<Rightarrow> Node list \<Rightarrow> Node list result" where
  "Random_RankAndSort rnd config nodes = Inr (shuffle rnd (length nodes - 1) nodes)"

record PlacementStrategy =
  st_Name :: string
  RankAndSort :: "ContainerConfig \<Rightarrow> Node list \<Rightarrow> Node list result"

definition strategies :: "sorter \<Rightarrow> (nat \<Rightarrow> nat) \<Rightarrow> PlacementStrategy list" where
  "strategies srt rnd =
     [\<lparr>st_Name = ''spread'', RankAndSort = Spread_RankAndSort srt\<rparr>,
      \<lparr>st_Name = ''binpack'', RankAndSort = Binpack_RankAndSort srt\<rparr>,
      \<lparr>st_Name = ''random'', RankAndSort = Random_RankAndSort rnd\<rparr>]"

definition strategy_New :: "sorter \<Rightarrow> (nat \<Rightarrow> nat) \<Rightarrow> string \<Rightarrow> PlacementStrategy result" where
  "strategy_New srt rnd name =
     (let name' = (if name = ''binpacking'' then ''binpack'' else name) in
      case first_such (\<lambda>s. st_Name s = name') (strategies srt rnd) of
        Some s \<Rightarrow> Inr s
      | None \<Rightarrow> Inl (errorf ''strategy not supported''))"

definition strategy_List :: "sorter \<Rightarrow> (nat \<Rightarrow> nat) \<Rightarrow> string list" where
  "strategy_List srt rnd = map st_Name (strategies srt rnd)"

subsection \<open>The scheduler\<close>

record Scheduler =
  sch_strategy :: PlacementStrategy
  sch_filters :: "NodeFilter list"

definition scheduler_New :: "PlacementStrategy \<Rightarrow> NodeFilter list \<Rightarrow> Scheduler" where
  "scheduler_New strategy fs = \<lparr>sch_strategy = strategy, sch_filters = fs\<rparr>"

definition selectNodesForContainer ::
    "Scheduler \<Rightarrow> Node list \<Rightarrow> ContainerConfig \<Rightarrow> bool \<Rightarrow> Node list result option" where
  "selectNodesForContainer s nodes config soft = do {
     r \<leftarrow> ApplyFilters (sch_filters s) config nodes soft;
     Some (case r of
         Inl err \<Rightarrow> Inl err
       | Inr accepted \<Rightarrow>
           if length accepted = 0 then Inl (errorf ''No nodes available in the cluster'')
           else RankAndSort (sch_strategy s) config accepted) }"

definition SelectNodesForContainer ::
    "Scheduler \<Rightarrow> Node list \<Rightarrow> ContainerConfig \<Rightarrow> Node list result option" where
  "SelectNodesForContainer s nodes config = do {
     r \<leftarrow> selectNodesForContainer s nodes config True;
     (case r of
        Inr candidates \<Rightarrow> Some (Inr candidates)
      | Inl _ \<Rightarrow> selectNodesForContainer s nodes config False) }"

definition Scheduler_Strategy :: "Scheduler \<Rightarrow> string" where
  "Scheduler_Strategy s = st_Name (sch_strategy s)"

definition Scheduler_Filters :: "Scheduler \<Rightarrow> string" where
  "Scheduler_Filters s = str_Join (map f_Name (sch_filters s)) '', ''"

subsection \<open>Sorting\<close>

definition strict_weak :: "('a \<Rightarrow> 'a \<Rightarrow> bool) \<Rightarrow> bool" where
  "strict_weak lt \<longleftrightarrow>
     (\<forall>x y. lt x y \<longrightarrow> \<not> lt y x) \<and> (\<forall>x y z. \<not> lt x y \<longrightarrow> \<not> lt y z \<longrightarrow> \<not> lt x z)"

lemma strict_weak_Less: "strict_weak Less" "strict_weak (\<lambda>x y. Less y x)"
  by (auto simp: strict_weak_def Less_def split: if_splits)

locale go_sort =
  fixes srt :: "('a \<Rightarrow> 'a \<Rightarrow> bool) \<Rightarrow> 'a list \<Rightarrow> 'a list"
  assumes srt_mset: "mset (srt lt xs) = mset xs"
    and srt_sorted: "strict_weak lt \<Longrightarrow> sorted_wrt (\<lambda>x y. \<not> lt y x) (srt lt xs)"
begin

lemma srt_set: "set (srt lt xs) = set xs"
  using srt_mset mset_eq_setD by metis

lemma srt_Nil: "srt lt xs = [] \<longleftrightarrow> xs = []"
  using srt_mset [of lt xs] by auto

end

text \<open>\<open>insertionSort\<close> of the package \<open>sort\<close>: an element moves left while it is less than its left neighbour.\<close>

primrec insert_right :: "('a \<Rightarrow> 'a \<Rightarrow> bool) \<Rightarrow> 'a \<Rightarrow> 'a list \<Rightarrow> 'a list" where
  "insert_right lt x [] = [x]"
| "insert_right lt x (y # ys) = (if lt x y then y # insert_right lt x ys else x # y # ys)"

text \<open>The sorted part is kept reversed, its last element first.\<close>

definition insertionSort :: "('a \<Rightarrow> 'a \<Rightarrow> bool) \<Rightarrow> 'a list \<Rightarrow> 'a list" where
  "insertionSort lt xs = rev (fold (insert_right lt) xs [])"

lemma insert_right_mset: "mset (insert_right lt x ys) = add_mset x (mset ys)"
  by (induction ys) auto

lemma insert_right_set: "set (insert_right lt x ys) = insert x (set ys)"
  by (induction ys) auto

lemma insert_right_sorted:
  assumes "strict_weak lt" and "sorted_wrt (\<lambda>x y. \<not> lt x y) ys"
  shows "sorted_wrt (\<lambda>x y. \<not> lt x y) (insert_right lt x ys)"
  using assms(2)
proof (induction ys)
  case (Cons y ys)
  have asym: "lt x y \<Longrightarrow> \<not> lt y x" and trans: "\<not> lt x y \<Longrightarrow> \<not> lt y z \<Longrightarrow> \<not> lt x z" for z
    using assms(1) unfolding strict_weak_def by blast+
  show ?case
  proof (cases "lt x y")
    case True
    with Cons asym show ?thesis by (simp add: insert_right_set)
  next
    case False
    with Cons.prems trans show ?thesis by simp
  qed
qed simp

lemma fold_insert_right:
  "mset (fold (insert_right lt) xs acc) = mset xs + mset acc"
  "strict_weak lt \<Longrightarrow> sorted_wrt (\<lambda>x y. \<not> lt x y) acc \<Longrightarrow>
     sorted_wrt (\<lambda>x y. \<not> lt x y) (fold (insert_right lt) xs acc)"
  by (induction xs arbitrary: acc) (auto simp: insert_right_mset insert_right_sorted)

interpretation go_insertion: go_sort insertionSort
  by unfold_locales
    (simp_all add: insertionSort_def fold_insert_right sorted_wrt_rev)

subsection \<open>Arithmetic of the scores\<close>

text \<open>
  The arithmetic stays in range as long as used and requested amounts are non-negative and a
  hundred times their sum fits in 63 bits (about 92 petabytes of memory).
\<close>

definition in_bounds :: "ContainerConfig \<Rightarrow> Node \<Rightarrow> bool" where
  "in_bounds config n \<longleftrightarrow>
     0 \<le> UsedMemory n \<and> 0 \<le> UsedCpus n \<and> 0 \<le> Memory (HostConfig config) \<and> 0 \<le> CPUShares (HostConfig config) \<and>
     (UsedMemory n + Memory (HostConfig config)) * 100 < 2 ^ 63 \<and>
     (UsedCpus n + CPUShares (HostConfig config)) * 100 < 2 ^ 63"


lemma sdiv_pos: "0 \<le> a \<Longrightarrow> 0 < b \<Longrightarrow> a sdiv b = a div b" for a b :: int
  by (cases "a = 0") (simp_all add: signed_divide_int_def)


lemma score_eq:
  assumes "0 \<le> used" and "0 \<le> request" and "(used + request) * 100 < 2 ^ 63" and "0 < capacity"
  shows "score used request capacity = (used + request) * 100 div capacity"
proof -
  have "in_i64 (used + request)" "in_i64 ((used + request) * 100)"
    using assms by (auto simp: in_i64_def)
  with assms show ?thesis by (simp add: score_def sdiv_pos)
qed


lemma score_nonneg:
  "0 \<le> used \<Longrightarrow> 0 \<le> request \<Longrightarrow> (used + request) * 100 < 2 ^ 63 \<Longrightarrow> 0 < capacity \<Longrightarrow>
     0 \<le> score used request capacity"
  by (simp add: score_eq pos_imp_zdiv_nonneg_iff)


lemma scores_range:
  assumes "in_bounds config n" and "node_fits config n"
  shows "0 \<le> cpuScore config n + memoryScore config n \<and> cpuScore config n + memoryScore config n \<le> 200"
proof -
  have "0 \<le> cpuScore config n" "0 \<le> memoryScore config n"
    using assms by (auto simp: cpuScore_def memoryScore_def in_bounds_def node_fits_def intro!: score_nonneg)
  with assms(2) show ?thesis by (simp add: node_fits_def)
qed

lemma node_weight_eq:
  assumes "in_bounds config n" and "node_fits config n" and "\<bar>HealthIndicator n\<bar> \<le> 100" and "\<bar>factor\<bar> \<le> 10"
  shows "node_weight config factor n = cpuScore config n + memoryScore config n + factor * HealthIndicator n"
proof -
  have "\<bar>factor * HealthIndicator n\<bar> \<le> 10 * 100"
    unfolding abs_mult using assms(3,4) by (intro mult_mono) auto
  then have "i64 (factor * HealthIndicator n) = factor * HealthIndicator n"
    "in_i64 (cpuScore config n + memoryScore config n + factor * HealthIndicator n)"
    "i64 (cpuScore config n + memoryScore config n) = cpuScore config n + memoryScore config n"
    using scores_range [OF assms(1,2)] by (auto simp: in_i64_def intro!: i64_id)
  then show ?thesis by (simp add: node_weight_def)
qed

subsection \<open>The contract of a strategy\<close>

locale placement_strategy =
  fixes rank :: "ContainerConfig \<Rightarrow> Node list \<Rightarrow> Node list result"
    and fit :: "ContainerConfig \<Rightarrow> Node \<Rightarrow> bool"
  assumes rank_mset: "rank config ns = Inr ns' \<Longrightarrow> mset ns' = mset (filter (fit config) ns)"
    and rank_nonempty: "rank config ns = Inr ns' \<Longrightarrow> ns \<noteq> [] \<Longrightarrow> ns' \<noteq> []"
    and rank_error: "rank config ns = Inl err \<Longrightarrow> filter (fit config) ns = []"
begin

lemma rank_set: "rank config ns = Inr ns' \<Longrightarrow> set ns' = set (filter (fit config) ns)"
  using rank_mset mset_eq_setD by metis

lemma select_result:
  assumes "filter_New re names = Inr fs"
    and "selectNodesForContainer \<lparr>sch_strategy = \<lparr>st_Name = name, RankAndSort = rank\<rparr>, sch_filters = fs\<rparr> ns config soft =
      Some (Inr ns')"
  shows "mset ns' = mset (filter (\<lambda>n. fit config n \<and> satisfies re names config soft n) ns) \<and> ns' \<noteq> []"
proof -
  from assms(2) obtain acc where "ApplyFilters fs config ns soft = Some (Inr acc)" "rank config acc = Inr ns'" "acc \<noteq> []"
    by (auto simp: selectNodesForContainer_def split: bind_splits sum.splits if_splits)
  with ApplyFilters_result [OF assms(1), of config ns soft acc] rank_mset rank_nonempty show ?thesis
    by (auto simp: conj_commute simp del: mset_filter)
qed

lemma select_error:
  assumes "filter_New re names = Inr fs" and "exprs_parse config"
    and "selectNodesForContainer \<lparr>sch_strategy = \<lparr>st_Name = name, RankAndSort = rank\<rparr>, sch_filters = fs\<rparr> ns config soft =
      Some (Inl err)"
    and "n \<in> set ns"
  shows "\<not> (fit config n \<and> satisfies re names config soft n)"
proof -
  from assms(3) consider e where "ApplyFilters fs config ns soft = Some (Inl e)"
    | acc where "ApplyFilters fs config ns soft = Some (Inr acc)" "filter (fit config) acc = []"
    using rank_error by (auto simp: selectNodesForContainer_def split: bind_splits sum.splits if_splits)
  then show ?thesis
  proof cases
    case 1
    with ApplyFilters_error [OF assms(1,2)] assms(4) show ?thesis by blast
  next
    case 2
    with ApplyFilters_result [OF assms(1) 2(1)] assms(4) show ?thesis by (auto simp: filter_empty_conv)
  qed
qed

end

lemma weighNodes_result:
  "weighNodes config ns factor = Inr ws \<Longrightarrow>
     ws = map (\<lambda>n. \<lparr>w_Node = n, Weight = node_weight config factor n\<rparr>) (filter (node_fits config) ns) \<and> ws \<noteq> []"
  "weighNodes config ns factor = Inl err \<Longrightarrow> filter (node_fits config) ns = []"
  by (auto simp: weighNodes_def Let_def split: if_splits)

locale node_sort = go_sort srt for srt :: sorter

sublocale node_sort \<subseteq> spread: placement_strategy "Spread_RankAndSort srt" node_fits
proof unfold_locales
  fix config ns ns' err
  show "Spread_RankAndSort srt config ns = Inr ns' \<Longrightarrow> mset ns' = mset (filter (node_fits config) ns)"
    by (auto simp: Spread_RankAndSort_def srt_mset multiset.map_comp comp_def
        dest!: weighNodes_result(1) split: sum.splits)
  show "Spread_RankAndSort srt config ns = Inr ns' \<Longrightarrow> ns \<noteq> [] \<Longrightarrow> ns' \<noteq> []"
    by (auto simp: Spread_RankAndSort_def srt_Nil dest!: weighNodes_result(1) split: sum.splits)
  show "Spread_RankAndSort srt config ns = Inl err \<Longrightarrow> filter (node_fits config) ns = []"
    by (auto simp: Spread_RankAndSort_def dest: weighNodes_result(2) split: sum.splits)
qed

sublocale node_sort \<subseteq> binpack: placement_strategy "Binpack_RankAndSort srt" node_fits
proof unfold_locales
  fix config ns ns' err
  show "Binpack_RankAndSort srt config ns = Inr ns' \<Longrightarrow> mset ns' = mset (filter (node_fits config) ns)"
    by (auto simp: Binpack_RankAndSort_def srt_mset multiset.map_comp comp_def
        dest!: weighNodes_result(1) split: sum.splits)
  show "Binpack_RankAndSort srt config ns = Inr ns' \<Longrightarrow> ns \<noteq> [] \<Longrightarrow> ns' \<noteq> []"
    by (auto simp: Binpack_RankAndSort_def srt_Nil dest!: weighNodes_result(1) split: sum.splits)
  show "Binpack_RankAndSort srt config ns = Inl err \<Longrightarrow> filter (node_fits config) ns = []"
    by (auto simp: Binpack_RankAndSort_def dest: weighNodes_result(2) split: sum.splits)
qed

context node_sort
begin

lemma sorted_placement:
  "placement_strategy (Spread_RankAndSort srt) node_fits" "placement_strategy (Binpack_RankAndSort srt) node_fits"
  by unfold_locales

end

interpretation node_insertion: node_sort insertionSort
  by unfold_locales

lemma shuffle_mset:
  "(\<And>i. rnd i \<le> i) \<Longrightarrow> k < length xs \<Longrightarrow> mset (shuffle rnd k xs) = mset xs"
proof (induction k arbitrary: xs)
  case (Suc k)
  have "rnd (Suc k) < length xs" using Suc.prems(1) [of "Suc k"] Suc.prems(2) by simp
  with Suc show ?case by (simp add: Let_def mset_swap)
qed simp

lemma random_placement:
  assumes "\<And>i. rnd i \<le> i"
  shows "placement_strategy (Random_RankAndSort rnd) (\<lambda>_ _. True)"
proof
  fix config and ns ns' :: "Node list" and err
  have mset: "mset (shuffle rnd (length ns - 1) ns) = mset ns"
    using shuffle_mset [of rnd "length ns - 1" ns] assms by (cases ns) auto
  show "Random_RankAndSort rnd config ns = Inr ns' \<Longrightarrow> mset ns' = mset (filter (\<lambda>_. True) ns)"
    using mset by (auto simp: Random_RankAndSort_def)
  show "Random_RankAndSort rnd config ns = Inr ns' \<Longrightarrow> ns \<noteq> [] \<Longrightarrow> ns' \<noteq> []"
    using mset by (auto simp: Random_RankAndSort_def)
  show "Random_RankAndSort rnd config ns = Inl err \<Longrightarrow> filter (\<lambda>_. True) ns = []"
    by (simp add: Random_RankAndSort_def)
qed

text \<open>\<open>Intn\<close> reduces a raw draw to its range.\<close>

interpretation random: placement_strategy "Random_RankAndSort (\<lambda>i. draw i mod Suc i)" "\<lambda>_ _. True" for draw
  by (rule random_placement) (simp add: less_Suc_eq_le [symmetric])

text \<open>What a named strategy asks of a node.\<close>

definition strategy_fit :: "string \<Rightarrow> ContainerConfig \<Rightarrow> Node \<Rightarrow> bool" where
  "strategy_fit name config n \<longleftrightarrow> name \<noteq> ''random'' \<longrightarrow> node_fits config n"

lemma strategy_New_placement:
  assumes "node_sort srt" and "\<forall>i. rnd i \<le> i" and "strategy_New srt rnd name = Inr st"
  shows "\<exists>sn rank. st = \<lparr>st_Name = sn, RankAndSort = rank\<rparr> \<and> placement_strategy rank (strategy_fit name)"
proof -
  note sorted = node_sort.sorted_placement [OF assms(1)]
  from assms(3) have "st \<in> set (strategies srt rnd)" "st_Name st = (if name = ''binpacking'' then ''binpack'' else name)"
    by (auto simp only: strategy_New_def Let_def sum.distinct sum.inject split: option.splits dest: first_such_Some)
  then consider "st = \<lparr>st_Name = ''spread'', RankAndSort = Spread_RankAndSort srt\<rparr>" "name = ''spread''"
    | "st = \<lparr>st_Name = ''binpack'', RankAndSort = Binpack_RankAndSort srt\<rparr>" "name \<in> {''binpack'', ''binpacking''}"
    | "st = \<lparr>st_Name = ''random'', RankAndSort = Random_RankAndSort rnd\<rparr>" "name = ''random''"
    by (auto simp: strategies_def split: if_splits)
  then show ?thesis
  proof cases
    case 1
    then have "strategy_fit name = node_fits" by (auto simp: strategy_fit_def fun_eq_iff)
    with 1 sorted show ?thesis by simp
  next
    case 2
    then have "strategy_fit name = node_fits" by (auto simp: strategy_fit_def fun_eq_iff)
    with 2 sorted show ?thesis by simp
  next
    case 3
    then have "strategy_fit name = (\<lambda>_ _. True)" by (auto simp: strategy_fit_def fun_eq_iff)
    with 3 random_placement [of rnd] assms(2) show ?thesis by simp
  qed
qed

subsection \<open>Properties\<close>

lemma select_nodes_mset:
  assumes "node_sort srt" and "\<forall>i. rnd i \<le> i" and "strategy_New srt rnd sname = Inr st"
    and "filter_New re names = Inr fs"
    and "SelectNodesForContainer (scheduler_New st fs) ns config = Some (Inr ns')"
  shows "\<exists>soft. ns' \<noteq> [] \<and>
    mset ns' = mset (filter (\<lambda>n. strategy_fit sname config n \<and> satisfies re names config soft n) ns)"
proof -
  from strategy_New_placement [OF assms(1-3)] obtain sn rank where
    st: "st = \<lparr>st_Name = sn, RankAndSort = rank\<rparr>" and rank: "placement_strategy rank (strategy_fit sname)" by blast
  from assms(5) obtain soft where
    "selectNodesForContainer (scheduler_New st fs) ns config soft = Some (Inr ns')"
    by (auto simp: SelectNodesForContainer_def split: bind_splits sum.splits)
  with placement_strategy.select_result [OF rank assms(4)] st show ?thesis
    by (auto simp: scheduler_New_def simp del: mset_filter)
qed

lemma satisfies_hard: "satisfies re names config soft n \<Longrightarrow> satisfies re names config False n"
  using satisfies_soft by (cases soft) auto

text \<open>
  C3. With every strategy and every set of filters, the nodes that the scheduler offers for a
  container are among the nodes it was given, each at most as often, there is at least one, and each
  satisfies every filter's policy for the hard expressions and, under spread and binpack, has
  the resources.
\<close>

theorem scheduler_sound:
  assumes "node_sort srt" and "\<forall>i. rnd i \<le> i" and "strategy_New srt rnd sname = Inr st"
    and "filter_New re names = Inr fs"
    and "SelectNodesForContainer (scheduler_New st fs) ns config = Some (Inr ns')"
  shows "ns' \<noteq> [] \<and> mset ns' \<subseteq># mset ns \<and>
    (\<forall>n \<in> set ns'. strategy_fit sname config n \<and> (\<forall>name \<in> set names. policy re name config False n))"
proof -
  from select_nodes_mset [OF assms] obtain soft where "ns' \<noteq> []"
    and eq: "mset ns' = mset (filter (\<lambda>n. strategy_fit sname config n \<and> satisfies re names config soft n) ns)" by blast
  then show ?thesis
    using mset_eq_setD [OF eq] satisfies_hard by (auto simp: satisfies_def)
qed

definition small_node :: Node where
  "small_node = (a_node ''small'' 100)\<lparr>TotalMemory := 10\<rparr>"

definition mem_config :: ContainerConfig where
  "mem_config = empty_config\<lparr>HostConfig := sample_host\<lparr>Memory := 100\<rparr>\<rparr>"

lemma sample_scheduler:
  "strategy_New insertionSort (\<lambda>i. i) ''spread'' =
     Inr \<lparr>st_Name = ''spread'', RankAndSort = Spread_RankAndSort insertionSort\<rparr>"
  "filter_New exact_re [''health''] = Inr [HealthFilter]"
  "exprs_parse mem_config"
  "node_sort insertionSort"
  by (simp add: strategy_New_def strategies_def, simp add: filters_def HealthFilter_def, code_simp, unfold_locales)

lemma sample_scores:
  "memoryScore mem_config (a_node n h) = 10" "cpuScore mem_config (a_node n h) = 100"
  by (simp_all add: memoryScore_def cpuScore_def score_def a_node_def mem_config_def sample_host_def i64_def
      signed_divide_int_def)

lemma sample_fits:
  "node_fits mem_config (a_node n h)" "\<not> node_fits mem_config small_node"
  "Node_IsHealthy small_node" "Node_IsHealthy (a_node n h) = (h > 0)"
proof -
  show "node_fits mem_config (a_node n h)"
    unfolding node_fits_def sample_scores by (simp add: a_node_def mem_config_def sample_host_def)
qed (simp_all add: node_fits_def Node_IsHealthy_def small_node_def a_node_def mem_config_def sample_host_def)

lemmas sample_eval = SelectNodesForContainer_def selectNodesForContainer_def scheduler_New_def ApplyFilters_def
  HealthFilter_def HealthFilter_Filter_def Spread_RankAndSort_def weighNodes_def insertionSort_def

lemma sample_select:
  "SelectNodesForContainer (scheduler_New \<lparr>st_Name = ''spread'', RankAndSort = Spread_RankAndSort insertionSort\<rparr>
     [HealthFilter]) [small_node, a_node ''a'' 100, a_node ''b'' 0] mem_config = Some (Inr [a_node ''a'' 100])"
  "SelectNodesForContainer (scheduler_New \<lparr>st_Name = ''spread'', RankAndSort = Spread_RankAndSort insertionSort\<rparr>
     [HealthFilter]) [small_node] mem_config = Some (Inl (errorf ''no resources available to schedule container''))"
  by (simp_all add: sample_eval sample_fits)

theorem scheduler_sound_witness:
  "strategy_fit ''spread'' mem_config (a_node ''a'' 100) \<and>
   policy exact_re ''health'' mem_config False (a_node ''a'' 100)"
  using scheduler_sound [OF sample_scheduler(4) _ sample_scheduler(1,2) sample_select(1)] by simp

text \<open>
  C4. The scheduler is complete: if it reports an error for a configuration whose expressions
  parse, then no node satisfies the hard policies and has the resources.
\<close>

theorem scheduler_complete:
  assumes "node_sort srt" and "\<forall>i. rnd i \<le> i" and "strategy_New srt rnd sname = Inr st"
    and "filter_New re names = Inr fs" and "exprs_parse config"
    and "SelectNodesForContainer (scheduler_New st fs) ns config = Some (Inl err)" and "n \<in> set ns"
  shows "\<not> (strategy_fit sname config n \<and> (\<forall>name \<in> set names. policy re name config False n))"
proof -
  from strategy_New_placement [OF assms(1-3)] obtain sn rank where
    st: "st = \<lparr>st_Name = sn, RankAndSort = rank\<rparr>" and rank: "placement_strategy rank (strategy_fit sname)" by blast
  from assms(6) have "selectNodesForContainer (scheduler_New st fs) ns config False = Some (Inl err)"
    by (auto simp: SelectNodesForContainer_def split: bind_splits sum.splits)
  with placement_strategy.select_error [OF rank assms(4,5) _ assms(7)] st show ?thesis
    by (simp add: scheduler_New_def satisfies_def)
qed

theorem scheduler_complete_witness:
  "\<not> (strategy_fit ''spread'' mem_config small_node \<and> policy exact_re ''health'' mem_config False small_node)"
  using scheduler_complete [OF sample_scheduler(4) _ sample_scheduler(1-3) sample_select(2), of small_node] by simp

text \<open>
  Soft expressions are honoured when they can be: if the expressions parse and some node with
  the resources satisfies the policies with the soft expressions included, then every node offered does.
\<close>

lemma scheduler_soft_first:
  assumes "node_sort srt" and "\<forall>i. rnd i \<le> i" and "strategy_New srt rnd sname = Inr st"
    and "filter_New re names = Inr fs" and "exprs_parse config"
    and "SelectNodesForContainer (scheduler_New st fs) ns config = Some (Inr ns')"
    and "n \<in> set ns" and "strategy_fit sname config n" and "\<forall>name \<in> set names. policy re name config True n"
  shows "\<forall>m \<in> set ns'. \<forall>name \<in> set names. policy re name config True m"
proof -
  from strategy_New_placement [OF assms(1-3)] obtain sn rank where
    st: "st = \<lparr>st_Name = sn, RankAndSort = rank\<rparr>" and rank: "placement_strategy rank (strategy_fit sname)" by blast
  have n: "satisfies re names config True n" using assms(9) by (simp add: satisfies_def)
  from assms(6) obtain r where r: "selectNodesForContainer (scheduler_New st fs) ns config True = Some r"
    by (auto simp: SelectNodesForContainer_def split: bind_splits)
  then have "r \<noteq> Inl e" for e
    using placement_strategy.select_error [OF rank assms(4,5) _ assms(7)] st n assms(8)
    by (auto simp: scheduler_New_def)
  with assms(6) r have "selectNodesForContainer (scheduler_New st fs) ns config True = Some (Inr ns')"
    by (auto simp: SelectNodesForContainer_def split: sum.splits)
  with placement_strategy.select_result [OF rank assms(4)] st
  have eq: "mset ns' = mset (filter (\<lambda>n. strategy_fit sname config n \<and> satisfies re names config True n) ns)"
    by (auto simp: scheduler_New_def simp del: mset_filter)
  show ?thesis using mset_eq_setD [OF eq] by (auto simp: satisfies_def)
qed

lemma scheduler_soft_first_witness:
  "policy exact_re ''health'' mem_config True (a_node ''a'' 100)"
proof -
  have fit: "strategy_fit ''spread'' mem_config (a_node ''a'' 100)"
    by (simp add: strategy_fit_def sample_fits)
  have "\<forall>name \<in> set [''health'']. policy exact_re name mem_config True (a_node ''a'' 100)"
    by (simp add: policy_def sample_fits)
  from scheduler_soft_first [OF sample_scheduler(4) _ sample_scheduler(1-3) sample_select(1) _ fit this]
  show ?thesis by simp
qed



text \<open>
  C8. The order of the ranking: under spread a node that precedes another weighs no more, under binpack no
  less, and with health indicators between 0 and 100 the first is at most twenty points less healthy, since
  ten times the health outweighs the two scores of at most a hundred each.
\<close>

theorem ranking_order:
  assumes "node_sort srt" and "\<forall>n \<in> set ns. in_bounds config n \<and> 0 \<le> HealthIndicator n \<and> HealthIndicator n \<le> 100"
    and "rank = Spread_RankAndSort srt \<and> sign = - 1 \<or> rank = Binpack_RankAndSort srt \<and> sign = 1"
    and "rank config ns = Inr ns'" and "i < j" and "j < length ns'"
  shows "sign * node_weight config (sign * 10) (ns' ! j) \<le> sign * node_weight config (sign * 10) (ns' ! i) \<and>
    HealthIndicator (ns' ! j) \<le> HealthIndicator (ns' ! i) + 20"
proof -
  define lt where "lt = (if sign = - 1 then Less else (\<lambda>x y. Less y x))"
  define ws where "ws = map (\<lambda>n. \<lparr>w_Node = n, Weight = node_weight config (sign * 10) n\<rparr>) (filter (node_fits config) ns)"
  have ns': "ns' = map w_Node (srt lt ws)"
    using assms(3,4) weighNodes_result(1) [of config ns "sign * 10"]
    by (auto simp: Spread_RankAndSort_def Binpack_RankAndSort_def lt_def ws_def split: sum.splits)
  have ok: "Weight w = node_weight config (sign * 10) (w_Node w) \<and> node_fits config (w_Node w) \<and> w_Node w \<in> set ns"
    if "w \<in> set (srt lt ws)" for w
    using that go_sort.srt_set [OF node_sort.axioms [OF assms(1)]] by (auto simp: ws_def)
  have "sorted_wrt (\<lambda>x y. \<not> lt y x) (srt lt ws)"
    using go_sort.srt_sorted [OF node_sort.axioms [OF assms(1)]] strict_weak_Less by (simp add: lt_def)
  with assms(5,6) ns' have "\<not> lt (srt lt ws ! j) (srt lt ws ! i)" by (simp add: sorted_wrt_iff_nth_less)
  moreover have "\<not> lt y x \<Longrightarrow> sign * Weight y \<le> sign * Weight x" for x y
    using assms(3) by (auto simp: lt_def Less_def split: if_splits)
  moreover have mem: "srt lt ws ! i \<in> set (srt lt ws)" "srt lt ws ! j \<in> set (srt lt ws)"
    using assms(5,6) ns' by auto
  ultimately have w: "sign * node_weight config (sign * 10) (ns' ! j) \<le> sign * node_weight config (sign * 10) (ns' ! i)"
    using ok [OF mem(1)] ok [OF mem(2)] assms(5,6) ns' by fastforce
  have "node_weight config (sign * 10) n =
      cpuScore config n + memoryScore config n + sign * 10 * HealthIndicator n" if "n \<in> {ns' ! i, ns' ! j}" for n
    using that ok [OF mem(1)] ok [OF mem(2)] assms(2,3,5,6) ns' by (auto intro!: node_weight_eq)
  with w assms(3) scores_range [of config "ns' ! i"] scores_range [of config "ns' ! j"]
    ok [OF mem(1)] ok [OF mem(2)] assms(2,5,6) ns'
  show ?thesis by auto
qed

theorem ranking_order_witness:
  "HealthIndicator (a_node ''b'' 50) \<le> HealthIndicator (a_node ''a'' 100) + 20"
proof -
  have "\<forall>n \<in> set [a_node ''b'' 50, a_node ''a'' 100].
      in_bounds mem_config n \<and> 0 \<le> HealthIndicator n \<and> HealthIndicator n \<le> 100"
    by (simp add: in_bounds_def a_node_def mem_config_def sample_host_def)
  moreover have "Spread_RankAndSort insertionSort mem_config [a_node ''b'' 50, a_node ''a'' 100] =
      Inr [a_node ''a'' 100, a_node ''b'' 50]"
    by (simp add: sample_eval sample_fits Less_def node_weight_def sample_scores) (simp add: a_node_def i64_def)
  ultimately show ?thesis
    using ranking_order [OF sample_scheduler(4), of "[a_node ''b'' 50, a_node ''a'' 100]" mem_config
        "Spread_RankAndSort insertionSort" "- 1" "[a_node ''a'' 100, a_node ''b'' 50]" 0 1] by simp
qed

end
