(* ===== verification/Scale_Utils.thy ===== *)
theory Scale_Utils
  imports Sched_Filters
begin

section \<open>Helpers of scaling (\<open>common/define.go\<close>, \<open>cluster/swarm/utils.go\<close>)\<close>

text \<open>
  The data of a scale request, the reading of environment entries (\<open>getEnv\<close>, \<open>getMinNum\<close>,
  \<open>getTaskType\<close>, \<open>getInaffinityStrings\<close>, \<open>getConstaintStrings\<close>), the parser of filter strings and the
  matching of labels. Loops over a string with \<open>range\<close> visit the byte offsets of its runes.
  \<open>parseFilterString\<close> keeps its variable \<open>filter\<close> across entries, which the model threads through; its
  index expressions can panic, hence the option.
\<close>

subsection \<open>Data\<close>

definition TaskTypeCreateContainer :: int where "TaskTypeCreateContainer = 0"
definition TaskTypeDestroyContainer :: int where "TaskTypeDestroyContainer = 1"
definition TaskTypeStartContainer :: int where "TaskTypeStartContainer = 2"
definition TaskTypeStopContainer :: int where "TaskTypeStopContainer = 3"

definition DefaultAppLots :: int where "DefaultAppLots = 1"
definition DefaultPriority :: int where "DefaultPriority = - 1"
definition DefaultMinNum :: int where "DefaultMinNum = 0"

lemmas task_types = TaskTypeCreateContainer_def TaskTypeDestroyContainer_def TaskTypeStartContainer_def
  TaskTypeStopContainer_def

record ScaleItem =
  item_Filters :: "string list"
  Number :: int
  ENVs :: "string list"
  item_Labels :: "string \<rightharpoonup> string"

record Filter =
  Key :: string
  Operater :: string
  Pattern :: string

subsection \<open>Environment entries\<close>

definition kv_pair :: "string \<Rightarrow> string \<times> string" where
  "kv_pair v = (let kv = SplitN2 v ''='' in if length kv = 1 then (kv ! 0, []) else (kv ! 0, kv ! 1))"

definition convertKVStringsToMap :: "string list \<Rightarrow> (string \<times> string) list" where
  "convertKVStringsToMap vs = fold (\<lambda>v m. case kv_pair v of (k, x) \<Rightarrow> AList.update k x m) vs []"

definition convertMapToKVStrings :: "(string \<times> string) list \<Rightarrow> string list" where
  "convertMapToKVStrings m = map (\<lambda>(k, v). k @ ''='' @ v) m"

definition hasPrifix :: "string list \<Rightarrow> string \<Rightarrow> bool" where
  "hasPrifix arr key = list_ex (\<lambda>a. HasPrefix a key) arr"

text \<open>Every \<open>=\<close> and every \<open>:\<close> of a matching entry contributes the text after it.\<close>

definition env_entry_values :: "string \<Rightarrow> string list" where
  "env_entry_values e =
     map (\<lambda>i. drop (i + 1) e) (filter (\<lambda>i. e ! i = CHR ''='' \<or> e ! i = CHR '':'') (rune_offsets e))"

definition getEnv :: "string \<Rightarrow> string list \<Rightarrow> string list \<times> bool" where
  "getEnv key envs =
     (let values = concat (map (\<lambda>e. if HasPrefix e key then env_entry_values e else []) envs)
      in (values, values \<noteq> []))"

definition getMinNum :: "string list \<Rightarrow> int" where
  "getMinNum envs =
     (let (minNums, ok) = getEnv ''MIN_NUMBER'' envs in
      if \<not> ok then DefaultMinNum
      else let (minNum, parsed) = Atoi (minNums ! 0) in if parsed then minNum else DefaultMinNum)"

definition getTaskType :: "int \<Rightarrow> string list \<Rightarrow> int" where
  "getTaskType n envs =
     (let (values, ok) = getEnv ''TASK_TYPE'' envs;
          flag = (\<not> ok \<or> length values \<noteq> 1)
      in if n > 0 then
           (if flag \<or> values ! 0 = ''create'' then TaskTypeCreateContainer else TaskTypeStartContainer)
         else if n < 0 then
           (if flag \<or> values ! 0 = ''destroy'' then TaskTypeDestroyContainer else TaskTypeStopContainer)
         else - 1)"

definition getInaffinityStrings :: "string list \<Rightarrow> string list" where
  "getInaffinityStrings envs =
     concat (map (\<lambda>e.
       if HasPrefix e ''affinity'' then
         let ss = SplitN2 e '':'' in
         if length ss = 2 \<and> Contains (ss ! 1) ''!='' then [Replace1 (ss ! 1) ''!='' ''==''] else []
       else []) envs)"

definition getConstaintStrings :: "string list \<Rightarrow> string list" where
  "getConstaintStrings envs =
     concat (map (\<lambda>e.
       if HasPrefix e ''constraint'' then
         let ss = SplitN2 e '':'' in
         if length ss = 2 \<and> (Contains (ss ! 1) ''!='' \<or> Contains (ss ! 1) ''=='') then [ss ! 1] else []
       else []) envs)"

subsection \<open>Filter strings\<close>

text \<open>
  The inner loop: the offset it stops at and the operator it found. An equals sign at offset 0
  makes \<open>s[i-1]\<close> panic.
\<close>

fun scan_op :: "string \<Rightarrow> nat list \<Rightarrow> nat \<Rightarrow> (nat \<times> string option) option" where
  "scan_op s [] i = Some (i, None)"
| "scan_op s (j # js) i =
     (if s ! j = CHR ''='' then
        (if j = 0 then None
         else if s ! (j - 1) = CHR ''='' then Some (j, Some ''=='')
         else if s ! (j - 1) = CHR ''!'' then Some (j, Some ''!='')
         else scan_op s js j)
      else scan_op s js j)"

text \<open>One entry; \<open>prev\<close> is the value of \<open>i\<close> and \<open>op\<close> the operator left by the entries before it.\<close>

definition parse_filter_entry :: "nat \<Rightarrow> string \<Rightarrow> string \<Rightarrow> (nat \<times> Filter) result option" where
  "parse_filter_entry prev op s = do {
     (i, found) \<leftarrow> scan_op s (rune_offsets s) prev;
     let op' = (case found of Some x \<Rightarrow> x | None \<Rightarrow> op);
     if int i \<ge> int (length s) - 1 then Some (Inl (errorf ''invalid filter''))
     else do {
       key \<leftarrow> slice_to s (int i - 1);
       pattern \<leftarrow> slice_from s (int i + 1);
       Some (Inr (i, \<lparr>Key = key, Operater = op', Pattern = pattern\<rparr>)) } }"

fun parse_filters_from :: "nat \<Rightarrow> string \<Rightarrow> string list \<Rightarrow> Filter list result option" where
  "parse_filters_from prev op [] = Some (Inr [])"
| "parse_filters_from prev op (s # ss) = do {
     r \<leftarrow> parse_filter_entry prev op s;
     (case r of
        Inl err \<Rightarrow> Some (Inl err)
      | Inr (i, f) \<Rightarrow> do {
          rs \<leftarrow> parse_filters_from i (Operater f) ss;
          Some (case rs of Inl err \<Rightarrow> Inl err | Inr fs \<Rightarrow> Inr (f # fs)) }) }"

definition parseFilterString :: "string list \<Rightarrow> Filter list result option" where
  "parseFilterString f = parse_filters_from 0 [] f"

subsection \<open>Matching labels\<close>

fun matchLabels :: "regexp \<Rightarrow> Filter list \<Rightarrow> (string \<rightharpoonup> string) \<Rightarrow> bool" where
  "matchLabels re [] labels = True"
| "matchLabels re (f # fs) labels =
     (if labels (Key f) = None \<and> Operater f = ''=='' then False
      else
        let label = (case labels (Key f) of Some v \<Rightarrow> v | None \<Rightarrow> []) in
        case re (Pattern f) of
          None \<Rightarrow> False
        | Some m \<Rightarrow>
            if Operater f = ''=='' \<and> \<not> m label \<or> Operater f = ''!='' \<and> m label then False
            else matchLabels re fs labels)"

text \<open>\<open>filterContainer\<close> of \<open>filter.go\<close> repeats the same loop over the labels of a container.\<close>

definition filterContainer :: "regexp \<Rightarrow> Filter list \<Rightarrow> Container \<Rightarrow> bool" where
  "filterContainer re fs c = matchLabels re fs (c_Labels c)"

definition filterConstraintEngine :: "regexp \<Rightarrow> EngineSpec \<Rightarrow> Filter list \<Rightarrow> bool" where
  "filterConstraintEngine re e fs = matchLabels re fs (e_Labels e)"

definition hasConstraint :: "string list \<Rightarrow> bool" where
  "hasConstraint envs = list_ex (\<lambda>e. HasPrefix e ''constraint'') envs"

definition filterConstraintNodeByENVs :: "regexp \<Rightarrow> EngineSpec \<Rightarrow> string list \<Rightarrow> bool option" where
  "filterConstraintNodeByENVs re e envs = do {
     r \<leftarrow> parseFilterString (getConstaintStrings envs);
     Some (case r of Inl _ \<Rightarrow> False | Inr fs \<Rightarrow> filterConstraintEngine re e fs) }"

subsection \<open>Lemmas\<close>

definition show_filter :: "Filter \<Rightarrow> string" where
  "show_filter f = Key f @ Operater f @ Pattern f"

definition filter_ok :: "Filter \<Rightarrow> bool" where
  "filter_ok f \<longleftrightarrow> is_ascii (show_filter f) \<and> CHR ''='' \<notin> set (Key f) \<and> Pattern f \<noteq> [] \<and>
     (Operater f = ''=='' \<and> Key f \<noteq> [] \<and> last (Key f) \<noteq> CHR ''!'' \<or> Operater f = ''!='')"

lemma upt_split: "k < n \<Longrightarrow> [i..<n] = [i..<k] @ k # [Suc k..<n]" if "i \<le> k" for i k n :: nat
  using upt_add_eq_append [of i k "n - k"] that by (simp add: upt_conv_Cons)

lemma scan_op_skip:
  assumes "\<And>j. j \<in> set js \<Longrightarrow> s ! j \<noteq> CHR ''=''"
  shows "scan_op s (js @ rest) i = scan_op s rest (last (i # js))"
  using assms by (induction js arbitrary: i) auto

lemma scan_op_show:
  assumes "filter_ok f"
  shows "scan_op (show_filter f) (rune_offsets (show_filter f)) i = Some (length (Key f) + 1, Some (Operater f))"
proof -
  let ?s = "show_filter f" and ?k = "length (Key f)"
  have len: "length ?s = ?k + 2 + length (Pattern f)" "is_ascii ?s"
    using assms by (auto simp: show_filter_def filter_ok_def)
  have offs: "rune_offsets ?s = [0..<?k] @ ?k # (?k + 1) # [?k + 2..<length ?s]"
    unfolding rune_offsets_ascii [OF len(2)] len(1)
    using upt_split [of 0 ?k "?k + 2 + length (Pattern f)"]
      upt_split [of "Suc ?k" "Suc ?k" "?k + 2 + length (Pattern f)"] by simp
  have key: "?s ! j \<noteq> CHR ''=''" if "j \<in> set [0..<?k]" for j
    using that assms by (auto simp: show_filter_def filter_ok_def nth_append in_set_conv_nth)
  have chars: "?s ! ?k = Operater f ! 0" "?s ! (?k + 1) = Operater f ! 1" "?k > 0 \<Longrightarrow> ?s ! (?k - 1) = last (Key f)"
    using assms by (auto simp: show_filter_def filter_ok_def nth_append last_conv_nth)
  have "scan_op ?s (rune_offsets ?s) i = scan_op ?s (?k # (?k + 1) # [?k + 2..<length ?s]) (last (i # [0..<?k]))"
    unfolding offs by (rule scan_op_skip) (rule key)
  moreover have "Key f \<noteq> [] \<Longrightarrow> last (Key f) \<noteq> CHR ''=''"
    using assms unfolding filter_ok_def by (metis last_in_set)
  ultimately show ?thesis
    using assms chars by (auto simp: filter_ok_def)
qed

lemma parse_entry_show:
  assumes "filter_ok f"
  shows "parse_filter_entry prev op (show_filter f) = Some (Inr (length (Key f) + 1, f))"
proof -
  have "length (Operater f) = 2" "Pattern f \<noteq> []" using assms by (auto simp: filter_ok_def)
  then have "slice_to (show_filter f) (int (length (Key f))) = Some (Key f)"
    "slice_from (show_filter f) (int (length (Key f)) + 2) = Some (Pattern f)"
    "int (length (show_filter f)) = int (length (Key f)) + 2 + int (length (Pattern f))"
    by (auto simp: slice_to_Some slice_from_Some show_filter_def nat_add_distrib)
  with \<open>Pattern f \<noteq> []\<close> show ?thesis
    by (simp add: parse_filter_entry_def scan_op_show [OF assms] add.commute)
qed

lemma parse_filters_show:
  "\<forall>f \<in> set fs. filter_ok f \<Longrightarrow> parse_filters_from prev op (map show_filter fs) = Some (Inr fs)"
  by (induction fs arbitrary: prev op) (auto simp: parse_entry_show)

definition filter_holds :: "regexp \<Rightarrow> (string \<rightharpoonup> string) \<Rightarrow> Filter \<Rightarrow> bool" where
  "filter_holds re labels f \<longleftrightarrow>
     (case re (Pattern f) of
        None \<Rightarrow> False
      | Some m \<Rightarrow>
          if Operater f = ''=='' then (case labels (Key f) of None \<Rightarrow> False | Some v \<Rightarrow> m v)
          else Operater f = ''!='' \<longrightarrow> \<not> m (case labels (Key f) of Some v \<Rightarrow> v | None \<Rightarrow> []))"

lemma matchLabels_iff: "matchLabels re fs labels \<longleftrightarrow> (\<forall>f \<in> set fs. filter_holds re labels f)"
  by (induction re fs labels rule: matchLabels.induct)
    (auto simp: filter_holds_def Let_def split: option.splits)

lemma kv_pair_show [simp]: "CHR ''='' \<notin> set k \<Longrightarrow> kv_pair (k @ CHR ''='' # v) = (k, v)"
  by (simp add: kv_pair_def)

lemma update_new: "k \<notin> fst ` set al \<Longrightarrow> AList.update k v al = al @ [(k, v)]"
  by (induction al) auto

lemma convert_fold:
  "distinct (map fst (acc @ m)) \<Longrightarrow> \<forall>k \<in> fst ` set m. CHR ''='' \<notin> set k \<Longrightarrow>
     fold (\<lambda>v m. case kv_pair v of (k, x) \<Rightarrow> AList.update k x m) (convertMapToKVStrings m) acc = acc @ m"
proof (induction m arbitrary: acc)
  case (Cons kv m)
  obtain k v where kv: "kv = (k, v)" by force
  from Cons.prems have "AList.update k v acc = acc @ [(k, v)]"
    by (auto simp: kv intro!: update_new)
  with Cons.IH [of "acc @ [(k, v)]"] Cons.prems show ?case
    by (simp add: kv convertMapToKVStrings_def)
qed (simp add: convertMapToKVStrings_def)

lemma env_entry_single:
  assumes "is_ascii (k @ CHR ''='' # v)" and "\<forall>c \<in> set k. c \<noteq> CHR ''='' \<and> c \<noteq> CHR '':''"
    and "\<forall>c \<in> set v. c \<noteq> CHR ''='' \<and> c \<noteq> CHR '':''"
  shows "env_entry_values (k @ CHR ''='' # v) = [v]"
proof -
  let ?e = "k @ CHR ''='' # v" and ?P = "\<lambda>c. c = CHR ''='' \<or> c = CHR '':''"
  have "filter (\<lambda>i. ?P (?e ! i)) [0..<length ?e] = [length k]"
  proof -
    have "[0..<length ?e] = [0..<length k] @ length k # [Suc (length k)..<length ?e]"
      by (rule upt_split) auto
    moreover have "filter (\<lambda>i. ?P (?e ! i)) [0..<length k] = []"
      using assms(2) by (auto simp: filter_empty_conv nth_append)
    moreover have "filter (\<lambda>i. ?P (?e ! i)) [Suc (length k)..<length ?e] = []"
    proof -
      have "?e ! i \<in> set v" if "i \<in> set [Suc (length k)..<length ?e]" for i
      proof -
        from that have "?e ! i = v ! (i - Suc (length k))" "i - Suc (length k) < length v"
          by (auto simp: nth_append nth_Cons')
        then show ?thesis by simp
      qed
      with assms(3) show ?thesis by (intro filter_False) blast
    qed
    ultimately show ?thesis by (simp add: nth_append)
  qed
  then show ?thesis
    unfolding env_entry_values_def rune_offsets_ascii [OF assms(1)] by simp
qed

subsection \<open>Properties\<close>

text \<open>
  The parser of filter strings reads back what was written: a list of filters with ASCII keys
  that contain no equals sign, a non-empty pattern and one of the two operators, rendered as key, operator and
  pattern, parses to the same list, without error and without panic.
\<close>

lemma filter_string_round_trip:
  "\<forall>f \<in> set fs. filter_ok f \<Longrightarrow> parseFilterString (map show_filter fs) = Some (Inr fs)"
  by (simp add: parseFilterString_def parse_filters_show)

definition two_filters :: "Filter list" where
  "two_filters = [\<lparr>Key = ''name'', Operater = ''=='', Pattern = ''nginx''\<rparr>,
                  \<lparr>Key = ''app'', Operater = ''!='', Pattern = ''a==b''\<rparr>]"

lemma filter_string_round_trip_witness:
  "parseFilterString [''name==nginx'', ''app!=a==b''] = Some (Inr two_filters)"
proof -
  have "\<forall>f \<in> set two_filters. filter_ok f"
    by (simp add: two_filters_def filter_ok_def show_filter_def is_ascii_def byte_def)
  from filter_string_round_trip [OF this] show ?thesis by (simp add: two_filters_def show_filter_def)
qed

text \<open>
  A set of labels matches a list of filters exactly when every filter holds: an equality needs
  the label to be present and to match the pattern, an inequality needs the value, or the empty string
  when the label is absent, not to match; a pattern that does not compile matches nothing.
\<close>

lemma match_labels_iff:
  "matchLabels re fs labels \<longleftrightarrow> (\<forall>f \<in> set fs. filter_holds re labels f)"
  by (rule matchLabels_iff)

lemma match_labels_iff_witness:
  "matchLabels exact_re [\<lparr>Key = ''app'', Operater = ''!='', Pattern = ''^x$''\<rparr>] Map.empty"
  by (simp add: match_labels_iff filter_holds_def exact_re_def)

text \<open>
  Rendering a map with distinct keys that contain no equals sign as \<open>key=value\<close> strings and
  converting the strings back gives the same map.
\<close>

lemma kv_strings_round_trip:
  "distinct (map fst m) \<Longrightarrow> \<forall>k \<in> fst ` set m. CHR ''='' \<notin> set k \<Longrightarrow>
     convertKVStringsToMap (convertMapToKVStrings m) = m"
  using convert_fold [of "[]" m] by (simp add: convertKVStringsToMap_def)

end
