(* ===== verification/Task_Ring.thy ===== *)
theory Task_Ring
  imports Scale_Utils
begin

section \<open>The ring of tasks (\<open>cluster/swarm/task.go\<close>)\<close>

text \<open>
  Tasks are kept in a \<open>container/ring\<close> whose element \<open>Head\<close> carries no task. A ring is modelled as the pair
  \<open>(l, r)\<close> of the tasks between \<open>Head\<close> and \<open>Current\<close> and of the tasks from \<open>Current\<close> on, so that
  \<open>Current\<close> is the first task of \<open>r\<close>, or \<open>Head\<close> itself when \<open>r\<close> is empty; \<open>None\<close> is the nil \<open>Head\<close> of
  \<open>NewTasks\<close>. \<open>ring_next\<close>, \<open>ring_link\<close> and \<open>ring_drop\<close> are the moves of the package that the code uses. The
  processor is a parameter: a state transformer of the world \<open>'w\<close> that may panic. Task identifiers are
  drawn from \<open>rand.Int\<close> and passed in. The locale \<open>task_processor\<close> states what \<open>DoTasks\<close> needs of a
  processor to return.
\<close>

subsection \<open>Rings\<close>

record Task =
  TaskID :: int
  TaskType :: int
  Retry :: nat
  t_Container :: Container

type_synonym ring = "Task list \<times> Task list"

definition DefaultTaskRetry :: nat where
  "DefaultTaskRetry = 3"

definition ring_tasks :: "ring \<Rightarrow> Task list" where
  "ring_tasks q = fst q @ snd q"

text \<open>\<open>Len\<close> counts \<open>Head\<close> too.\<close>

definition ring_Len :: "ring \<Rightarrow> nat" where
  "ring_Len q = length (fst q) + length (snd q) + 1"

fun ring_next :: "ring \<Rightarrow> ring" where
  "ring_next (l, []) = ([], l)"
| "ring_next (l, x # r) = (l @ [x], r)"

text \<open>\<open>t.Current = t.Current.Link(temp)\<close>: the new element follows \<open>Current\<close>, and \<open>Current\<close> moves to its old successor.\<close>

fun ring_link :: "Task \<Rightarrow> ring \<Rightarrow> ring" where
  "ring_link x (l, []) = ([x], l)"
| "ring_link x (l, y # r) = (l @ [y, x], r)"

definition ring_rewind :: "ring \<Rightarrow> ring" where
  "ring_rewind q = ([], ring_tasks q)"

record Tasks =
  Ring :: "ring option"

definition NewTasks :: Tasks where
  "NewTasks = \<lparr>Ring = None\<rparr>"

definition new_task :: "int \<Rightarrow> int \<Rightarrow> Container \<Rightarrow> Task" where
  "new_task rid taskType c = \<lparr>TaskID = rid, TaskType = taskType, Retry = DefaultTaskRetry, t_Container = c\<rparr>"

subsection \<open>Adding\<close>

text \<open>The debug message at the end reads \<open>container.Names[0]\<close>, which panics without names.\<close>

definition AddTask :: "int \<Rightarrow> Tasks \<Rightarrow> Container option \<Rightarrow> int \<Rightarrow> Tasks option" where
  "AddTask rid t container taskType =
     (case container of
        None \<Rightarrow> Some t
      | Some c \<Rightarrow>
          let q = (case Ring t of None \<Rightarrow> ([], []) | Some q \<Rightarrow> q);
              q' = ring_next (ring_link (new_task rid taskType c) q)
          in if Names c = [] then None else Some \<lparr>Ring = Some q'\<rparr>)"

text \<open>The slice is \<open>None\<close> when it is nil; \<open>rid i\<close> is the identifier drawn for its element \<open>i\<close>.\<close>

definition new_tasks :: "(nat \<Rightarrow> int) \<Rightarrow> Containers \<Rightarrow> int \<Rightarrow> Task list" where
  "new_tasks rid cs taskType = map (\<lambda>(i, c). new_task (rid i) taskType c) (enumerate 0 cs)"

definition AddTasks :: "(nat \<Rightarrow> int) \<Rightarrow> Tasks \<Rightarrow> Containers option \<Rightarrow> int \<Rightarrow> Tasks" where
  "AddTasks rid t containers taskType =
     (case containers of
        None \<Rightarrow> t
      | Some cs \<Rightarrow>
          (case Ring t of
             None \<Rightarrow> \<lparr>Ring = Some ([], new_tasks rid cs taskType)\<rparr>
           | Some q \<Rightarrow>
               if ring_Len q > 1
               then \<lparr>Ring = Some (ring_rewind (fold ring_link (new_tasks rid cs taskType) q))\<rparr>
               else t))"

subsection \<open>Running\<close>

type_synonym 'w processor = "'w \<Rightarrow> Task \<Rightarrow> (string result \<times> 'w) option"

text \<open>
  A round starts by stepping over \<open>Head\<close>. Dropping the current task is \<open>Prev\<close>, \<open>Unlink(1)\<close> and the \<open>Next\<close> of the
  loop header, which leaves \<open>Current\<close> at the task after it.
\<close>

definition ring_work :: "Task list \<Rightarrow> nat" where
  "ring_work ts = sum_list (map (\<lambda>t. Suc (Retry t)) ts)"

definition skip_head :: "ring \<Rightarrow> ring" where
  "skip_head q = (if snd q = [] then ring_next q else q)"

lemma skip_head_tasks: "skip_head q = (l, r) \<Longrightarrow> ring_tasks q = l @ r"
  by (cases q; cases "snd q") (auto simp: skip_head_def ring_tasks_def)

lemma skip_head_current: "ring_Len q > 1 \<Longrightarrow> snd (skip_head q) \<noteq> []"
  by (cases q) (auto simp: skip_head_def ring_Len_def)

function do_tasks :: "'w processor \<Rightarrow> ring \<Rightarrow> string list \<Rightarrow> 'w \<Rightarrow> (string list \<times> ring \<times> 'w) option" where
  "do_tasks proc q names w =
     (if ring_Len q > 1 then
        (case skip_head q of
           (l, []) \<Rightarrow> None
         | (l, x # r) \<Rightarrow>
             (case proc w x of
                None \<Rightarrow> None
              | Some (Inl err, w') \<Rightarrow>
                  if Retry x = 0 then do_tasks proc (l, r) names w'
                  else do_tasks proc (l @ [x\<lparr>Retry := Retry x - 1\<rparr>], r) names w'
              | Some (Inr name, w') \<Rightarrow> do_tasks proc (l, r) (names @ [name]) w'))
      else Some (names, q, w))"
  by pat_completeness auto

termination
proof (relation "measure (\<lambda>(proc, q, names, w). ring_work (ring_tasks q))", goal_cases)
  case (2 proc q names w l r' x r p a w' err)
  then show ?case using arg_cong [OF skip_head_tasks [of q l "x # r"], of ring_work] by (simp add: ring_work_def ring_tasks_def)
next
  case (3 proc q names w l r' x r p a w' err)
  then show ?case using arg_cong [OF skip_head_tasks [of q l "x # r"], of ring_work] by (simp add: ring_work_def ring_tasks_def)
next
  case (4 proc q names w l r' x r p a w' name)
  then show ?case using arg_cong [OF skip_head_tasks [of q l "x # r"], of ring_work] by (simp add: ring_work_def ring_tasks_def)
qed simp

declare do_tasks.simps [simp del]

text \<open>The length of the nil ring is 0, so \<open>DoTasks\<close> returns at once when nothing was ever added.\<close>

definition DoTasks :: "'w processor \<Rightarrow> Tasks \<Rightarrow> 'w \<Rightarrow> (string list result \<times> Tasks \<times> 'w) option" where
  "DoTasks proc t w =
     (case Ring t of
        None \<Rightarrow> Some (Inr [], t, w)
      | Some q \<Rightarrow> do {
          (names, q', w') \<leftarrow> do_tasks proc q [] w;
          Some (Inr names, \<lparr>Ring = Some q'\<rparr>, w') })"

subsection \<open>Lemmas\<close>

lemma ring_link_mset: "mset (ring_tasks (ring_link x q)) = add_mset x (mset (ring_tasks q))"
  by (cases q rule: ring_next.cases) (auto simp: ring_tasks_def)

lemma ring_next_mset [simp]: "mset (ring_tasks (ring_next q)) = mset (ring_tasks q)"
  by (cases q rule: ring_next.cases) (auto simp: ring_tasks_def)

lemma fold_link_mset: "mset (ring_tasks (fold ring_link xs q)) = mset xs + mset (ring_tasks q)"
  by (induction xs arbitrary: q) (auto simp: ring_link_mset)

lemma ring_rewind_tasks [simp]: "ring_tasks (ring_rewind q) = ring_tasks q"
  by (simp add: ring_rewind_def ring_tasks_def)

lemma ring_Len_tasks: "ring_Len q = length (ring_tasks q) + 1"
  by (simp add: ring_Len_def ring_tasks_def)

definition logged :: "'w processor \<Rightarrow> ('w \<times> (int \<times> bool) list) processor" where
  "logged proc = (\<lambda>(w, log) t. map_option (\<lambda>(r, w'). (r, w', log @ [(TaskID t, res_ok r)])) (proc w t))"

definition attempts :: "(int \<times> bool) list \<Rightarrow> int \<Rightarrow> bool \<Rightarrow> nat" where
  "attempts log i ok = count_list log (i, ok)"

definition task_done :: "(int \<times> bool) list \<Rightarrow> Task \<Rightarrow> bool" where
  "task_done log t \<longleftrightarrow>
     attempts log (TaskID t) True = 1 \<and> attempts log (TaskID t) False \<le> Retry t \<or>
     attempts log (TaskID t) True = 0 \<and> attempts log (TaskID t) False = Suc (Retry t)"

lemma attempts_none: "i \<notin> fst ` set log \<Longrightarrow> attempts log i ok = 0"
  by (force simp: attempts_def count_list_0_iff)

lemma attempts_Cons: "attempts ((i, b) # log) j ok = attempts log j ok + (if i = j \<and> b = ok then 1 else 0)"
  by (simp add: attempts_def)

lemma do_tasks_done: "ring_tasks q = [] \<Longrightarrow> do_tasks proc q names w = Some (names, q, w)"
  by (simp add: do_tasks.simps [of _ q] ring_Len_tasks)

lemma do_tasks_step:
  assumes "skip_head q = (l, x # r)"
  shows "do_tasks proc q names w =
    (case proc w x of
       None \<Rightarrow> None
     | Some (Inl err, w') \<Rightarrow>
         if Retry x = 0 then do_tasks proc (l, r) names w'
         else do_tasks proc (l @ [x\<lparr>Retry := Retry x - 1\<rparr>], r) names w'
     | Some (Inr name, w') \<Rightarrow> do_tasks proc (l, r) (names @ [name]) w')"
proof -
  have "ring_Len q > 1" using skip_head_tasks [OF assms] by (simp add: ring_Len_tasks)
  with assms show ?thesis by (simp add: do_tasks.simps [of _ q])
qed

lemma ring_cases:
  obtains "ring_tasks q = []" | l x r where "skip_head q = (l, x # r)" "ring_tasks q = l @ x # r"
proof (cases "ring_tasks q = []")
  case False
  then have "ring_Len q > 1" by (simp add: ring_Len_tasks)
  then obtain l x r where "skip_head q = (l, x # r)"
    using skip_head_current by (metis list.exhaust surjective_pairing)
  with skip_head_tasks that(2) show ?thesis by blast
qed

lemma do_tasks_induct [consumes 1, case_names finish drop retry success]:
  assumes "do_tasks proc q names w = Some res"
    and "\<And>q names w. ring_tasks q = [] \<Longrightarrow> P q names w (names, q, w)"
    and "\<And>q l x r names w err w' res. ring_tasks q = l @ x # r \<Longrightarrow> proc w x = Some (Inl err, w') \<Longrightarrow>
      Retry x = 0 \<Longrightarrow> P (l, r) names w' res \<Longrightarrow> P q names w res"
    and "\<And>q l x r names w err w' res. ring_tasks q = l @ x # r \<Longrightarrow> proc w x = Some (Inl err, w') \<Longrightarrow>
      Retry x > 0 \<Longrightarrow> P (l @ [x\<lparr>Retry := Retry x - 1\<rparr>], r) names w' res \<Longrightarrow> P q names w res"
    and "\<And>q l x r names w name w' res. ring_tasks q = l @ x # r \<Longrightarrow> proc w x = Some (Inr name, w') \<Longrightarrow>
      P (l, r) (names @ [name]) w' res \<Longrightarrow> P q names w res"
  shows "P q names w res"
  using assms(1)
proof (induction "ring_work (ring_tasks q)" arbitrary: q names w rule: less_induct)
  case less
  show ?case
  proof (cases rule: ring_cases [of q])
    case 1
    with less.prems assms(2) [of q names w] show ?thesis by (simp add: do_tasks_done)
  next
    case (2 l x r)
    have work: "ring_work (ring_tasks (l, r)) < ring_work (ring_tasks q)"
      "Retry x > 0 \<Longrightarrow> ring_work (ring_tasks (l @ [x\<lparr>Retry := Retry x - 1\<rparr>], r)) < ring_work (ring_tasks q)"
      unfolding 2(2) by (simp_all add: ring_work_def ring_tasks_def)
    from less.prems do_tasks_step [OF 2(1), of proc names w] obtain p w' where
      p: "proc w x = Some (p, w')" by (cases "proc w x") auto
    with less.prems do_tasks_step [OF 2(1), of proc names w] work less.hyps assms(3-5) [OF 2(2)]
    show ?thesis by (cases p) (auto split: if_splits)
  qed
qed

lemma logged_Some:
  "logged proc (w, log) t = Some (res, wl) \<longleftrightarrow>
     (\<exists>w'. proc w t = Some (res, w') \<and> wl = (w', log @ [(TaskID t, res_ok res)]))"
  by (auto simp: logged_def)

lemma task_done_Cons:
  "TaskID t \<noteq> i \<Longrightarrow> task_done ((i, b) # d) t \<longleftrightarrow> task_done d t"
  by (simp add: task_done_def attempts_Cons)

definition accounted :: "(int \<times> bool) list \<Rightarrow> Task list \<Rightarrow> bool" where
  "accounted d ts \<longleftrightarrow> distinct (map TaskID ts) \<longrightarrow>
     fst ` set d \<subseteq> TaskID ` set ts \<and> (\<forall>t \<in> set ts. task_done d t)"

lemma accounted_other:
  assumes "fst ` set d \<subseteq> TaskID ` set (l @ r)" and "distinct (map TaskID (l @ x # r))"
  shows "attempts d (TaskID x) ok = 0" and "t \<in> set (l @ r) \<Longrightarrow> TaskID t \<noteq> TaskID x"
  using assms by (auto intro!: attempts_none) (metis image_eqI)+

lemma accounted_last:
  assumes "accounted d (l @ r)" and "b \<or> Retry x = 0"
  shows "accounted ((TaskID x, b) # d) (l @ x # r)"
  unfolding accounted_def
proof (intro impI conjI ballI)
  assume dist: "distinct (map TaskID (l @ x # r))"
  with assms(1) have d: "fst ` set d \<subseteq> TaskID ` set (l @ r)" "\<forall>t \<in> set (l @ r). task_done d t"
    by (auto simp: accounted_def)
  then show "fst ` set ((TaskID x, b) # d) \<subseteq> TaskID ` set (l @ x # r)" by auto
  fix t assume "t \<in> set (l @ x # r)"
  then consider "t = x" | "t \<in> set (l @ r)" by auto
  then show "task_done ((TaskID x, b) # d) t"
  proof cases
    case 1
    with accounted_other(1) [OF d(1) dist] assms(2) show ?thesis by (auto simp: task_done_def attempts_Cons)
  next
    case 2
    with accounted_other(2) [OF d(1) dist] d(2) show ?thesis by (simp add: task_done_Cons)
  qed
qed

lemma accounted_retry:
  assumes "accounted d (l @ x\<lparr>Retry := Retry x - 1\<rparr> # r)" and "Retry x > 0"
  shows "accounted ((TaskID x, False) # d) (l @ x # r)"
  unfolding accounted_def
proof (intro impI conjI ballI)
  assume dist: "distinct (map TaskID (l @ x # r))"
  with assms(1) have d: "fst ` set d \<subseteq> TaskID ` set (l @ x # r)" "\<forall>t \<in> set (l @ r). task_done d t"
    "task_done d (x\<lparr>Retry := Retry x - 1\<rparr>)"
    by (auto simp: accounted_def)
  then show "fst ` set ((TaskID x, False) # d) \<subseteq> TaskID ` set (l @ x # r)" by auto
  fix t assume "t \<in> set (l @ x # r)"
  then consider "t = x" | "t \<in> set (l @ r)" by auto
  then show "task_done ((TaskID x, False) # d) t"
  proof cases
    case 1
    with d(3) assms(2) show ?thesis by (auto simp: task_done_def attempts_Cons)
  next
    case 2
    with accounted_other(2) [of "[]" l r x t] dist d(2) show ?thesis by (simp add: task_done_Cons)
  qed
qed

definition log_of :: "ring \<Rightarrow> string list \<Rightarrow> 'w \<times> (int \<times> bool) list \<Rightarrow> string list \<times> ring \<times> 'w \<times> (int \<times> bool) list \<Rightarrow> bool" where
  "log_of q names wl res \<longleftrightarrow> (case res of (names', q', w', log') \<Rightarrow>
     \<exists>d. log' = snd wl @ d \<and> ring_tasks q' = [] \<and> accounted d (ring_tasks q) \<and>
       length names' = length names + length (filter snd d))"

lemma log_of_Cons:
  assumes "log_of q1 names1 (w', log @ [e]) res"
    and "\<And>d. accounted d (ring_tasks q1) \<Longrightarrow> accounted (e # d) (ring_tasks q)"
    and "length names1 = length names + (if snd e then 1 else 0)"
  shows "log_of q names (w, log) res"
proof -
  obtain names' q' w2 log' where res: "res = (names', q', w2, log')" by (metis prod_cases4)
  with assms(1) obtain d where "log' = log @ e # d" "ring_tasks q' = []" "accounted d (ring_tasks q1)"
    "length names' = length names1 + length (filter snd d)" by (auto simp: log_of_def)
  with assms(2) [of d] assms(3) show ?thesis
    unfolding log_of_def res prod.case by (intro exI [of _ "e # d"]) auto
qed

lemma do_tasks_log:
  "do_tasks (logged proc) q names wl = Some res \<Longrightarrow> log_of q names wl res"
proof (induction rule: do_tasks_induct)
  case (finish q names wl)
  then show ?case by (cases wl) (auto simp: log_of_def accounted_def)
next
  case (drop q l x r names wl err wl' res)
  then obtain w log w' where "wl = (w, log)" "wl' = (w', log @ [(TaskID x, False)])"
    by (cases wl) (auto simp: logged_Some)
  with drop log_of_Cons [of "(l, r)" names w' log "(TaskID x, False)" res q names w] accounted_last
  show ?case by (auto simp: ring_tasks_def)
next
  case (retry q l x r names wl err wl' res)
  then obtain w log w' where "wl = (w, log)" "wl' = (w', log @ [(TaskID x, False)])"
    by (cases wl) (auto simp: logged_Some)
  with retry log_of_Cons [of "(l @ [x\<lparr>Retry := Retry x - 1\<rparr>], r)" names w' log "(TaskID x, False)" res q names w]
    accounted_retry
  show ?case by (auto simp: ring_tasks_def)
next
  case (success q l x r names wl name wl' res)
  then obtain w log w' where "wl = (w, log)" "wl' = (w', log @ [(TaskID x, True)])"
    by (cases wl) (auto simp: logged_Some)
  with success log_of_Cons [of "(l, r)" "names @ [name]" w' log "(TaskID x, True)" res q names w] accounted_last
  show ?case by (auto simp: ring_tasks_def)
qed

text \<open>
  The contract of a task processor (\<open>TaskProssesor\<close>): in a good state it handles every safe task without a panic
  and leaves a good state; being safe does not depend on the number of retries left.
\<close>

locale task_processor =
  fixes proc :: "'w processor" and good :: "'w \<Rightarrow> bool" and safe :: "Task \<Rightarrow> bool"
  assumes runs: "good w \<Longrightarrow> safe t \<Longrightarrow> \<exists>r w'. proc w t = Some (r, w') \<and> good w'"
    and safe_retry: "safe t \<Longrightarrow> safe (t\<lparr>Retry := n\<rparr>)"
begin

lemma do_tasks_returns:
  "good w \<Longrightarrow> \<forall>t \<in> set (ring_tasks q). safe t \<Longrightarrow>
     \<exists>names' q' w'. do_tasks proc q names w = Some (names', q', w') \<and> ring_tasks q' = [] \<and> good w'"
proof (induction "ring_work (ring_tasks q)" arbitrary: q names w rule: less_induct)
  case less
  show ?case
  proof (cases rule: ring_cases [of q])
    case 1
    then show ?thesis using less.prems by (simp add: do_tasks_done)
  next
    case (2 l x r)
    have work: "ring_work (ring_tasks (l, r)) < ring_work (ring_tasks q)"
      "Retry x > 0 \<Longrightarrow> ring_work (ring_tasks (l @ [x\<lparr>Retry := Retry x - 1\<rparr>], r)) < ring_work (ring_tasks q)"
      unfolding 2(2) by (simp_all add: ring_work_def ring_tasks_def)
    have safe: "\<forall>t \<in> set (ring_tasks (l, r)). safe t" "\<forall>t \<in> set (ring_tasks (l @ [x\<lparr>Retry := Retry x - 1\<rparr>], r)). safe t"
      using less.prems(2) safe_retry unfolding 2(2) by (auto simp: ring_tasks_def)
    obtain p w' where p: "proc w x = Some (p, w')" "good w'"
      using runs [OF less.prems(1), of x] less.prems(2) 2(2) by auto
    then show ?thesis
      using less.hyps [OF work(1) p(2) safe(1)] less.hyps [OF work(2) p(2) safe(2)]
        do_tasks_step [OF 2(1), of proc names w] by (cases p) auto
  qed
qed

lemma DoTasks_returns:
  assumes "good w" and "\<And>q. Ring t = Some q \<Longrightarrow> \<forall>x \<in> set (ring_tasks q). safe x"
  shows "\<exists>names t' w'. DoTasks proc t w = Some (Inr names, t', w') \<and> (\<forall>q. Ring t' = Some q \<longrightarrow> ring_tasks q = []) \<and> good w'"
proof (cases "Ring t")
  case None
  then show ?thesis using assms(1) by (simp add: DoTasks_def)
next
  case (Some q)
  obtain names q' w' where "do_tasks proc q [] w = Some (names, q', w')" "ring_tasks q' = []" "good w'"
    using do_tasks_returns [OF assms(1) assms(2) [OF Some]] by metis
  with Some show ?thesis by (auto simp: DoTasks_def)
qed

end

text \<open>
  A processor whose safe tasks always succeed: the tasks run once each, from the current one on and then from the
  start of the ring.
\<close>

locale successful_processor = task_processor +
  fixes run :: "Task \<Rightarrow> 'a \<Rightarrow> 'a" and nm :: "Task \<Rightarrow> string"
  assumes succeeds: "good w \<Longrightarrow> safe t \<Longrightarrow> proc w t = Some (Inr (nm t), run t w)"
begin

lemma good_run: "good w \<Longrightarrow> safe t \<Longrightarrow> good (run t w)"
  using runs [of w t] succeeds [of w t] by auto

lemma do_tasks_all:
  "good w \<Longrightarrow> \<forall>t \<in> set (ring_tasks q). safe t \<Longrightarrow>
     \<exists>q'. do_tasks proc q names w = Some (names @ map nm (snd q @ fst q), q', fold run (snd q @ fst q) w) \<and> ring_tasks q' = []"
proof (induction "length (ring_tasks q)" arbitrary: q names w)
  case 0
  then show ?case by (cases q) (simp add: do_tasks_done ring_tasks_def)
next
  case (Suc n)
  then obtain l x r where q: "skip_head q = (l, x # r)" "ring_tasks q = l @ x # r" by (cases rule: ring_cases [of q]) auto
  then have order: "snd q @ fst q = x # r @ l"
    by (cases q; cases "snd q") (auto simp: skip_head_def)
  have x: "safe x" "proc w x = Some (Inr (nm x), run x w)"
    using Suc.prems q(2) succeeds by auto
  have len: "n = length (ring_tasks (l, r))" using Suc.hyps(2) unfolding q(2) by (simp add: ring_tasks_def)
  have safe: "\<forall>t \<in> set (ring_tasks (l, r)). safe t" using Suc.prems(2) unfolding q(2) by (auto simp: ring_tasks_def)
  from Suc.hyps(1) [OF len good_run [OF Suc.prems(1) x(1)] safe, of "names @ [nm x]"]
  show ?case by (simp add: do_tasks_step [OF q(1)] x(2) order)
qed

end

subsection \<open>Properties\<close>

text \<open>
  C11. \<open>DoTasks\<close> terminates: with a processor that does not panic it returns, with a nil error, and leaves
  no task in the ring, whatever the processor answers.
\<close>

theorem do_tasks_terminates:
  assumes "\<forall>w t. proc w t \<noteq> None"
  shows "\<exists>names t' w'. DoTasks proc t w = Some (Inr names, t', w') \<and> (\<forall>q. Ring t' = Some q \<longrightarrow> ring_tasks q = [])"
proof -
  have "task_processor proc (\<lambda>_. True) (\<lambda>_. True)" using assms by unfold_locales auto
  from task_processor.DoTasks_returns [OF this, where w = w and t = t] show ?thesis by blast
qed

definition flaky :: "nat processor" where
  "flaky w t = Some (if w < 2 then Inl (errorf ''busy'') else Inr ''ok'', Suc w)"

definition one_task :: Tasks where
  "one_task = AddTasks (\<lambda>i. 7) NewTasks (Some [a_container ''c'' [''/c'']]) TaskTypeStopContainer"

theorem do_tasks_terminates_witness:
  "\<exists>names t' w'. DoTasks flaky one_task 0 = Some (Inr names, t', w') \<and> (\<forall>q. Ring t' = Some q \<longrightarrow> ring_tasks q = [])"
  by (rule do_tasks_terminates) (simp add: flaky_def)

text \<open>
  C12. Retries: when the tasks of the ring have different identifiers, every task is either performed
  successfully exactly once, after at most as many failures as it has retries, or fails one time more than it has
  retries and is given up; nothing else is run, and one name is returned for every success.
\<close>

theorem do_tasks_accounting:
  assumes "Ring t = Some q" and "distinct (map TaskID (ring_tasks q))"
    and "DoTasks (logged proc) t (w, []) = Some (Inr names, t', w', log)"
  shows "fst ` set log \<subseteq> TaskID ` set (ring_tasks q) \<and> (\<forall>x \<in> set (ring_tasks q). task_done log x) \<and>
    length names = length (filter snd log)"
proof -
  from assms(1,3) obtain q' where "do_tasks (logged proc) q [] (w, []) = Some (names, q', w', log)"
    by (auto simp: DoTasks_def split: bind_splits)
  from do_tasks_log [OF this] assms(2) show ?thesis by (auto simp: log_of_def accounted_def)
qed

lemma one_task_ring: "Ring one_task = Some ([], [new_task 7 TaskTypeStopContainer (a_container ''c'' [''/c''])])"
  by (simp add: one_task_def AddTasks_def NewTasks_def new_tasks_def enumerate_eq_zip)

theorem do_tasks_accounting_witness:
  "task_done [(7, False), (7, False), (7, True)] (new_task 7 TaskTypeStopContainer (a_container ''c'' [''/c'']))"
proof -
  have "DoTasks (logged flaky) one_task (0, []) =
      Some (Inr [''ok''], \<lparr>Ring = Some ([], [])\<rparr>, 3, [(7, False), (7, False), (7, True)])"
    by (simp add: DoTasks_def one_task_ring do_tasks.simps ring_Len_def skip_head_def logged_def flaky_def
        new_task_def DefaultTaskRetry_def)
  from do_tasks_accounting [OF one_task_ring _ this] show ?thesis by (simp add: ring_tasks_def)
qed

text \<open>
  Adding a non-nil slice of containers to the ring adds one task for each of them and keeps the
  tasks that were there, except when the ring exists and holds no task: then all of them are dropped.
\<close>

lemma add_tasks_content:
  "\<exists>q. Ring (AddTasks rid t (Some cs) taskType) = Some q \<and>
     mset (ring_tasks q) =
       (case Ring t of
          None \<Rightarrow> mset (new_tasks rid cs taskType)
        | Some q0 \<Rightarrow> if ring_tasks q0 = [] then {#} else mset (ring_tasks q0) + mset (new_tasks rid cs taskType))"
proof (cases "Ring t")
  case None
  then show ?thesis by (simp add: AddTasks_def ring_tasks_def)
next
  case (Some q0)
  show ?thesis
  proof (cases "ring_tasks q0 = []")
    case True
    with Some show ?thesis by (simp add: AddTasks_def ring_Len_tasks)
  next
    case False
    with Some have "Ring (AddTasks rid t (Some cs) taskType) =
        Some (ring_rewind (fold ring_link (new_tasks rid cs taskType) q0))"
      by (simp add: AddTasks_def ring_Len_tasks)
    with Some False show ?thesis by (simp add: fold_link_mset)
  qed
qed

end
