(* ===== verification/Scale_Filter.thy ===== *)
theory Scale_Filter
  imports Task_Ring
begin

section \<open>Selecting containers to scale (\<open>cluster/swarm/filter.go\<close>)\<close>

text \<open>
  The four filters of a scale item that share \<open>ContainerFilterBase\<close>. The field \<open>containers\<close> starts as all
  containers of the cluster and \<open>Filter\<close> replaces it by the selection; a nil slice is \<open>None\<close>, an empty
  one is \<open>Some []\<close>, which \<open>AddTasks\<close> tells apart. Slicing can panic, hence the option around the results. The map
  from applications to containers is an association list in the order of first insertion; Go
  iterates over it in any order.
\<close>

subsection \<open>The base filter\<close>

record ContainerFilterBase =
  fb_item :: ScaleItem
  fb_containers :: "Containers option"
  filterType :: string
  fb_taskType :: int
  fb_filters :: "Filter list"

definition slice_elems :: "'a list option \<Rightarrow> 'a list" where
  "slice_elems s = (case s of None \<Rightarrow> [] | Some xs \<Rightarrow> xs)"

text \<open>The slice that appending elements one by one to a nil slice gives.\<close>

definition appended :: "'a list \<Rightarrow> 'a list option" where
  "appended xs = (if xs = [] then None else Some xs)"

definition scale_amount :: "ScaleItem \<Rightarrow> int" where
  "scale_amount item = (if Number item < 0 then i64 (- Number item) else Number item)"

definition base_filterContainer :: "regexp \<Rightarrow> int \<Rightarrow> Filter list \<Rightarrow> Container \<Rightarrow> bool" where
  "base_filterContainer re taskType fs c =
     (if taskType = TaskTypeDestroyContainer then filterContainer re fs c
      else if taskType = TaskTypeCreateContainer then filterContainer re fs c
      else if taskType = TaskTypeStopContainer then
        filterContainer re fs c \<and> (State c = ''paused'' \<or> State c = ''running'')
      else if taskType = TaskTypeStartContainer then
        filterContainer re fs c \<and>
          (State c = ''paused'' \<or> State c = ''created'' \<or> State c = ''restarting'' \<or> State c = ''exited'')
      else filterContainer re fs c)"

definition container_min :: "Container \<Rightarrow> int" where
  "container_min c = getMinNum (Env (c_Config c))"

subsubsection \<open>Services\<close>

definition add_to_app :: "int \<Rightarrow> string \<Rightarrow> Container \<Rightarrow> (string \<times> Containers) list \<Rightarrow> (string \<times> Containers) list" where
  "add_to_app n app c apps =
     (case map_of apps app of
        None \<Rightarrow> AList.update app [c] apps
      | Some cs \<Rightarrow>
          if int (length cs) < i64 (n + container_min (cs ! 0)) then AList.update app (cs @ [c]) apps else apps)"

text \<open>\<open>None\<close> is the early return for a matching container without the label \<open>app\<close>.\<close>

fun group_by_app ::
    "(Container \<Rightarrow> bool) \<Rightarrow> int \<Rightarrow> Containers \<Rightarrow> (string \<times> Containers) list \<Rightarrow> (string \<times> Containers) list option" where
  "group_by_app P n [] apps = Some apps"
| "group_by_app P n (c # cs) apps =
     (if P c then
        (case c_Labels c ''app'' of
           None \<Rightarrow> None
         | Some app \<Rightarrow> group_by_app P n cs (add_to_app n app c apps))
      else group_by_app P n cs apps)"

definition app_selection :: "int \<Rightarrow> Containers \<Rightarrow> Containers option" where
  "app_selection n v = do {
     c0 \<leftarrow> index v 0;
     let minNum = container_min c0;
     if int (length v) \<ge> i64 (n + minNum) then slice_to v n else slice_from v minNum }"

fun select_apps :: "int \<Rightarrow> (string \<times> Containers) list \<Rightarrow> Containers option" where
  "select_apps n [] = Some []"
| "select_apps n ((app, v) # apps) = do {
     xs \<leftarrow> app_selection n v;
     ys \<leftarrow> select_apps n apps;
     Some (xs @ ys) }"

definition base_filterService :: "regexp \<Rightarrow> ContainerFilterBase \<Rightarrow> (Containers option \<times> ContainerFilterBase) option" where
  "base_filterService re f =
     (let n = scale_amount (fb_item f);
          P = base_filterContainer re (fb_taskType f) (fb_filters f)
      in case group_by_app P n (slice_elems (fb_containers f)) [] of
           None \<Rightarrow> Some (None, f)
         | Some apps \<Rightarrow> do {
             xs \<leftarrow> select_apps n apps;
             Some (appended xs, f\<lparr>fb_containers := appended xs\<rparr>) })"

subsubsection \<open>Containers\<close>

fun constrained :: "regexp \<Rightarrow> string list \<Rightarrow> Containers \<Rightarrow> Containers option" where
  "constrained re envs [] = Some []"
| "constrained re envs (c # cs) = do {
     b \<leftarrow> filterConstraintNodeByENVs re (c_Engine c) envs;
     out \<leftarrow> constrained re envs cs;
     Some (if b then c # out else out) }"

definition filterConstraintContainers ::
    "regexp \<Rightarrow> Containers option \<Rightarrow> string list \<Rightarrow> Containers option option" where
  "filterConstraintContainers re inp envs =
     (if \<not> hasConstraint envs then Some inp
      else map_option appended (constrained re envs (slice_elems inp)))"

text \<open>
  The loop with its early exit: the containers kept, the minimum read last and whether the loop was left early.
\<close>

fun take_matching ::
    "(Container \<Rightarrow> bool) \<Rightarrow> int \<Rightarrow> Containers \<Rightarrow> Containers \<Rightarrow> int \<Rightarrow> (Containers \<times> int \<times> bool) option" where
  "take_matching P n [] acc minNum = Some (acc, minNum, False)"
| "take_matching P n (c # cs) acc minNum =
     (if P c then
        (let minNum' = container_min c in
         if int (length acc) + 1 \<ge> i64 (n + minNum')
         then map_option (\<lambda>xs. (xs, minNum', True)) (slice_to (acc @ [c]) n)
         else take_matching P n cs (acc @ [c]) minNum')
      else take_matching P n cs acc minNum)"

definition scale_selection ::
    "(Container \<Rightarrow> bool) \<Rightarrow> int \<Rightarrow> int \<Rightarrow> Containers \<Rightarrow> Containers option" where
  "scale_selection P n minNum0 cs = do {
     (acc, minNum, left) \<leftarrow> take_matching P n cs [] minNum0;
     if int (length acc) < i64 (n + minNum) \<and> \<not> left then slice_from acc minNum else Some acc }"

definition base_filterContainers :: "regexp \<Rightarrow> ContainerFilterBase \<Rightarrow> (Containers option \<times> ContainerFilterBase) option" where
  "base_filterContainers re f = do {
     cs \<leftarrow> filterConstraintContainers re (fb_containers f) (ENVs (fb_item f));
     let P = base_filterContainer re (fb_taskType f) (fb_filters f);
     xs \<leftarrow> scale_selection P (scale_amount (fb_item f)) 0 (slice_elems cs);
     let res = (if list_ex P (slice_elems cs) then Some xs else None);
     Some (res, f\<lparr>fb_containers := res\<rparr>) }"

definition base_Filter :: "regexp \<Rightarrow> ContainerFilterBase \<Rightarrow> (Containers option \<times> ContainerFilterBase) option" where
  "base_Filter re f = (if filterType f = ''service'' then base_filterService re f else base_filterContainers re f)"

definition base_AddTasks :: "(nat \<Rightarrow> int) \<Rightarrow> ContainerFilterBase \<Rightarrow> Tasks \<Rightarrow> Tasks" where
  "base_AddTasks rid f t = AddTasks rid t (fb_containers f) (fb_taskType f)"

subsection \<open>Creating\<close>

fun app_representatives ::
    "(Container \<Rightarrow> bool) \<Rightarrow> Containers \<Rightarrow> (string \<times> Container) list \<Rightarrow> (string \<times> Container) list option" where
  "app_representatives P [] m = Some m"
| "app_representatives P (c # cs) m =
     (if P c then
        (case c_Labels c ''app'' of
           Some app \<Rightarrow> app_representatives P cs (AList.update app c m)
         | None \<Rightarrow> None)
      else app_representatives P cs m)"

definition create_filterService :: "regexp \<Rightarrow> ContainerFilterBase \<Rightarrow> Containers option \<times> ContainerFilterBase" where
  "create_filterService re f =
     (case app_representatives (filterContainer re (fb_filters f)) (slice_elems (fb_containers f)) [] of
        None \<Rightarrow> (None, f)
      | Some m \<Rightarrow> (let temp = appended (map snd m) in (temp, f\<lparr>fb_containers := temp\<rparr>)))"

definition with_constraints :: "string list \<Rightarrow> Container \<Rightarrow> Container" where
  "with_constraints envs c =
     (if hasConstraint envs \<and> length (getConstaintStrings envs) > 0 then
        c\<lparr>c_Config := (c_Config c)\<lparr>Labels :=
          (Labels (c_Config c))(swarm_key ''constraints'' \<mapsto> json_marshal (getConstaintStrings envs))\<rparr>\<rparr>
      else c)"

definition create_filterContainers :: "regexp \<Rightarrow> ContainerFilterBase \<Rightarrow> Containers option \<times> ContainerFilterBase" where
  "create_filterContainers re f =
     (case first_such (base_filterContainer re (fb_taskType f) (fb_filters f)) (slice_elems (fb_containers f)) of
        None \<Rightarrow> (None, f)
      | Some c \<Rightarrow>
          let res = Some [with_constraints (ENVs (fb_item f)) c] in (res, f\<lparr>fb_containers := res\<rparr>))"

definition create_Filter :: "regexp \<Rightarrow> ContainerFilterBase \<Rightarrow> Containers option \<times> ContainerFilterBase" where
  "create_Filter re f =
     (if filterType f = ''service'' then create_filterService re f else create_filterContainers re f)"

text \<open>The message at the start reads \<open>f.containers[0]\<close>.\<close>

definition create_AddTasks :: "(nat \<Rightarrow> nat \<Rightarrow> int) \<Rightarrow> ContainerFilterBase \<Rightarrow> Tasks \<Rightarrow> Tasks option" where
  "create_AddTasks rids f t =
     (if slice_elems (fb_containers f) = [] then None
      else Some (fold (\<lambda>i t. AddTasks (rids i) t (fb_containers f) TaskTypeCreateContainer)
             [0 ..< nat (Number (fb_item f))] t))"

subsection \<open>Starting\<close>

fun take_first :: "(Container \<Rightarrow> bool) \<Rightarrow> int \<Rightarrow> Containers \<Rightarrow> Containers \<Rightarrow> Containers option" where
  "take_first P n [] acc = Some acc"
| "take_first P n (c # cs) acc =
     (if P c then
        (if int (length acc) + 1 \<ge> n then slice_to (acc @ [c]) n else take_first P n cs (acc @ [c]))
      else take_first P n cs acc)"

definition start_filterContainers :: "regexp \<Rightarrow> ContainerFilterBase \<Rightarrow> (Containers option \<times> ContainerFilterBase) option" where
  "start_filterContainers re f = do {
     let P = base_filterContainer re (fb_taskType f) (fb_filters f);
     xs \<leftarrow> take_first P (scale_amount (fb_item f)) (slice_elems (fb_containers f)) [];
     let res = (if list_ex P (slice_elems (fb_containers f)) then Some xs else None);
     Some (res, f\<lparr>fb_containers := res\<rparr>) }"

definition start_Filter :: "regexp \<Rightarrow> ContainerFilterBase \<Rightarrow> (Containers option \<times> ContainerFilterBase) option" where
  "start_Filter re f = (if filterType f = ''service'' then base_filterService re f else start_filterContainers re f)"

definition start_AddTasks :: "(nat \<Rightarrow> nat \<Rightarrow> int) \<Rightarrow> ContainerFilterBase \<Rightarrow> Tasks \<Rightarrow> Tasks" where
  "start_AddTasks rids f t =
     (let cs = slice_elems (fb_containers f);
          t1 = AddTasks (rids 0) t (fb_containers f) (fb_taskType f)
      in if int (length cs) < Number (fb_item f) \<and> length cs > 0
         then fold (\<lambda>i t. AddTasks (rids (Suc i)) t (Some (take 1 cs)) TaskTypeCreateContainer)
                [length cs ..< nat (Number (fb_item f))] t1
         else t1)"

definition IsResourceSeize :: "ScaleItem \<Rightarrow> bool" where
  "IsResourceSeize item \<longleftrightarrow>
     list_ex (\<lambda>e. HasPrefix e ''affinity'' \<and> Contains e ''!='') (ENVs item) \<and>
     list_ex (\<lambda>e. HasPrefix e ''constraint'') (ENVs item) \<and> Number item > 0"

subsection \<open>The filter of the cluster (\<open>Cluster.filterContainer\<close>)\<close>

text \<open>
  A version of the same selections in one method, with the minimum starting at 1 when there is no
  service; nothing calls it.
\<close>

definition Cluster_filterContainer :: "regexp \<Rightarrow> Containers \<Rightarrow> string list \<Rightarrow> int \<Rightarrow> Containers option" where
  "Cluster_filterContainer re cs f n = do {
     r \<leftarrow> parseFilterString f;
     (case r of
        Inl _ \<Rightarrow> Some []
      | Inr fs \<Rightarrow>
          let P = filterContainer re fs in
          if n > 0 then
            (if \<not> hasPrifix f ''service'' then
               Some (case first_such P cs of None \<Rightarrow> [] | Some c \<Rightarrow> [c])
             else Some (case app_representatives P cs [] of None \<Rightarrow> [] | Some m \<Rightarrow> map snd m))
          else if n < 0 then
            (if hasPrifix f ''service'' then
               (case group_by_app P (i64 (- n)) cs [] of
                  None \<Rightarrow> Some []
                | Some apps \<Rightarrow> select_apps (i64 (- n)) apps)
             else scale_selection P (i64 (- n)) 1 cs)
          else Some []) }"

subsection \<open>Lemmas\<close>

lemma i64_sum: "0 \<le> a \<Longrightarrow> a < 2 ^ 63 \<Longrightarrow> i64 a = a"
  by (simp add: in_i64_def)

lemma take_matching_eq:
  assumes "\<forall>c \<in> set cs. P c \<longrightarrow> container_min c = m" and "0 \<le> m" and "0 < n" and "n + m < 2 ^ 63"
    and "int (length acc) < n + m"
  shows "take_matching P n cs acc mn =
    (let ms = acc @ filter P cs in
     if int (length ms) \<ge> n + m then Some (take (nat n) ms, m, True)
     else Some (ms, if filter P cs = [] then mn else m, False))"
  using assms(1,5)
proof (induction cs arbitrary: acc mn)
  case Nil
  then show ?case by simp
next
  case (Cons c cs)
  have nm: "i64 (n + m) = n + m" using assms(2-4) by (intro i64_sum) auto
  show ?case
  proof (cases "P c")
    case False
    with Cons show ?thesis by simp
  next
    case P: True
    show ?thesis
    proof (cases "int (length acc) + 1 \<ge> n + m")
      case True
      have "slice_to (acc @ [c]) n = Some (take (nat n) (acc @ [c]))"
        using True assms(2,3) by (simp add: slice_to_def)
      moreover have "take (nat n) ((acc @ [c]) @ filter P cs) = take (nat n) (acc @ [c])"
        using True assms(2,3) unfolding take_append by simp
      ultimately show ?thesis using P True Cons.prems(1) nm by (simp add: Let_def)
    next
      case False
      with P Cons.IH [of "acc @ [c]" m] Cons.prems(1) nm show ?thesis by (simp add: Let_def)
    qed
  qed
qed

lemma scale_selection_eq:
  assumes "\<forall>c \<in> set cs. P c \<longrightarrow> container_min c = m" and "0 \<le> m" and "0 < n" and "n + m < 2 ^ 63"
    and "filter P cs \<noteq> []"
  shows "scale_selection P n mn cs =
    (let ms = filter P cs in
     if int (length ms) \<ge> n + m then Some (take (nat n) ms) else slice_from ms m)"
  using take_matching_eq [OF assms(1-4), of "[]" mn] assms(2-5) i64_sum [of "n + m"]
  by (simp add: scale_selection_def Let_def)

lemma scale_selection_none:
  assumes "filter P cs = []" and "0 < n" and "n < 2 ^ 63"
  shows "scale_selection P n 0 cs = Some []"
proof -
  have "take_matching P n cs acc mn = Some (acc, mn, False)" for acc mn
    using assms(1) by (induction cs arbitrary: acc mn) (auto split: if_splits)
  then show ?thesis using assms(2,3) i64_sum [of n] by (simp add: scale_selection_def slice_from_def)
qed

text \<open>The size of a selection and what it leaves.\<close>

lemma scale_selection_size:
  assumes "\<forall>c \<in> set cs. P c \<longrightarrow> container_min c = m" and "0 \<le> m" and "0 < n" and "n + m < 2 ^ 63"
    and "m \<le> int (length (filter P cs))"
  shows "\<exists>xs. scale_selection P n 0 cs = Some xs \<and> subseq xs (filter P cs) \<and>
    int (length xs) = min n (int (length (filter P cs)) - m)"
proof (cases "filter P cs = []")
  case True
  with assms show ?thesis by (simp add: scale_selection_none)
next
  case False
  note eq = scale_selection_eq [OF assms(1-4) False, of 0]
  show ?thesis
  proof (cases "int (length (filter P cs)) \<ge> n + m")
    case True
    with eq assms(2,3) show ?thesis by (auto simp: Let_def min_def prefix_imp_subseq take_is_prefix)
  next
    case False
    with eq assms(2,5) show ?thesis
      by (simp add: Let_def slice_from_def min_def suffix_imp_subseq suffix_drop)
  qed
qed

definition app_matches :: "(Container \<Rightarrow> bool) \<Rightarrow> string \<Rightarrow> Containers \<Rightarrow> Containers" where
  "app_matches P a cs = filter (\<lambda>c. P c \<and> c_Labels c ''app'' = Some a) cs"

lemma group_by_app_eq:
  assumes "\<forall>c \<in> set (dn @ cs). P c \<longrightarrow> (\<exists>a. c_Labels c ''app'' = Some a \<and> container_min c = m a)"
    and "\<forall>a. 0 \<le> m a \<and> n + m a < 2 ^ 63" and "0 < n"
    and "distinct (map fst apps)"
    and "\<forall>a. map_of apps a = (let xs = app_matches P a dn in if xs = [] then None else Some (take (nat (n + m a)) xs))"
  shows "\<exists>apps'. group_by_app P n cs apps = Some apps' \<and> distinct (map fst apps') \<and>
    (\<forall>a. map_of apps' a =
      (let xs = app_matches P a (dn @ cs) in if xs = [] then None else Some (take (nat (n + m a)) xs)))"
  using assms(1,4,5)
proof (induction cs arbitrary: apps dn)
  case (Cons c cs)
  show ?case
  proof (cases "P c")
    case False
    with Cons.IH [of "dn @ [c]" apps] Cons.prems show ?thesis by (simp add: app_matches_def)
  next
    case True
    with Cons.prems(1) obtain a where a: "c_Labels c ''app'' = Some a" "container_min c = m a" by auto
    have hd_min: "container_min (app_matches P a dn ! 0) = m a" if "app_matches P a dn \<noteq> []"
    proof -
      from that have "app_matches P a dn ! 0 \<in> set (app_matches P a dn)" by (intro nth_mem) simp
      with Cons.prems(1) show ?thesis by (fastforce simp: app_matches_def)
    qed
    have nm: "i64 (n + m a) = n + m a" using assms(2,3) by (intro i64_sum) (auto simp: add_nonneg_nonneg order_less_imp_le)
    have pos: "0 < nat (n + m a)" using assms(2,3) by (simp add: add_pos_nonneg)
    have step: "map_of (add_to_app n a c apps) b =
        (let xs = app_matches P b (dn @ [c]) in if xs = [] then None else Some (take (nat (n + m b)) xs))" for b
    proof (cases "b = a")
      case False
      with a have "app_matches P b (dn @ [c]) = app_matches P b dn" by (simp add: app_matches_def)
      with False Cons.prems(3) show ?thesis by (simp add: add_to_app_def split: option.splits)
    next
      case b: True
      define xs where "xs = app_matches P a dn"
      have new: "app_matches P a (dn @ [c]) = xs @ [c]" using True a by (simp add: app_matches_def xs_def)
      have old: "map_of apps a = (if xs = [] then None else Some (take (nat (n + m a)) xs))"
        using Cons.prems(3) by (simp add: xs_def Let_def)
      have "xs \<noteq> [] \<Longrightarrow> container_min (take (nat (n + m a)) xs ! 0) = m a" using hd_min pos by (simp add: xs_def)
      then show ?thesis
        unfolding b new add_to_app_def old using nm pos old by (auto simp: Let_def)
    qed
    show ?thesis
      using Cons.IH [of "dn @ [c]" "add_to_app n a c apps"] Cons.prems step True a
      by (auto simp: add_to_app_def split: option.splits)
  qed
qed simp

lemma select_apps_eq:
  assumes "distinct (map fst apps)"
    and "\<forall>(a, v) \<in> set apps. \<exists>xs. app_selection n v = Some xs"
    and "\<forall>(a, v) \<in> set apps. \<forall>c \<in> set v. c_Labels c ''app'' = Some a"
  shows "\<exists>ys. select_apps n apps = Some ys \<and>
    (\<forall>a. filter (\<lambda>c. c_Labels c ''app'' = Some a) ys =
      (case map_of apps a of None \<Rightarrow> [] | Some v \<Rightarrow> the (app_selection n v))) \<and>
    (\<forall>c \<in> set ys. \<exists>(a, v) \<in> set apps. c \<in> set v)"
  using assms
proof (induction apps)
  case (Cons av apps)
  obtain a v where av: "av = (a, v)" by force
  from Cons.prems(2) obtain xs where xs: "app_selection n v = Some xs" by (auto simp: av)
  then have sub: "set xs \<subseteq> set v"
    by (auto simp: app_selection_def Let_def slice_to_def slice_from_def dest: in_set_takeD in_set_dropD split: bind_splits if_splits)
  from Cons obtain ys where ys: "select_apps n apps = Some ys"
    "\<forall>a. filter (\<lambda>c. c_Labels c ''app'' = Some a) ys =
      (case map_of apps a of None \<Rightarrow> [] | Some v \<Rightarrow> the (app_selection n v))"
    "\<forall>c \<in> set ys. \<exists>(a, v) \<in> set apps. c \<in> set v" by auto
  have "map_of apps a = None" using Cons.prems(1) by (simp add: av map_of_eq_None_iff)
  moreover have "filter (\<lambda>c. c_Labels c ''app'' = Some b) xs = (if b = a then xs else [])" for b
    using sub Cons.prems(3) by (auto simp: av filter_empty_conv filter_id_conv)
  ultimately show ?case using ys xs sub by (auto simp: av)
qed simp

lemma app_selection_eq:
  assumes "0 \<le> m" and "0 < n" and "n + m < 2 ^ 63" and "xs \<noteq> []" and "container_min (xs ! 0) = m"
    and "m \<le> int (length xs)"
  shows "\<exists>ys. app_selection n (take (nat (n + m)) xs) = Some ys \<and> subseq ys xs \<and>
    int (length ys) = min n (int (length xs) - m)"
proof (cases "int (length xs) \<ge> n + m")
  case True
  then have "app_selection n (take (nat (n + m)) xs) = Some (take (nat n) xs)"
    using assms i64_sum [of "n + m"] by (simp add: app_selection_def index_def Let_def slice_to_def min_def)
  with True assms(1,2) show ?thesis by (auto simp: min_def prefix_imp_subseq take_is_prefix)
next
  case False
  then have "app_selection n (take (nat (n + m)) xs) = Some (drop (nat m) xs)"
    using assms i64_sum [of "n + m"] by (simp add: app_selection_def index_def Let_def slice_from_def)
  with False assms show ?thesis by (simp add: min_def suffix_imp_subseq suffix_drop)
qed

lemma service_selection:
  assumes "\<forall>c \<in> set cs. P c \<longrightarrow> (\<exists>a. c_Labels c ''app'' = Some a \<and> container_min c = m a)"
    and "\<forall>a. 0 \<le> m a \<and> n + m a < 2 ^ 63 \<and> (app_matches P a cs \<noteq> [] \<longrightarrow> m a \<le> int (length (app_matches P a cs)))"
    and "0 < n"
  shows "\<exists>apps ys. group_by_app P n cs [] = Some apps \<and> select_apps n apps = Some ys \<and> (\<forall>c \<in> set ys. P c) \<and>
    (\<forall>a. subseq (app_matches P a ys) (app_matches P a cs) \<and>
      int (length (app_matches P a ys)) =
        (if app_matches P a cs = [] then 0 else min n (int (length (app_matches P a cs)) - m a)))"
proof -
  from group_by_app_eq [of "[]" cs P m n "[]"] assms obtain apps where
    apps: "group_by_app P n cs [] = Some apps" "distinct (map fst apps)"
    "\<And>a. map_of apps a = (let xs = app_matches P a cs in if xs = [] then None else Some (take (nat (n + m a)) xs))"
    by (auto simp: app_matches_def)
  have v: "app_matches P a cs \<noteq> [] \<and> v = take (nat (n + m a)) (app_matches P a cs)" if "(a, v) \<in> set apps" for a v
    using that apps(3) [of a] map_of_is_SomeI [OF apps(2) that] by (auto simp: Let_def split: if_splits)
  have sel: "\<exists>ys. app_selection n (take (nat (n + m a)) (app_matches P a cs)) = Some ys \<and> subseq ys (app_matches P a cs) \<and>
      int (length ys) = min n (int (length (app_matches P a cs)) - m a)" if "app_matches P a cs \<noteq> []" for a
  proof (rule app_selection_eq)
    from that have "app_matches P a cs ! 0 \<in> set (app_matches P a cs)" by (intro nth_mem) simp
    with assms(1) show "container_min (app_matches P a cs ! 0) = m a" by (fastforce simp: app_matches_def)
  qed (use assms that in auto)
  have "\<forall>(a, v) \<in> set apps. \<exists>xs. app_selection n v = Some xs" using v sel by fast
  moreover have lab: "\<forall>(a, v) \<in> set apps. \<forall>c \<in> set v. c_Labels c ''app'' = Some a \<and> P c"
  proof clarify
    fix a v c
    assume "(a, v) \<in> set apps" "c \<in> set v"
    with v [of a v] have "c \<in> set (app_matches P a cs)" by (auto dest: in_set_takeD)
    then show "c_Labels c ''app'' = Some a \<and> P c" by (simp add: app_matches_def)
  qed
  ultimately obtain ys where ys: "select_apps n apps = Some ys"
    "\<And>a. filter (\<lambda>c. c_Labels c ''app'' = Some a) ys =
      (case map_of apps a of None \<Rightarrow> [] | Some v \<Rightarrow> the (app_selection n v))"
    "\<forall>c \<in> set ys. \<exists>(a, v) \<in> set apps. c \<in> set v"
    using select_apps_eq [OF apps(2), of n] by (auto simp: split_def)
  have P: "\<forall>c \<in> set ys. P c" using ys(3) lab by fast
  then have "app_matches P a ys = filter (\<lambda>c. c_Labels c ''app'' = Some a) ys" for a
    by (auto simp: app_matches_def intro: filter_cong)
  with ys(1) apps P sel show ?thesis
    by (intro exI [of _ apps] exI [of _ ys]) (auto simp: ys(2) Let_def, force+)
qed

lemma constrained_eq:
  "\<forall>c \<in> set cs. filterConstraintNodeByENVs re (c_Engine c) envs \<noteq> None \<Longrightarrow>
   constrained re envs cs = Some (filter (\<lambda>c. filterConstraintNodeByENVs re (c_Engine c) envs = Some True) cs)"
  by (induction cs) auto

subsection \<open>Properties\<close>

text \<open>
  C13. Scaling down keeps the minimum. A container matches when it passes the filters of the item and, if the
  item's environment has a constraint, its engine meets the constraints. Suppose that evaluating the constraints
  does not panic, that every matching container asks for the same minimum \<open>m\<close>, which is not negative and small
  enough not to overflow with the amount asked for, and that at least \<open>m\<close> containers match. Then the base filter
  does not panic either and selects, in order, as many matching containers as were asked for, but no more than
  those above the minimum.
\<close>

theorem scale_down_keeps_minimum:
  assumes "envs = ENVs (fb_item f)"
    and "\<forall>c. P c \<longleftrightarrow> base_filterContainer re (fb_taskType f) (fb_filters f) c \<and>
      (hasConstraint envs \<longrightarrow> filterConstraintNodeByENVs re (c_Engine c) envs = Some True)"
    and "fb_containers f = Some cs"
    and "hasConstraint envs \<longrightarrow> (\<forall>c \<in> set cs. filterConstraintNodeByENVs re (c_Engine c) envs \<noteq> None)"
    and "n = scale_amount (fb_item f)" and "0 < n"
    and "\<forall>c \<in> set cs. P c \<longrightarrow> container_min c = m" and "0 \<le> m" and "n + m < 2 ^ 63"
    and "m \<le> int (length (filter P cs))"
  shows "\<exists>res f'. base_filterContainers re f = Some (res, f') \<and> fb_containers f' = res \<and>
    subseq (slice_elems res) (filter P cs) \<and>
    int (length (slice_elems res)) = min n (int (length (filter P cs)) - m)"
proof -
  define B where "B = base_filterContainer re (fb_taskType f) (fb_filters f)"
  define ks where "ks = (if hasConstraint envs
    then filter (\<lambda>c. filterConstraintNodeByENVs re (c_Engine c) envs = Some True) cs else cs)"
  have ks: "filter B ks = filter P cs"
    unfolding ks_def using assms(2) by (auto simp: B_def intro: filter_cong)
  have kept: "\<exists>s. filterConstraintContainers re (fb_containers f) envs = Some s \<and> slice_elems s = ks"
    using assms(3,4) by (auto simp: filterConstraintContainers_def ks_def constrained_eq slice_elems_def appended_def)
  have "\<forall>c \<in> set ks. B c \<longrightarrow> container_min c = m"
    using assms(2,7) by (auto simp: ks_def B_def split: if_splits)
  from scale_selection_size [OF this assms(8,6,9)] assms(10) obtain xs where
    xs: "scale_selection B n 0 ks = Some xs" "subseq xs (filter P cs)"
    "int (length xs) = min n (int (length (filter P cs)) - m)" by (auto simp: ks)
  define res where "res = (if list_ex B ks then Some xs else None)"
  have "\<not> list_ex B ks \<Longrightarrow> filter B ks = []" by (auto simp: list_ex_iff filter_empty_conv)
  with xs(2) have "\<not> list_ex B ks \<Longrightarrow> xs = []" unfolding ks by (metis list_emb_Nil2)
  then have "slice_elems res = xs" by (auto simp: res_def slice_elems_def)
  moreover have "base_filterContainers re f = Some (res, f\<lparr>fb_containers := res\<rparr>)"
    using kept xs(1) assms(1,5) by (auto simp: base_filterContainers_def res_def Let_def B_def)
  ultimately show ?thesis using xs by simp
qed

definition web_container :: "string \<Rightarrow> string \<Rightarrow> Container" where
  "web_container i minimum = (a_container i [''/'' @ i])\<lparr>c_Labels := [''app'' \<mapsto> ''web''],
     c_Config := empty_config\<lparr>Env := [''MIN_NUMBER='' @ minimum]\<rparr>\<rparr>"

definition down_filter :: "int \<Rightarrow> ContainerFilterBase" where
  "down_filter k = \<lparr>fb_item = \<lparr>item_Filters = [''app==web''], Number = - k, ENVs = [], item_Labels = Map.empty\<rparr>,
     fb_containers = Some [web_container ''a'' ''1'', web_container ''b'' ''1'', web_container ''c'' ''1''],
     filterType = [], fb_taskType = TaskTypeDestroyContainer,
     fb_filters = [\<lparr>Key = ''app'', Operater = ''=='', Pattern = ''^web$''\<rparr>]\<rparr>"

lemma web_container_min: "container_min (web_container i ''1'') = 1" "container_min (web_container i ''5'') = 5"
proof -
  have "getMinNum [''MIN_NUMBER=1''] = 1" "getMinNum [''MIN_NUMBER=5''] = 5" by code_simp+
  then show "container_min (web_container i ''1'') = 1" "container_min (web_container i ''5'') = 5"
    by (simp_all add: container_min_def web_container_def empty_config_def)
qed

lemma web_container_match:
  "base_filterContainer exact_re TaskTypeDestroyContainer [\<lparr>Key = ''app'', Operater = ''=='', Pattern = ''^web$''\<rparr>]
     (web_container i m)"
  by (simp add: base_filterContainer_def filterContainer_def web_container_def exact_re_def)

theorem scale_down_keeps_minimum_witness:
  "\<exists>res f'. base_filterContainers exact_re (down_filter 5) = Some (res, f') \<and> length (slice_elems res) = 2"
proof -
  have "\<not> hasConstraint (ENVs (fb_item (down_filter 5)))" "scale_amount (fb_item (down_filter 5)) = 5"
    by (simp_all add: down_filter_def hasConstraint_def scale_amount_def i64_def)
  with scale_down_keeps_minimum [OF refl, where f = "down_filter 5" and re = exact_re and n = 5 and m = 1
      and P = "base_filterContainer exact_re TaskTypeDestroyContainer [\<lparr>Key = ''app'', Operater = ''=='', Pattern = ''^web$''\<rparr>]"
      and cs = "[web_container ''a'' ''1'', web_container ''b'' ''1'', web_container ''c'' ''1'']"]
  show ?thesis by (fastforce simp: down_filter_def web_container_min web_container_match)
qed

text \<open>
  The converse: when the matching containers are fewer than the minimum they ask for, scaling
  down panics with a slice out of range instead of selecting nothing.
\<close>

lemma scale_down_below_minimum_panics:
  assumes "P = base_filterContainer re (fb_taskType f) (fb_filters f)" and "fb_containers f = Some cs"
    and "\<not> hasConstraint (ENVs (fb_item f))" and "n = scale_amount (fb_item f)" and "0 < n"
    and "\<forall>c \<in> set cs. P c \<longrightarrow> container_min c = m" and "n + m < 2 ^ 63"
    and "int (length (filter P cs)) < m" and "filter P cs \<noteq> []"
  shows "base_filterContainers re f = None"
proof -
  have "0 \<le> m" using assms(8) by linarith
  with scale_selection_eq [OF assms(6) _ assms(5,7,9), of 0] assms(5,8) have "scale_selection P n 0 cs = None"
    by (simp add: Let_def slice_from_def)
  with assms(1-4) show ?thesis
    by (simp add: base_filterContainers_def filterConstraintContainers_def slice_elems_def)
qed

lemma scale_down_below_minimum_panics_witness:
  "base_filterContainers exact_re ((down_filter 1)\<lparr>fb_containers := Some [web_container ''a'' ''5'']\<rparr>) = None"
  by (rule scale_down_below_minimum_panics [OF refl, where n = 1 and m = 5 and cs = "[web_container ''a'' ''5'']"])
    (simp_all add: down_filter_def hasConstraint_def scale_amount_def i64_def web_container_min web_container_match)

text \<open>
  C14. Scaling a service down treats each application by itself. Suppose that every matching container carries
  the label \<open>app\<close>, that the matching containers of one application ask for the same minimum, which is not negative
  and does not overflow with the amount asked for, and that an application with a matching container has at
  least as many of them as its minimum. Then the filter does not panic and selects matching containers only: of
  each application as many as were asked for, but no more than those above its minimum.
\<close>

theorem service_scale_down_keeps_minimum:
  assumes "P = base_filterContainer re (fb_taskType f) (fb_filters f)" and "fb_containers f = Some cs"
    and "n = scale_amount (fb_item f)" and "0 < n"
    and "\<forall>c \<in> set cs. P c \<longrightarrow> (\<exists>a. c_Labels c ''app'' = Some a \<and> container_min c = m a)"
    and "\<forall>a. 0 \<le> m a \<and> n + m a < 2 ^ 63 \<and> (app_matches P a cs \<noteq> [] \<longrightarrow> m a \<le> int (length (app_matches P a cs)))"
  shows "\<exists>res f'. base_filterService re f = Some (res, f') \<and> fb_containers f' = res \<and> (\<forall>c \<in> set (slice_elems res). P c) \<and>
    (\<forall>a. subseq (app_matches P a (slice_elems res)) (app_matches P a cs) \<and>
      int (length (app_matches P a (slice_elems res))) =
        (if app_matches P a cs = [] then 0 else min n (int (length (app_matches P a cs)) - m a)))"
proof -
  have elems: "slice_elems (appended ys) = ys" for ys :: Containers
    by (simp add: slice_elems_def appended_def)
  from service_selection [OF assms(5,6,4)] obtain apps ys where
    "group_by_app P n cs [] = Some apps" "select_apps n apps = Some ys"
    and ys: "\<forall>c \<in> set ys. P c" "\<forall>a. subseq (app_matches P a ys) (app_matches P a cs) \<and>
      int (length (app_matches P a ys)) =
        (if app_matches P a cs = [] then 0 else min n (int (length (app_matches P a cs)) - m a))" by blast
  then have "base_filterService re f = Some (appended ys, f\<lparr>fb_containers := appended ys\<rparr>)"
    using assms(1-3) by (simp add: base_filterService_def slice_elems_def [of "Some _"] Let_def)
  with ys show ?thesis by (simp add: elems)
qed

theorem service_scale_down_keeps_minimum_witness:
  "\<exists>res f'. base_filterService exact_re (down_filter 5) = Some (res, f') \<and>
     int (length (app_matches (base_filterContainer exact_re TaskTypeDestroyContainer
       [\<lparr>Key = ''app'', Operater = ''=='', Pattern = ''^web$''\<rparr>]) ''web'' (slice_elems res))) = 2"
proof -
  let ?cs = "[web_container ''a'' ''1'', web_container ''b'' ''1'', web_container ''c'' ''1'']"
  let ?P = "base_filterContainer exact_re TaskTypeDestroyContainer [\<lparr>Key = ''app'', Operater = ''=='', Pattern = ''^web$''\<rparr>]"
  have P: "base_filterContainer exact_re (fb_taskType (down_filter 5)) (fb_filters (down_filter 5)) = ?P"
    by (simp add: down_filter_def)
  have web: "c_Labels (web_container i m) ''app'' = Some ''web''" for i m by (simp add: web_container_def)
  have "\<forall>c \<in> set ?cs. ?P c \<longrightarrow> (\<exists>a. c_Labels c ''app'' = Some a \<and> container_min c = 1)"
    by (simp add: web web_container_min)
  moreover have am: "app_matches ?P a ?cs = (if a = ''web'' then ?cs else [])" for a
    by (auto simp: app_matches_def web web_container_match)
  ultimately have "\<exists>res f'. base_filterService exact_re (down_filter 5) = Some (res, f') \<and> fb_containers f' = res \<and>
      (\<forall>c \<in> set (slice_elems res). ?P c) \<and>
      (\<forall>a. subseq (app_matches ?P a (slice_elems res)) (app_matches ?P a ?cs) \<and>
      int (length (app_matches ?P a (slice_elems res))) =
        (if app_matches ?P a ?cs = [] then 0 else min 5 (int (length (app_matches ?P a ?cs)) - 1)))"
    by (intro service_scale_down_keeps_minimum [OF P [symmetric], of ?cs 5 "\<lambda>_. 1"])
      (auto simp: down_filter_def scale_amount_def i64_def)
  then obtain res f' where res: "base_filterService exact_re (down_filter 5) = Some (res, f')"
    and len: "\<And>a. int (length (app_matches ?P a (slice_elems res))) =
        (if app_matches ?P a ?cs = [] then 0 else min 5 (int (length (app_matches ?P a ?cs)) - 1))" by blast
  from len [of "''web''"] have "int (length (app_matches ?P ''web'' (slice_elems res))) = 2" by (simp add: am)
  with res show ?thesis by blast
qed

text \<open>
  A service whose matching container lacks the label \<open>app\<close>: the filter returns nil but leaves its list of
  containers as it was, so the tasks that are added cover every container of the cluster.
\<close>

lemma service_without_app_takes_all:
  assumes "filterType f = ''service''" and "fb_containers f = Some cs" and "c \<in> set cs"
    and "base_filterContainer re (fb_taskType f) (fb_filters f) c" and "c_Labels c ''app'' = None" and "Ring t = None"
  shows "\<exists>f'. base_Filter re f = Some (None, f') \<and>
    Ring (base_AddTasks rid f' t) = Some ([], new_tasks rid cs (fb_taskType f))"
proof -
  have "group_by_app P n cs apps = None" if "P c" for P n apps
    using assms(3,5) that by (induction cs arbitrary: apps) (auto split: option.splits)
  with assms show ?thesis
    by (simp add: base_Filter_def base_filterService_def slice_elems_def base_AddTasks_def AddTasks_def Let_def)
qed

definition service_filter :: ContainerFilterBase where
  "service_filter = (down_filter 1)\<lparr>filterType := ''service'', fb_filters := [\<lparr>Key = ''name'', Operater = ''!='', Pattern = ''x''\<rparr>],
     fb_containers := Some [web_container ''a'' ''1'', a_container ''db'' [''/db'']]\<rparr>"

lemma service_without_app_takes_all_witness:
  "\<exists>f'. base_Filter exact_re service_filter = Some (None, f') \<and>
    Ring (base_AddTasks (\<lambda>i. int i) f' NewTasks) =
      Some ([], new_tasks (\<lambda>i. int i) [web_container ''a'' ''1'', a_container ''db'' [''/db'']] TaskTypeDestroyContainer)"
  using service_without_app_takes_all [of service_filter "[web_container ''a'' ''1'', a_container ''db'' [''/db'']]"
      "a_container ''db'' [''/db'']" exact_re NewTasks "\<lambda>i. int i"]
  by (simp add: service_filter_def down_filter_def NewTasks_def a_container_def base_filterContainer_def
      filterContainer_def exact_re_def)

text \<open>
  Scaling up by creation when no container matches: the filter returns nil but keeps all containers, and
  the tasks create \<open>Number\<close> copies of every container of the cluster.
\<close>

lemma create_without_match_copies_all:
  assumes "filterType f \<noteq> ''service''" and "fb_containers f = Some cs" and "cs \<noteq> []"
    and "\<forall>c \<in> set cs. \<not> base_filterContainer re (fb_taskType f) (fb_filters f) c"
    and "Number (fb_item f) = 1" and "Ring t = None"
  shows "\<exists>f' t'. create_Filter re f = (None, f') \<and> create_AddTasks rids f' t = Some t' \<and>
    Ring t' = Some ([], new_tasks (rids 0) cs TaskTypeCreateContainer)"
proof -
  have "first_such (base_filterContainer re (fb_taskType f) (fb_filters f)) cs = None"
    using assms(4) by (simp add: first_such_None)
  with assms show ?thesis
    by (simp add: create_Filter_def create_filterContainers_def create_AddTasks_def slice_elems_def AddTasks_def)
qed

definition up_filter :: ContainerFilterBase where
  "up_filter = (down_filter 1)\<lparr>fb_item := \<lparr>item_Filters = [''app==api''], Number = 1, ENVs = [], item_Labels = Map.empty\<rparr>,
     fb_taskType := TaskTypeCreateContainer, fb_filters := [\<lparr>Key = ''app'', Operater = ''=='', Pattern = ''^api$''\<rparr>]\<rparr>"

lemma create_without_match_copies_all_witness:
  "\<exists>f' t'. create_Filter exact_re up_filter = (None, f') \<and> create_AddTasks (\<lambda>i j. int j) f' NewTasks = Some t' \<and>
    Ring t' = Some ([], new_tasks (\<lambda>j. int j)
      [web_container ''a'' ''1'', web_container ''b'' ''1'', web_container ''c'' ''1''] TaskTypeCreateContainer)"
  using create_without_match_copies_all [of up_filter
      "[web_container ''a'' ''1'', web_container ''b'' ''1'', web_container ''c'' ''1'']" exact_re NewTasks "\<lambda>i j. int j"]
  by (simp add: up_filter_def down_filter_def NewTasks_def web_container_def base_filterContainer_def filterContainer_def
      exact_re_def task_types)

end
