(* ===== verification/Seize_Filter.thy ===== *)
theory Seize_Filter
  imports Scale_Filter
begin

section \<open>Seizing resources (\<open>cluster/swarm/resource_filter.go\<close>, \<open>task_filter.go\<close>)\<close>

text \<open>
  Scaling up with an inaffinity and a constraint: nodes that satisfy the constraint are divided into free
  nodes and nodes that run inaffine containers, the latter are emptied, lower priority first, and new
  containers are planned for both. The engines of the cluster are a list of descriptions with
  their containers, in the order of the iteration. Pointer sharing matters in one place only:
  \<open>StartTaskFilter.DoContainers\<close> appends to the environment of the one container it copies, so the model
  keeps the appended version. Every index into \<open>Names\<close> in a debug message can panic and is modelled.
\<close>

subsection \<open>Data\<close>

record SeizeContainer =
  sc_container :: Container
  priority :: int
  sc_taskType :: int

record SeizeNode =
  sn_engine :: EngineSpec
  scaleUpContainers :: "SeizeContainer list"
  scaleDownContainers :: "SeizeContainer list"
  isFreeNode :: bool
  cantSeize :: bool
  alreadyHasFree :: int

datatype TaskFilter = CreateTaskFilter | DestroyTaskFilter | StartTaskFilter | StopTaskFilter

record SeizeResourceFilter =
  sf_item :: ScaleItem
  ScaleUpTaskType :: int
  ScaleDownTaskType :: int
  scaleUpTaskFilter :: TaskFilter
  scaleDownTaskFilter :: TaskFilter
  sf_Constraints :: "Filter list"
  Inaffinities :: "Filter list"
  sf_Filters :: "Filter list"
  scaleUpAppPriority :: int
  AppLots :: int
  scaleUpedCount :: int
  needFreeEngineNumber :: int
  sf_createContainer :: "SeizeContainer option"
  NodesPool :: "SeizeNode list"
  FreeNodesPool :: "SeizeNode list"
  filterOutContainers :: "SeizeContainer list"

subsection \<open>Task filters\<close>

primrec FilterContainer :: "regexp \<Rightarrow> TaskFilter \<Rightarrow> Filter list \<Rightarrow> Container \<Rightarrow> bool" where
  "FilterContainer re CreateTaskFilter fs c = filterContainer re fs c"
| "FilterContainer re DestroyTaskFilter fs c = filterContainer re fs c"
| "FilterContainer re StartTaskFilter fs c =
     (filterContainer re fs c \<and>
      (State c = ''paused'' \<or> State c = ''created'' \<or> State c = ''restarting'' \<or> State c = ''exited''))"
| "FilterContainer re StopTaskFilter fs c =
     (filterContainer re fs c \<and> (State c = ''paused'' \<or> State c = ''running''))"

definition node_constraint :: "SeizeNode \<Rightarrow> string" where
  "node_constraint nd = ''constraint:node=='' @ e_Name (sn_engine nd)"

text \<open>
  A fresh container with a copy of the configuration and the names, everything else zero;
  the constraint is appended to its environment.
\<close>

definition seize_copy :: "string \<Rightarrow> Container \<Rightarrow> SeizeContainer" where
  "seize_copy constraint c =
     \<lparr>sc_container = \<lparr>c_ID = [], Names = Names c, c_Image = [], c_Ports = [], c_Labels = Map.empty, State = [], Created = 0,
        c_Config = (c_Config c)\<lparr>Env := Env (c_Config c) @ [constraint]\<rparr>, Info = empty_info, c_Engine = empty_spec\<rparr>,
      priority = 0, sc_taskType = TaskTypeCreateContainer\<rparr>"

fun create_loop :: "nat \<Rightarrow> SeizeNode \<Rightarrow> SeizeResourceFilter \<Rightarrow> (SeizeNode \<times> SeizeResourceFilter) option" where
  "create_loop 0 nd f = Some (nd, f)"
| "create_loop (Suc k) nd f =
     (if scaleUpedCount f \<ge> Number (sf_item f) then Some (nd, f)
      else do {
        cc \<leftarrow> sf_createContainer f;
        let temp = seize_copy (node_constraint nd) (sc_container cc);
        _ \<leftarrow> index (Names (sc_container cc)) 0;
        create_loop k (nd\<lparr>scaleUpContainers := scaleUpContainers nd @ [temp]\<rparr>)
          (f\<lparr>scaleUpedCount := i64 (scaleUpedCount f + 1)\<rparr>) })"

definition create_DoContainers :: "SeizeNode \<Rightarrow> SeizeResourceFilter \<Rightarrow> (SeizeNode \<times> SeizeResourceFilter) option" where
  "create_DoContainers nd f =
     (let len = int (length (scaleUpContainers nd));
          needs = (if i64 (AppLots f - len) < i64 (Number (sf_item f) - scaleUpedCount f)
                   then i64 (AppLots f - len) else i64 (Number (sf_item f) - scaleUpedCount f))
      in create_loop (nat needs) nd f)"

text \<open>
  The constraint of \<open>StartTaskFilter\<close> stays empty: the result of \<open>Sprintf\<close> is discarded. The copy shares its
  container with \<open>createContainer\<close>.
\<close>

fun start_loop :: "nat \<Rightarrow> SeizeNode \<Rightarrow> SeizeResourceFilter \<Rightarrow> (SeizeNode \<times> SeizeResourceFilter) option" where
  "start_loop 0 nd f = Some (nd, f)"
| "start_loop (Suc k) nd f =
     (if scaleUpedCount f \<ge> Number (sf_item f) then Some (nd, f)
      else do {
        cc \<leftarrow> sf_createContainer f;
        let c = sc_container cc;
        let temp = cc\<lparr>sc_container := c\<lparr>c_Config := (c_Config c)\<lparr>Env := Env (c_Config c) @ [[]]\<rparr>\<rparr>\<rparr>;
        start_loop k (nd\<lparr>scaleUpContainers := scaleUpContainers nd @ [temp]\<rparr>)
          (f\<lparr>sf_createContainer := Some temp, scaleUpedCount := i64 (scaleUpedCount f + 1)\<rparr>) })"

definition start_DoContainers :: "SeizeNode \<Rightarrow> SeizeResourceFilter \<Rightarrow> (SeizeNode \<times> SeizeResourceFilter) option" where
  "start_DoContainers nd f =
     (let len = int (length (scaleUpContainers nd))
      in start_loop (nat (i64 (AppLots f - len))) nd (f\<lparr>scaleUpedCount := i64 (scaleUpedCount f + len)\<rparr>))"

fun DoContainers :: "TaskFilter \<Rightarrow> SeizeNode \<Rightarrow> SeizeResourceFilter \<Rightarrow> (SeizeNode \<times> SeizeResourceFilter) option" where
  "DoContainers CreateTaskFilter nd f = create_DoContainers nd f"
| "DoContainers StartTaskFilter nd f = start_DoContainers nd f"
| "DoContainers DestroyTaskFilter nd f = Some (nd, f)"
| "DoContainers StopTaskFilter nd f = Some (nd, f)"

subsection \<open>Reading the containers of a node\<close>

definition getApplots :: "ScaleItem \<Rightarrow> string list \<Rightarrow> int" where
  "getApplots item envs =
     (let (own, ok) = getEnv ''applots'' (ENVs item);
          (a, parsed) = (if ok then Atoi (own ! 0) else (0, False))
      in if parsed then a
         else let (theirs, ok2) = getEnv ''applots'' envs;
                  (b, parsed2) = (if ok2 then Atoi (theirs ! 0) else (0, False))
              in if parsed2 then b else - 1)"

definition getSeizeContainer :: "Container \<Rightarrow> int \<Rightarrow> SeizeContainer option" where
  "getSeizeContainer c taskType =
     (let (p, ok) = getEnv ''PRIORITY'' (Env (c_Config c)) in
      if \<not> ok then Some \<lparr>sc_container = c, priority = DefaultPriority, sc_taskType = taskType\<rparr>
      else do {
        _ \<leftarrow> index (Names c) 0;
        Some \<lparr>sc_container = c, priority = fst (Atoi (p ! 0)), sc_taskType = taskType\<rparr> })"

definition node_scale_up :: "SeizeResourceFilter \<Rightarrow> SeizeNode \<Rightarrow> Container \<Rightarrow> (SeizeNode \<times> SeizeResourceFilter) option" where
  "node_scale_up f nd c = do {
     scr \<leftarrow> getSeizeContainer c (ScaleUpTaskType f);
     let ups = scaleUpContainers nd @ [scr];
     let a = getApplots (sf_item f) (Env (c_Config c));
     let lots = (if a \<noteq> - 1 \<and> AppLots f = - 1 then a else AppLots f);
     let prio = (if priority scr \<noteq> DefaultPriority \<and> scaleUpAppPriority f = DefaultPriority
                 then priority scr else scaleUpAppPriority f);
     let cc = (case sf_createContainer f of None \<Rightarrow> Some scr | Some x \<Rightarrow> Some x);
     let full = (int (length ups) \<ge> lots);
     Some (nd\<lparr>scaleUpContainers := ups, isFreeNode := \<not> full,
              alreadyHasFree := (if full then 0 else i64 (alreadyHasFree nd + 1))\<rparr>,
           f\<lparr>AppLots := lots, scaleUpAppPriority := prio, sf_createContainer := cc,
             scaleUpedCount := i64 (scaleUpedCount f + 1)\<rparr>) }"

definition node_scale_down :: "SeizeResourceFilter \<Rightarrow> SeizeNode \<Rightarrow> Container \<Rightarrow> SeizeNode option" where
  "node_scale_down f nd c = do {
     scr \<leftarrow> getSeizeContainer c (ScaleDownTaskType f);
     Some (nd\<lparr>scaleDownContainers := scaleDownContainers nd @ [scr], isFreeNode := False\<rparr>) }"

definition filterNodeContainers ::
    "regexp \<Rightarrow> Container \<Rightarrow> SeizeNode \<times> SeizeResourceFilter \<Rightarrow> (SeizeNode \<times> SeizeResourceFilter) option" where
  "filterNodeContainers re c = (\<lambda>(nd, f). do {
     (nd1, f1) \<leftarrow> (if FilterContainer re (scaleUpTaskFilter f) (sf_Filters f) c then node_scale_up f nd c
                   else Some (nd, f));
     (if FilterContainer re (scaleDownTaskFilter f1) (Inaffinities f1) c
      then map_option (\<lambda>nd2. (nd2, f1)) (node_scale_down f1 nd1 c)
      else Some (nd1, f1)) })"

primrec fold_opt :: "('a \<Rightarrow> 's \<Rightarrow> 's option) \<Rightarrow> 'a list \<Rightarrow> 's \<Rightarrow> 's option" where
  "fold_opt g [] s = Some s"
| "fold_opt g (x # xs) s = do { s' \<leftarrow> g x s; fold_opt g xs s' }"

subsection \<open>The filter\<close>

definition seize_node :: "EngineSpec \<Rightarrow> SeizeNode" where
  "seize_node e = \<lparr>sn_engine = e, scaleUpContainers = [], scaleDownContainers = [], isFreeNode = True,
     cantSeize = False, alreadyHasFree = - 1\<rparr>"

definition seize_engine :: "regexp \<Rightarrow> EngineSpec \<times> Containers \<Rightarrow> SeizeResourceFilter \<Rightarrow> SeizeResourceFilter option" where
  "seize_engine re = (\<lambda>(e, cs) f.
     if filterConstraintEngine re e (sf_Constraints f) then do {
       (nd, f1) \<leftarrow> fold_opt (filterNodeContainers re) cs (seize_node e, f);
       Some (if isFreeNode nd then f1\<lparr>FreeNodesPool := FreeNodesPool f1 @ [nd]\<rparr>
             else if alreadyHasFree nd \<noteq> 0 then f1\<lparr>NodesPool := NodesPool f1 @ [nd]\<rparr>
             else f1) }
     else Some f)"

fun blocked :: "int \<Rightarrow> SeizeContainer list \<Rightarrow> bool option" where
  "blocked prio [] = Some False"
| "blocked prio (c # cs) = do {
     _ \<leftarrow> index (Names (sc_container c)) 0;
     if priority c \<le> prio then Some True else blocked prio cs }"

definition priority_step :: "SeizeNode \<Rightarrow> SeizeResourceFilter \<Rightarrow> (SeizeNode \<times> SeizeResourceFilter) option" where
  "priority_step nd f = do {
     b \<leftarrow> blocked (scaleUpAppPriority f) (scaleDownContainers nd);
     let nd1 = (if b then nd\<lparr>scaleUpContainers := [], scaleDownContainers := [], cantSeize := True\<rparr> else nd);
     if \<not> cantSeize nd1 then DoContainers (scaleUpTaskFilter f) nd1 f
     else Some (nd1, f\<lparr>needFreeEngineNumber := i64 (needFreeEngineNumber f + 1)\<rparr>) }"

text \<open>The loop over the pool, left as soon as enough containers are planned; the nodes after that stay unexamined.\<close>

fun priority_loop :: "SeizeNode list \<Rightarrow> SeizeResourceFilter \<Rightarrow> (SeizeNode list \<times> SeizeResourceFilter) option" where
  "priority_loop [] f = Some ([], f)"
| "priority_loop (nd # nds) f = do {
     (nd', f1) \<leftarrow> priority_step nd f;
     if scaleUpedCount f1 \<ge> Number (sf_item f1) then Some (nd' # nds, f1)
     else do {
       (nds', f2) \<leftarrow> priority_loop nds f1;
       Some (nd' # nds', f2) } }"

definition doPriority :: "SeizeResourceFilter \<Rightarrow> SeizeResourceFilter option" where
  "doPriority f = do {
     (nds, f1) \<leftarrow> priority_loop (NodesPool f) f;
     (if needFreeEngineNumber f1 < int (length nds)
      then map_option (\<lambda>xs. f1\<lparr>NodesPool := xs\<rparr>) (slice_to nds (needFreeEngineNumber f1))
      else Some (f1\<lparr>NodesPool := nds\<rparr>)) }"

fun free_loop :: "SeizeNode list \<Rightarrow> SeizeResourceFilter \<Rightarrow> (SeizeNode list \<times> SeizeResourceFilter) option" where
  "free_loop [] f = Some ([], f)"
| "free_loop (nd # nds) f = do {
     (nd', f1) \<leftarrow> DoContainers (scaleUpTaskFilter f) nd f;
     (nds', f2) \<leftarrow> free_loop nds f1;
     Some (nd' # nds', f2) }"

text \<open>The containers of the free nodes; the flag tells that the method returned inside this loop.\<close>

fun free_containers :: "int \<Rightarrow> int \<Rightarrow> SeizeNode list \<Rightarrow> SeizeContainer list \<times> bool" where
  "free_containers number temp [] = ([], False)"
| "free_containers number temp (nd # nds) =
     (if temp > number then ([], True)
      else let (xs, early) = free_containers number (temp + int (length (scaleUpContainers nd))) nds
           in (scaleUpContainers nd @ xs, early))"

definition reorganizeContainers :: "SeizeResourceFilter \<Rightarrow> Containers \<times> SeizeResourceFilter" where
  "reorganizeContainers f =
     (let (frees, early) = free_containers (Number (sf_item f)) 0 (FreeNodesPool f);
          pool = (if early then [] else
            concat (map (\<lambda>nd. scaleDownContainers nd @ scaleUpContainers nd) (NodesPool f)));
          out = frees @ pool
      in (map sc_container out, f\<lparr>filterOutContainers := filterOutContainers f @ out\<rparr>))"

definition SeizeResourceFilter_Filter ::
    "regexp \<Rightarrow> (EngineSpec \<times> Containers) list \<Rightarrow> SeizeResourceFilter \<Rightarrow> (Containers \<times> SeizeResourceFilter) option" where
  "SeizeResourceFilter_Filter re engines f = do {
     f1 \<leftarrow> fold_opt (seize_engine re) engines f;
     let f2 = (if AppLots f1 = - 1 then f1\<lparr>AppLots := DefaultAppLots\<rparr> else f1);
     let frees = int (length (FreeNodesPool f2));
     let f3 = (if i64 (frees * AppLots f2) \<ge> Number (sf_item f2) then f2\<lparr>NodesPool := []\<rparr>
               else f2\<lparr>needFreeEngineNumber := i64 (ceil_div (Number (sf_item f2)) (AppLots f2) - frees)\<rparr>);
     f4 \<leftarrow> doPriority f3;
     (fs, f5) \<leftarrow> free_loop (FreeNodesPool f4) f4;
     Some (reorganizeContainers (f5\<lparr>FreeNodesPool := fs\<rparr>)) }"

definition Seize_AddTasks :: "(nat \<Rightarrow> int) \<Rightarrow> SeizeResourceFilter \<Rightarrow> Tasks \<Rightarrow> Tasks option" where
  "Seize_AddTasks rid f t =
     fold_opt (\<lambda>(i, c) t. AddTask (rid i) t (Some (sc_container c)) (sc_taskType c))
       (enumerate 0 (filterOutContainers f)) t"

subsection \<open>Construction\<close>

definition task_type_step ::
    "string \<Rightarrow> (int \<times> TaskFilter) \<times> int \<times> TaskFilter \<Rightarrow> (int \<times> TaskFilter) \<times> int \<times> TaskFilter" where
  "task_type_step v = (\<lambda>(up, down).
     (if Contains v ''start'' then (TaskTypeStartContainer, StartTaskFilter) else up,
      if Contains v ''stop'' then (TaskTypeStopContainer, StopTaskFilter) else down))"

definition setTaskType :: "SeizeResourceFilter \<Rightarrow> SeizeResourceFilter" where
  "setTaskType f =
     (let (vs, ok) = getEnv ''TASK_TYPE'' (ENVs (sf_item f));
          ((ut, uf), (dt, df)) = fold task_type_step (if ok then vs else [])
            ((TaskTypeCreateContainer, CreateTaskFilter), (TaskTypeDestroyContainer, DestroyTaskFilter))
      in f\<lparr>ScaleUpTaskType := ut, ScaleDownTaskType := dt, scaleUpTaskFilter := uf, scaleDownTaskFilter := df\<rparr>)"

text \<open>A filter string that does not parse is logged and treated as an empty list.\<close>

definition parsed_filters :: "string list \<Rightarrow> Filter list option" where
  "parsed_filters ss = do {
     r \<leftarrow> parseFilterString ss;
     Some (case r of Inl _ \<Rightarrow> [] | Inr fs \<Rightarrow> fs) }"

definition empty_seize :: "ScaleItem \<Rightarrow> SeizeResourceFilter" where
  "empty_seize item = \<lparr>sf_item = item, ScaleUpTaskType = 0, ScaleDownTaskType = 0,
     scaleUpTaskFilter = CreateTaskFilter, scaleDownTaskFilter = DestroyTaskFilter, sf_Constraints = [],
     Inaffinities = [], sf_Filters = [], scaleUpAppPriority = DefaultPriority, AppLots = - 1, scaleUpedCount = 0,
     needFreeEngineNumber = 0, sf_createContainer = None, NodesPool = [], FreeNodesPool = [], filterOutContainers = []\<rparr>"

definition NewSeizeResourceFilter :: "ScaleItem \<Rightarrow> SeizeResourceFilter option" where
  "NewSeizeResourceFilter item0 = do {
     let item = (if Number item0 < 0 then item0\<lparr>Number := i64 (- Number item0)\<rparr> else item0);
     let f = setTaskType (empty_seize item);
     cs \<leftarrow> parsed_filters (getConstaintStrings (ENVs item));
     as \<leftarrow> parsed_filters (getInaffinityStrings (ENVs item));
     fs \<leftarrow> parsed_filters (item_Filters item);
     Some (f\<lparr>sf_Constraints := cs, Inaffinities := as, sf_Filters := fs\<rparr>) }"

subsection \<open>Lemmas\<close>

lemma blocked_False: "blocked prio cs = Some False \<Longrightarrow> \<forall>c \<in> set cs. prio < priority c"
  by (induction cs) (auto split: bind_splits if_splits)

lemma create_loop_nodes:
  "create_loop k nd f = Some (nd', f') \<Longrightarrow>
     scaleDownContainers nd' = scaleDownContainers nd \<and> scaleUpAppPriority f' = scaleUpAppPriority f \<and>
     scaleUpTaskFilter f' = scaleUpTaskFilter f \<and> sf_item f' = sf_item f"
  by (induction k nd f rule: create_loop.induct) (auto simp: Let_def split: bind_splits if_splits)

lemma start_loop_nodes:
  "start_loop k nd f = Some (nd', f') \<Longrightarrow>
     scaleDownContainers nd' = scaleDownContainers nd \<and> scaleUpAppPriority f' = scaleUpAppPriority f \<and>
     scaleUpTaskFilter f' = scaleUpTaskFilter f \<and> sf_item f' = sf_item f"
  by (induction k nd f rule: start_loop.induct) (auto simp: Let_def split: bind_splits if_splits)

lemma DoContainers_nodes:
  "DoContainers tf nd f = Some (nd', f') \<Longrightarrow>
     scaleDownContainers nd' = scaleDownContainers nd \<and> scaleUpAppPriority f' = scaleUpAppPriority f \<and>
     scaleUpTaskFilter f' = scaleUpTaskFilter f \<and> sf_item f' = sf_item f"
  by (cases tf)
    (auto simp: create_DoContainers_def start_DoContainers_def Let_def dest!: create_loop_nodes start_loop_nodes)

lemma priority_step_checked:
  assumes "priority_step nd f = Some (nd', f')"
  shows "(\<forall>c \<in> set (scaleDownContainers nd'). scaleUpAppPriority f < priority c) \<and>
    scaleUpAppPriority f' = scaleUpAppPriority f \<and> sf_item f' = sf_item f"
proof -
  from assms obtain b where b: "blocked (scaleUpAppPriority f) (scaleDownContainers nd) = Some b"
    by (auto simp: priority_step_def split: bind_splits)
  show ?thesis
  proof (cases b)
    case True
    with assms b show ?thesis by (auto simp: priority_step_def)
  next
    case False
    with assms b blocked_False [of "scaleUpAppPriority f" "scaleDownContainers nd"] show ?thesis
      by (auto simp: priority_step_def dest!: DoContainers_nodes split: if_splits)
  qed
qed

lemma priority_loop_checked:
  "priority_loop nds f = Some (nds', f') \<Longrightarrow>
     \<exists>checked rest. nds' = checked @ rest \<and> length nds' = length nds \<and> rest = drop (length checked) nds \<and>
       (\<forall>nd \<in> set checked. \<forall>c \<in> set (scaleDownContainers nd). scaleUpAppPriority f < priority c) \<and>
       (rest \<noteq> [] \<longrightarrow> Number (sf_item f) \<le> scaleUpedCount f')"
proof (induction nds f arbitrary: nds' f' rule: priority_loop.induct)
  case (2 nd nds f)
  from "2.prems" obtain nd' f1 where step: "priority_step nd f = Some (nd', f1)"
    by (auto split: bind_splits)
  note ch = priority_step_checked [OF step]
  show ?case
  proof (cases "scaleUpedCount f1 \<ge> Number (sf_item f1)")
    case True
    with "2.prems" step ch show ?thesis
      by (intro exI [of _ "[nd']"] exI [of _ nds]) auto
  next
    case False
    with "2.prems" step obtain nds2 where rest: "priority_loop nds f1 = Some (nds2, f')" "nds' = nd' # nds2"
      by (auto split: bind_splits)
    from "2.IH" [OF step refl False rest(1)] ch rest(2) show ?thesis
      by (metis (no_types, opaque_lifting) append_Cons drop_Suc_Cons length_Cons set_ConsD)
  qed
qed simp

lemma create_loop_eq:
  assumes "sf_createContainer f = Some cc" and "Names (sc_container cc) \<noteq> []"
    and "0 \<le> scaleUpedCount f" and "Number (sf_item f) < 2 ^ 63"
  shows "create_loop k nd f = Some
    (nd\<lparr>scaleUpContainers := scaleUpContainers nd @
        replicate (min k (nat (Number (sf_item f) - scaleUpedCount f))) (seize_copy (node_constraint nd) (sc_container cc))\<rparr>,
     f\<lparr>scaleUpedCount := scaleUpedCount f + int (min k (nat (Number (sf_item f) - scaleUpedCount f)))\<rparr>)"
  using assms
proof (induction k nd f rule: create_loop.induct)
  case (2 k nd f)
  show ?case
  proof (cases "scaleUpedCount f \<ge> Number (sf_item f)")
    case True
    then show ?thesis by simp
  next
    case False
    then have "i64 (scaleUpedCount f + 1) = scaleUpedCount f + 1" using "2.prems"(3,4) by (simp add: in_i64_def)
    moreover have "nat (Number (sf_item f) - scaleUpedCount f) = Suc (nat (Number (sf_item f) - (scaleUpedCount f + 1)))"
      using False by simp
    ultimately show ?thesis
      using False "2.prems" "2.IH" [OF False "2.prems"(1) refl, of "Names (sc_container cc) ! 0"]
      by (simp add: index_def node_constraint_def)
  qed
qed simp

subsection \<open>Properties\<close>

text \<open>
  C15. Priorities: after \<open>doPriority\<close>, a container whose priority forbids seizing it is still marked for
  removal only on a node that the loop never examined because enough containers were planned before it was
  reached; in particular no such container remains when the plan falls short of the number asked for.
\<close>

theorem seize_respects_priority:
  assumes "doPriority f = Some f'" and "nd \<in> set (NodesPool f')" and "c \<in> set (scaleDownContainers nd)"
    and "priority c \<le> scaleUpAppPriority f"
  shows "nd \<in> set (NodesPool f) \<and> Number (sf_item f) \<le> scaleUpedCount f'"
proof -
  from assms(1) obtain nds f1 where loop: "priority_loop (NodesPool f) f = Some (nds, f1)"
    and f': "f' = f1\<lparr>NodesPool := NodesPool f'\<rparr>" and pool: "set (NodesPool f') \<subseteq> set nds"
    by (auto simp: doPriority_def slice_to_def set_take_subset split: bind_splits if_splits)
  from priority_loop_checked [OF loop] obtain checked rest where
    nds: "nds = checked @ rest" "rest = drop (length checked) (NodesPool f)" and
    ok: "\<forall>nd \<in> set checked. \<forall>c \<in> set (scaleDownContainers nd). scaleUpAppPriority f < priority c" and
    enough: "rest \<noteq> [] \<longrightarrow> Number (sf_item f) \<le> scaleUpedCount f1" by blast
  from assms(2-4) ok pool nds(1) have "nd \<in> set rest" by fastforce
  moreover have "scaleUpedCount f' = scaleUpedCount f1" by (subst f') simp
  ultimately show ?thesis using nds(2) enough by (auto dest: in_set_dropD)
qed

definition seize_item :: ScaleItem where
  "seize_item = \<lparr>item_Filters = [''app==^web$''], Number = 2,
     ENVs = [''constraint:zone==^a$'', ''affinity:app!=^batch$''], item_Labels = Map.empty\<rparr>"

definition seize_spec :: "string \<Rightarrow> EngineSpec" where
  "seize_spec i = \<lparr>e_ID = i, e_IP = [], e_Addr = [], e_Name = i, e_Labels = [''zone'' \<mapsto> ''a'']\<rparr>"

definition seize_container :: "string \<Rightarrow> string \<Rightarrow> string \<Rightarrow> Container" where
  "seize_container i app prio = (a_container i [''/'' @ i])\<lparr>c_Labels := [''app'' \<mapsto> app],
     c_Config := empty_config\<lparr>Env := [''applots=1'', ''PRIORITY='' @ prio]\<rparr>\<rparr>"

definition seize_engines :: "(EngineSpec \<times> Containers) list" where
  "seize_engines = [(seize_spec ''e1'', [seize_container ''w'' ''web'' ''1'']),
     (seize_spec ''e2'', [seize_container ''x2'' ''batch'' ''5'']),
     (seize_spec ''e3'', [seize_container ''x3'' ''batch'' ''0''])]"

definition seize_state :: SeizeResourceFilter where
  "seize_state = (empty_seize (seize_item\<lparr>Number := 1\<rparr>))\<lparr>scaleUpAppPriority := 1, AppLots := 1, scaleUpedCount := 1,
     needFreeEngineNumber := 2, NodesPool := [seize_node (seize_spec ''e2''),
       (seize_node (seize_spec ''e3''))\<lparr>scaleDownContainers :=
         [\<lparr>sc_container = seize_container ''x3'' ''batch'' ''0'', priority = 0, sc_taskType = TaskTypeDestroyContainer\<rparr>]\<rparr>]\<rparr>"

theorem seize_respects_priority_witness:
  "(seize_node (seize_spec ''e3''))\<lparr>scaleDownContainers :=
     [\<lparr>sc_container = seize_container ''x3'' ''batch'' ''0'', priority = 0, sc_taskType = TaskTypeDestroyContainer\<rparr>]\<rparr>
   \<in> set (NodesPool seize_state) \<and> Number (sf_item seize_state) \<le> scaleUpedCount seize_state"
proof -
  have "doPriority seize_state = Some seize_state"
    by (simp add: doPriority_def seize_state_def empty_seize_def priority_step_def seize_node_def create_DoContainers_def
        seize_item_def i64_def Let_def)
  from seize_respects_priority [OF this, where c = "\<lparr>sc_container = seize_container ''x3'' ''batch'' ''0'', priority = 0,
      sc_taskType = TaskTypeDestroyContainer\<rparr>"]
  show ?thesis by (simp add: seize_state_def empty_seize_def)
qed

text \<open>
  The exception is real: an application of priority 1 that is to be scaled to two containers and already runs
  one makes the filter destroy container \<open>x3\<close>, whose priority 0 forbids it, because the container that already runs
  counts as planned and ends the loop one node early.
\<close>

lemma seize_destroys_protected:
  "do {
     f \<leftarrow> NewSeizeResourceFilter seize_item;
     (_, f') \<leftarrow> SeizeResourceFilter_Filter exact_re seize_engines f;
     Some (scaleUpAppPriority f', map (\<lambda>c. (c_ID (sc_container c), sc_taskType c, priority c)) (filterOutContainers f')) } =
   Some (1, [(''x2'', TaskTypeDestroyContainer, 5), ([], TaskTypeCreateContainer, 0), (''x3'', TaskTypeDestroyContainer, 0)])"
  by code_simp

text \<open>
  Planning creations on a node: with a container to copy from, the node receives as many copies as its free
  lots and the number still missing allow, each with the constraint to that node appended to its
  environment, and the count grows by as many.
\<close>

lemma create_plan:
  assumes "sf_createContainer f = Some cc" and "Names (sc_container cc) \<noteq> []" and "0 \<le> scaleUpedCount f"
    and "0 \<le> Number (sf_item f)" and "Number (sf_item f) < 2 ^ 63" and "scaleUpedCount f < 2 ^ 63"
    and "0 \<le> AppLots f" and "AppLots f < 2 ^ 63" and "length (scaleUpContainers nd) < 2 ^ 63"
    and "k = nat (min (AppLots f - int (length (scaleUpContainers nd))) (Number (sf_item f) - scaleUpedCount f))"
  shows "create_DoContainers nd f = Some
    (nd\<lparr>scaleUpContainers := scaleUpContainers nd @
        replicate k (seize_copy (''constraint:node=='' @ e_Name (sn_engine nd)) (sc_container cc))\<rparr>,
     f\<lparr>scaleUpedCount := scaleUpedCount f + int k\<rparr>)"
proof -
  have "in_i64 (AppLots f - int (length (scaleUpContainers nd)))" "in_i64 (Number (sf_item f) - scaleUpedCount f)"
    using assms(3-9) by (auto simp: in_i64_def)
  moreover have "min (nat a) (nat b) = nat (min a b)" for a b by (simp add: min_def)
  ultimately show ?thesis
    using create_loop_eq [OF assms(1-3,5), of _ nd] assms(10)
    by (auto simp: create_DoContainers_def node_constraint_def Let_def min_def)
qed

lemma create_plan_witness:
  "create_DoContainers (seize_node (seize_spec ''e2''))
     (seize_state\<lparr>scaleUpedCount := 0, sf_createContainer := Some \<lparr>sc_container = a_container ''w'' [''/w''],
        priority = 1, sc_taskType = TaskTypeCreateContainer\<rparr>\<rparr>) = Some
     ((seize_node (seize_spec ''e2''))\<lparr>scaleUpContainers :=
        [seize_copy ''constraint:node==e2'' (a_container ''w'' [''/w''])]\<rparr>,
      seize_state\<lparr>scaleUpedCount := 1, sf_createContainer := Some \<lparr>sc_container = a_container ''w'' [''/w''],
        priority = 1, sc_taskType = TaskTypeCreateContainer\<rparr>\<rparr>)"
  by (subst create_plan [where k = 1, OF _ _ _ _ _ _ _ _ _])
    (auto simp: seize_state_def empty_seize_def seize_item_def seize_node_def seize_spec_def a_container_def)

end
