(* ===== verification/Engine_State.thy ===== *)
theory Engine_State
  imports Sched_Strategy Seize_Filter
begin

section \<open>The state of an engine (\<open>cluster/engine.go\<close>)\<close>

text \<open>
  The fields of an \<open>Engine\<close> and the operations that concern its health: the life cycle
  (pending, healthy, unhealthy, disconnected), the counting of connection failures, the health
  indicator that the scheduler reads, the back-off of pending engines, and what it offers the scheduler
  (\<open>NewNode\<close>). Events that the engine hands to its event handler are recorded in
  \<open>emitted\<close>. The pointer from an object to its engine is filled in from the
  engine when objects are listed. Times are in nanoseconds; \<open>now\<close> is the clock.
\<close>

subsection \<open>Data\<close>

datatype engineState = statePending | stateUnhealthy | stateHealthy | stateDisconnected

primrec stateText :: "engineState \<Rightarrow> string" where
  "stateText statePending = ''Pending''"
| "stateText stateUnhealthy = ''Unhealthy''"
| "stateText stateHealthy = ''Healthy''"
| "stateText stateDisconnected = ''Disconnected''"

record Message =
  m_Status :: string
  m_From :: string
  m_Type :: string
  m_Action :: string
  m_ID :: string
  m_ActorID :: string

text \<open>
  \<open>connected\<close> tells that the clients are real ones and not the no-operation clients, \<open>monitored\<close> that an events
  monitor was created, \<open>hasHandler\<close> that an event handler is registered.
\<close>

record Engine = EngineSpec +
  Cpus :: int
  e_Memory :: int
  Version :: string
  containers :: "(string \<times> Container) list"
  images :: "Image list"
  networks :: "(string \<times> Network) list"
  volumes :: "(string \<times> Volume) list"
  state :: engineState
  lastError :: string
  updatedAt :: int
  failureCount :: int
  overcommitRatio :: int
  FailureRetry :: int
  DeltaDuration :: int
  connected :: bool
  monitored :: bool
  hasHandler :: bool
  emitted :: "Message list"

definition engine_spec :: "Engine \<Rightarrow> EngineSpec" where
  "engine_spec e = EngineSpec.truncate e"

lemma engine_spec_sel [simp]:
  "e_ID (engine_spec e) = e_ID e" "e_IP (engine_spec e) = e_IP e" "e_Addr (engine_spec e) = e_Addr e"
  "e_Name (engine_spec e) = e_Name e" "e_Labels (engine_spec e) = e_Labels e"
  by (simp_all add: engine_spec_def EngineSpec.defs)

text \<open>\<open>ratio\<close> is the overcommit ratio already converted to hundredths.\<close>

definition NewEngine :: "int \<Rightarrow> string \<Rightarrow> int \<Rightarrow> int \<Rightarrow> Engine" where
  "NewEngine now addr ratio retry =
     \<lparr>e_ID = [], e_IP = [], e_Addr = addr, e_Name = [], e_Labels = Map.empty, Cpus = 0, e_Memory = 0, Version = [],
      containers = [], images = [], networks = [], volumes = [], state = statePending, lastError = [],
      updatedAt = now, failureCount = 0, overcommitRatio = ratio, FailureRetry = retry, DeltaDuration = 0,
      connected = False, monitored = False, hasHandler = False, emitted = []\<rparr>"

subsection \<open>Waiting\<close>

text \<open>
  \<open>delayer.Wait\<close>: the period, with \<open>rnd\<close> the draw of \<open>Int63n\<close>, which is called only with a positive bound.
\<close>

definition wait_period :: "int \<Rightarrow> int \<Rightarrow> int \<Rightarrow> (int \<Rightarrow> int) \<Rightarrow> int" where
  "wait_period rangeMin rangeMax backoffFactor rnd =
     (let waitPeriod = i64 (rangeMin * i64 (1 + backoffFactor));
          delta = i64 (rangeMax - rangeMin)
      in if delta > 0 then i64 (waitPeriod + rnd delta) else waitPeriod)"

definition backoff_factor :: "Engine \<Rightarrow> int" where
  "backoff_factor e =
     (let b = i64 (failureCount e - FailureRetry e) in if b < 0 then 0 else if b > 1000 then 1000 else b)"

subsection \<open>Events and errors\<close>

definition emitEvent :: "string \<Rightarrow> Engine \<Rightarrow> Engine" where
  "emitEvent ev e =
     (if \<not> hasHandler e then e
      else e\<lparr>emitted := emitted e @ [\<lparr>m_Status = ev, m_From = ''swarm'', m_Type = ''swarm'', m_Action = ev,
             m_ID = [], m_ActorID = []\<rparr>]\<rparr>)"

text \<open>\<open>strings.TrimSpace\<close>: the encodings of the white space characters are stripped at both ends.\<close>

definition space_seqs :: "string list" where
  "space_seqs = [[CHR 0x09], [CHR 0x0A], [CHR 0x0B], [CHR 0x0C], [CHR 0x0D], [CHR 0x20],
     [CHR 0xC2, CHR 0x85], [CHR 0xC2, CHR 0xA0], [CHR 0xE1, CHR 0x9A, CHR 0x80]] @
     map (\<lambda>c. [CHR 0xE2, CHR 0x80, c]) [CHR 0x80, CHR 0x81, CHR 0x82, CHR 0x83, CHR 0x84, CHR 0x85, CHR 0x86,
       CHR 0x87, CHR 0x88, CHR 0x89, CHR 0x8A, CHR 0xA8, CHR 0xA9, CHR 0xAF] @
     [[CHR 0xE2, CHR 0x81, CHR 0x9F], [CHR 0xE3, CHR 0x80, CHR 0x80]]"

lemma space_seqs_not_Nil: "seq \<in> set space_seqs \<Longrightarrow> seq \<noteq> []"
  by (auto simp: space_seqs_def)

function strip_seqs :: "string list \<Rightarrow> string \<Rightarrow> string" where
  "strip_seqs seqs s =
     (case first_such (\<lambda>q. q \<noteq> [] \<and> HasPrefix s q) seqs of
        None \<Rightarrow> s
      | Some q \<Rightarrow> strip_seqs seqs (drop (length q) s))"
  by pat_completeness auto
termination
  by (relation "measure (\<lambda>(seqs, s). length s)")
    (auto dest!: first_such_Some simp: HasPrefix_iff)

declare strip_seqs.simps [simp del]

definition TrimSpace :: "string \<Rightarrow> string" where
  "TrimSpace s = rev (strip_seqs (map rev space_seqs) (rev (strip_seqs space_seqs s)))"

definition setErrMsg :: "int \<Rightarrow> string \<Rightarrow> Engine \<Rightarrow> Engine" where
  "setErrMsg now errMsg e = e\<lparr>lastError := TrimSpace errMsg, updatedAt := now\<rparr>"

definition HandleIDConflict :: "int \<Rightarrow> string \<Rightarrow> Engine \<Rightarrow> Engine" where
  "HandleIDConflict now otherAddr e =
     setErrMsg now (''ID duplicated. '' @ e_ID e @ '' shared by this node '' @ e_Addr e @ '' and another node '' @ otherAddr) e"

definition IsConnectionError :: "go_error \<Rightarrow> bool" where
  "IsConnectionError err \<longleftrightarrow>
     isErrConnectionRefused err \<or> isErrConnectionFailed err \<or>
     Contains (Error err) ''onnection refused'' \<or>
     Contains (Error err) ''annot connect to the docker engine endpoint'' \<or>
     Contains (Error err) ''annot connect to the Docker daemon''"

subsection \<open>Health\<close>

definition isHealthy :: "Engine \<Rightarrow> bool" where
  "isHealthy e \<longleftrightarrow> state e = stateHealthy"

definition Status :: "Engine \<Rightarrow> string" where
  "Status e = stateText (state e)"

definition Engine_HealthIndicator :: "Engine \<Rightarrow> int" where
  "Engine_HealthIndicator e =
     (if state e \<noteq> stateHealthy \<or> failureCount e \<ge> FailureRetry e then 0
      else i64 (100 - i64 (failureCount e * 100) sdiv FailureRetry e))"

definition setState :: "engineState \<Rightarrow> Engine \<Rightarrow> Engine" where
  "setState s e = e\<lparr>state := s\<rparr>"

definition resetFailureCount :: "Engine \<Rightarrow> Engine" where
  "resetFailureCount e = e\<lparr>failureCount := 0\<rparr>"

definition incFailureCount :: "Engine \<Rightarrow> Engine" where
  "incFailureCount e =
     (let e1 = e\<lparr>failureCount := i64 (failureCount e + 1)\<rparr> in
      if state e1 = stateHealthy \<and> failureCount e1 \<ge> FailureRetry e1
      then emitEvent ''engine_disconnect'' (e1\<lparr>state := stateUnhealthy\<rparr>)
      else e1)"

definition CheckConnectionErr :: "int \<Rightarrow> go_error option \<Rightarrow> Engine \<Rightarrow> Engine" where
  "CheckConnectionErr now err e =
     (case err of
        None \<Rightarrow>
          let e1 = setErrMsg now [] e;
              e2 = (if state e1 = stateUnhealthy
                    then setState stateHealthy (emitEvent ''engine_reconnect'' e1) else e1)
          in resetFailureCount e2
      | Some er \<Rightarrow>
          if IsConnectionError er then setErrMsg now (Error er) (incFailureCount e) else e)"

text \<open>The shift and the product are those of \<open>time.Duration\<close>, which is an \<open>int64\<close>.\<close>

definition validation_backoff :: "int \<Rightarrow> int" where
  "validation_backoff failures =
     i64 (i64 ((if failures < 0 then 0 else i64 (2 ^ nat failures)) * 1000000000) + 30000000000)"

definition TimeToValidate :: "int \<Rightarrow> Engine \<Rightarrow> bool" where
  "TimeToValidate now e \<longleftrightarrow>
     state e = statePending \<and>
     (let sinceLastUpdate = now - updatedAt e in
      sinceLastUpdate > 4 * 3600 * 1000000000 \<or> sinceLastUpdate > validation_backoff (failureCount e))"

definition ValidationComplete :: "Engine \<Rightarrow> Engine" where
  "ValidationComplete e =
     (if state e \<noteq> statePending then e else e\<lparr>state := stateHealthy, failureCount := 0\<rparr>)"

definition RegisterEventHandler :: "Engine \<Rightarrow> go_error option \<times> Engine" where
  "RegisterEventHandler e =
     (if hasHandler e then (Some (errorf ''event handler already set''), e) else (None, e\<lparr>hasHandler := True\<rparr>))"

text \<open>Stopping the monitor of an engine that never had one dereferences a nil pointer.\<close>

definition Disconnect :: "Engine \<Rightarrow> Engine option" where
  "Disconnect e =
     (if state e = stateDisconnected then Some e
      else if \<not> monitored e then None
      else Some (emitEvent ''engine_disconnect'' (e\<lparr>connected := False, state := stateDisconnected\<rparr>)))"

subsection \<open>What an engine lists and reserves\<close>

text \<open>
  The source ranges over a Go map here, so a listing comes in an arbitrary order that may differ from call to
  call. The association list stands for one of these orders; what is shown of a listing does not depend on it.
\<close>

definition Engine_Containers :: "Engine \<Rightarrow> Containers" where
  "Engine_Containers e = map (\<lambda>(_, c). c\<lparr>c_Engine := engine_spec e\<rparr>) (containers e)"

definition Engine_Images :: "Engine \<Rightarrow> Image list" where
  "Engine_Images e = map (\<lambda>i. i\<lparr>i_Engine := engine_spec e\<rparr>) (images e)"

definition Engine_Networks :: "Engine \<Rightarrow> Network list" where
  "Engine_Networks e = map (\<lambda>(_, n). n\<lparr>n_Engine := engine_spec e\<rparr>) (networks e)"

definition Engine_Volumes :: "Engine \<Rightarrow> Volume list" where
  "Engine_Volumes e = map (\<lambda>(_, v). v\<lparr>v_Engine := engine_spec e\<rparr>) (volumes e)"

definition Engine_Image :: "Engine \<Rightarrow> string \<Rightarrow> Image option" where
  "Engine_Image e q = first_such (\<lambda>i. Image_Match i q True) (Engine_Images e)"

definition Engine_String :: "Engine \<Rightarrow> string" where
  "Engine_String e = ''engine '' @ e_ID e @ '' addr '' @ e_Addr e"

definition Engine_UsedMemory :: "Engine \<Rightarrow> int" where
  "Engine_UsedMemory e = fold (\<lambda>(_, c) r. i64 (r + Memory (HostConfig (c_Config c)))) (containers e) 0"

definition Engine_UsedCpus :: "Engine \<Rightarrow> int" where
  "Engine_UsedCpus e = fold (\<lambda>(_, c) r. i64 (r + CPUShares (HostConfig (c_Config c)))) (containers e) 0"

definition with_overcommit :: "int \<Rightarrow> int \<Rightarrow> int" where
  "with_overcommit amount ratio = i64 (amount + i64 (amount * ratio) sdiv 100)"

definition Engine_TotalMemory :: "Engine \<Rightarrow> int" where
  "Engine_TotalMemory e = with_overcommit (e_Memory e) (overcommitRatio e)"

definition Engine_TotalCpus :: "Engine \<Rightarrow> int" where
  "Engine_TotalCpus e = with_overcommit (Cpus e) (overcommitRatio e)"

definition NewNode :: "Engine \<Rightarrow> Node" where
  "NewNode e =
     \<lparr>nd_ID = e_ID e, nd_IP = e_IP e, nd_Addr = e_Addr e, nd_Name = e_Name e, nd_Labels = e_Labels e,
      nd_Containers = Engine_Containers e, nd_Images = Engine_Images e,
      UsedMemory = Engine_UsedMemory e, UsedCpus = Engine_UsedCpus e,
      TotalMemory = Engine_TotalMemory e, TotalCpus = Engine_TotalCpus e,
      HealthIndicator = Engine_HealthIndicator e\<rparr>"

subsection \<open>Changing the lists directly\<close>

definition AddContainer :: "Container \<Rightarrow> Engine \<Rightarrow> go_error option \<times> Engine" where
  "AddContainer c e =
     (case map_of (containers e) (c_ID c) of
        Some _ \<Rightarrow> (Some (errorf ''container already exists''), e)
      | None \<Rightarrow> (None, e\<lparr>containers := AList.update (c_ID c) c (containers e)\<rparr>))"

definition removeContainer :: "Container \<Rightarrow> Engine \<Rightarrow> go_error option \<times> Engine" where
  "removeContainer c e =
     (case map_of (containers e) (c_ID c) of
        None \<Rightarrow> (Some (errorf ''container not found''), e)
      | Some _ \<Rightarrow> (None, e\<lparr>containers := AList.delete (c_ID c) (containers e)\<rparr>))"

definition cleanupContainers :: "Engine \<Rightarrow> Engine" where
  "cleanupContainers e = e\<lparr>containers := []\<rparr>"

definition addImage :: "Image \<Rightarrow> Engine \<Rightarrow> Engine" where
  "addImage i e = e\<lparr>images := images e @ [i]\<rparr>"

definition DeleteNetwork :: "Network \<Rightarrow> Engine \<Rightarrow> Engine" where
  "DeleteNetwork n e = e\<lparr>networks := AList.delete (n_ID n) (networks e)\<rparr>"

definition AddNetwork :: "Network \<Rightarrow> Engine \<Rightarrow> Engine" where
  "AddNetwork n e = e\<lparr>networks := AList.update (n_ID n) (n\<lparr>n_Engine := engine_spec e\<rparr>) (networks e)\<rparr>"

subsection \<open>The invariant of an engine\<close>

text \<open>
  An object is stored under its own identifier, no key occurs twice, and a healthy engine has failed
  fewer times than it takes to flag it.
\<close>

definition keyed :: "('a \<Rightarrow> string) \<Rightarrow> (string \<times> 'a) list \<Rightarrow> bool" where
  "keyed f m \<longleftrightarrow> distinct (map fst m) \<and> (\<forall>(k, x) \<in> set m. f x = k)"

definition health_ok :: "Engine \<Rightarrow> bool" where
  "health_ok e \<longleftrightarrow>
     0 < FailureRetry e \<and> FailureRetry e < 2 ^ 63 \<and>
     (state e = stateHealthy \<longrightarrow> 0 \<le> failureCount e \<and> failureCount e < FailureRetry e)"

definition engine_ok :: "Engine \<Rightarrow> bool" where
  "engine_ok e \<longleftrightarrow>
     health_ok e \<and> keyed c_ID (containers e) \<and> keyed v_Name (volumes e) \<and> distinct (map fst (networks e))"

lemma keyed_Nil [simp]: "keyed f []"
  by (simp add: keyed_def)

lemma keyed_update [simp]: "keyed f m \<Longrightarrow> f x = k \<Longrightarrow> keyed f (AList.update k x m)"
  by (auto simp: keyed_def dest: alist_mem_update)

lemma keyed_delete [simp]: "keyed f m \<Longrightarrow> keyed f (AList.delete k m)"
  by (auto simp: keyed_def)

lemma keyed_lookup: "keyed f m \<Longrightarrow> map_of m k = Some x \<Longrightarrow> f x = k"
  by (auto simp: keyed_def dest: map_of_SomeD)

lemma emitEvent_fields [simp]:
  "state (emitEvent ev e) = state e" "failureCount (emitEvent ev e) = failureCount e"
  "FailureRetry (emitEvent ev e) = FailureRetry e" "containers (emitEvent ev e) = containers e"
  "volumes (emitEvent ev e) = volumes e" "networks (emitEvent ev e) = networks e"
  "images (emitEvent ev e) = images e" "connected (emitEvent ev e) = connected e"
  "hasHandler (emitEvent ev e) = hasHandler e" "monitored (emitEvent ev e) = monitored e"
  "e_ID (emitEvent ev e) = e_ID e" "e_Addr (emitEvent ev e) = e_Addr e" "e_Name (emitEvent ev e) = e_Name e"
  "updatedAt (emitEvent ev e) = updatedAt e" "lastError (emitEvent ev e) = lastError e"
  by (simp_all add: emitEvent_def)

text \<open>What the bookkeeping of a call leaves alone: everything but health, error, time and events.\<close>

lemmas health_defs = CheckConnectionErr_def incFailureCount_def setErrMsg_def setState_def resetFailureCount_def Let_def

lemma CheckConnectionErr_fields [simp]:
  "containers (CheckConnectionErr now err e) = containers e" "volumes (CheckConnectionErr now err e) = volumes e"
  "networks (CheckConnectionErr now err e) = networks e" "images (CheckConnectionErr now err e) = images e"
  "connected (CheckConnectionErr now err e) = connected e" "hasHandler (CheckConnectionErr now err e) = hasHandler e"
  "monitored (CheckConnectionErr now err e) = monitored e" "FailureRetry (CheckConnectionErr now err e) = FailureRetry e"
  "e_ID (CheckConnectionErr now err e) = e_ID e" "e_Addr (CheckConnectionErr now err e) = e_Addr e"
  "e_Name (CheckConnectionErr now err e) = e_Name e"
  by (simp_all add: health_defs split: option.splits)

lemma health_ok_inc: "health_ok e \<Longrightarrow> health_ok (incFailureCount e)"
  by (auto simp: health_ok_def incFailureCount_def Let_def in_i64_def)

lemma health_ok_CheckConnectionErr [simp]: "health_ok e \<Longrightarrow> health_ok (CheckConnectionErr now err e)"
proof (cases err)
  case None
  then show "health_ok e \<Longrightarrow> ?thesis" by (auto simp: health_ok_def health_defs)
next
  case (Some er)
  moreover assume "health_ok e"
  then have "health_ok (incFailureCount e)" by (rule health_ok_inc)
  ultimately show ?thesis using \<open>health_ok e\<close>
    by (auto simp: health_ok_def CheckConnectionErr_def setErrMsg_def)
qed

lemma engine_ok_CheckConnectionErr [simp]: "engine_ok e \<Longrightarrow> engine_ok (CheckConnectionErr now err e)"
  by (simp add: engine_ok_def)

lemma health_ok_emitEvent [simp]: "health_ok (emitEvent ev e) = health_ok e"
  by (simp add: health_ok_def)

lemma engine_ok_emitEvent [simp]: "engine_ok (emitEvent ev e) = engine_ok e"
  by (simp add: engine_ok_def)

lemma engine_ok_NewEngine [simp]: "0 < retry \<Longrightarrow> retry < 2 ^ 63 \<Longrightarrow> engine_ok (NewEngine now addr ratio retry)"
  by (simp add: engine_ok_def health_ok_def NewEngine_def)

lemma engine_ok_ValidationComplete: "engine_ok e \<Longrightarrow> engine_ok (ValidationComplete e)"
  by (simp add: engine_ok_def health_ok_def ValidationComplete_def)

lemma engine_ok_HandleIDConflict: "engine_ok e \<Longrightarrow> engine_ok (HandleIDConflict now a e)"
  by (simp add: engine_ok_def health_ok_def HandleIDConflict_def setErrMsg_def)

lemma engine_ok_Disconnect: "engine_ok e \<Longrightarrow> Disconnect e = Some e' \<Longrightarrow> engine_ok e'"
  by (auto simp: engine_ok_def health_ok_def Disconnect_def split: if_splits)

lemma engine_ok_RegisterEventHandler: "engine_ok e \<Longrightarrow> engine_ok (snd (RegisterEventHandler e))"
  by (simp add: engine_ok_def health_ok_def RegisterEventHandler_def)

subsection \<open>Health\<close>

lemma health_quotient:
  assumes "0 \<le> n" "n < m"
  shows "0 \<le> n * 100 div m \<and> n * 100 div m < (100::int)"
proof -
  have "n * 100 div m * m + n * 100 mod m = n * 100" "0 \<le> n * 100 mod m"
    using assms by simp_all
  then have "n * 100 div m * m \<le> n * 100" by linarith
  moreover have "n * 100 < 100 * m" using assms by simp
  ultimately have "n * 100 div m * m < 100 * m" by simp
  with assms show ?thesis by (simp add: pos_imp_zdiv_nonneg_iff mult_less_cancel_right)
qed

lemma sdiv_nonneg: "0 \<le> a \<Longrightarrow> 0 < b \<Longrightarrow> a sdiv b = a div (b::int)"
  by (cases "a = 0") (simp_all add: signed_divide_int_def)

text \<open>
  C20. The health indicator that the scheduler ranks nodes by lies between 0 and 100 and is 0 exactly for an
  engine that is not healthy. A successful call puts it back to 100, for an engine that was healthy as well as for
  one that had been flagged unhealthy; an engine in any other state (pending, disconnected or in maintenance) stays
  at 0. A failing call, whatever its error, never raises it. The engine's counters are consistent (\<open>health_ok\<close>) and
  a retry limit below \<open>2^63 / 100\<close> keeps the product within an \<open>int\<close>.
\<close>

theorem health_indicator_bounds:
  assumes "health_ok e" "FailureRetry e \<le> 92233720368547758"
  shows "0 \<le> Engine_HealthIndicator e \<and> Engine_HealthIndicator e \<le> 100 \<and>
    (Engine_HealthIndicator e = 0 \<longleftrightarrow> \<not> isHealthy e) \<and>
    Engine_HealthIndicator (CheckConnectionErr now None e) =
      (if state e = stateHealthy \<or> state e = stateUnhealthy then 100 else 0) \<and>
    Engine_HealthIndicator (CheckConnectionErr now (Some err) e) \<le> Engine_HealthIndicator e"
proof -
  have indicator: "Engine_HealthIndicator x = (if isHealthy x then 100 - failureCount x * 100 div FailureRetry x else 0)"
    if "health_ok x" "FailureRetry x \<le> 92233720368547758" for x
    using that health_quotient [of "failureCount x" "FailureRetry x"]
    by (auto simp: Engine_HealthIndicator_def isHealthy_def health_ok_def sdiv_nonneg in_i64_def)
  have ok: "health_ok (incFailureCount e)" "FailureRetry (incFailureCount e) = FailureRetry e"
    using health_ok_inc [OF assms(1)] by (simp, simp add: incFailureCount_def Let_def)
  have mono: "isHealthy (incFailureCount e) \<Longrightarrow> isHealthy e \<and> failureCount e \<le> failureCount (incFailureCount e)"
    using assms by (auto simp: isHealthy_def incFailureCount_def health_ok_def Let_def in_i64_def split: if_splits)
  have "failureCount e * 100 div FailureRetry e \<le> failureCount (incFailureCount e) * 100 div FailureRetry e"
    if "isHealthy (incFailureCount e)"
    using mono [OF that] assms(1) by (intro zdiv_mono1) (auto simp: health_ok_def)
  with ok mono have "Engine_HealthIndicator (incFailureCount e) \<le> Engine_HealthIndicator e"
    using assms health_quotient [of "failureCount e" "FailureRetry e"]
    by (auto simp: indicator isHealthy_def health_ok_def)
  moreover have "Engine_HealthIndicator (setErrMsg now msg x) = Engine_HealthIndicator x" for msg x
    by (simp add: Engine_HealthIndicator_def setErrMsg_def)
  ultimately have "Engine_HealthIndicator (CheckConnectionErr now (Some err) e) \<le> Engine_HealthIndicator e"
    by (simp add: CheckConnectionErr_def)
  moreover have "Engine_HealthIndicator (CheckConnectionErr now None e) =
      (if state e = stateHealthy \<or> state e = stateUnhealthy then 100 else 0)"
    using assms(1) by (auto simp: Engine_HealthIndicator_def health_defs health_ok_def in_i64_def sdiv_nonneg)
  ultimately show ?thesis
    using assms health_quotient [of "failureCount e" "FailureRetry e"]
    by (auto simp: indicator isHealthy_def health_ok_def)
qed

text \<open>The reports of successive calls, oldest first, each with the time at which it is recorded.\<close>

definition check_all :: "(int \<times> go_error option) list \<Rightarrow> Engine \<Rightarrow> Engine" where
  "check_all rs e = fold (\<lambda>(now, err). CheckConnectionErr now err) rs e"

definition connection_failure :: "go_error option \<Rightarrow> bool" where
  "connection_failure err \<longleftrightarrow> (case err of None \<Rightarrow> False | Some er \<Rightarrow> IsConnectionError er)"

definition swarm_event :: "string \<Rightarrow> Message" where
  "swarm_event ev = \<lparr>m_Status = ev, m_From = ''swarm'', m_Type = ''swarm'', m_Action = ev, m_ID = [], m_ActorID = []\<rparr>"

lemma check_all_Cons [simp]: "check_all ((now, err) # rs) e = check_all rs (CheckConnectionErr now err e)"
  by (simp add: check_all_def)

lemma check_all_Nil [simp]: "check_all [] e = e"
  by (simp add: check_all_def)

lemma emitted_emitEvent: "emitted (emitEvent ev e) = emitted e @ (if hasHandler e then [swarm_event ev] else [])"
  by (simp add: emitEvent_def swarm_event_def)

lemma failure_step:
  assumes "connection_failure err"
  shows "CheckConnectionErr now err e = setErrMsg now (Error (the err)) (incFailureCount e)"
  using assms by (auto simp: connection_failure_def CheckConnectionErr_def split: option.splits)

lemma unhealthy_stays:
  "\<forall>(now, err) \<in> set rs. connection_failure err \<Longrightarrow> state e = stateUnhealthy \<Longrightarrow>
     state (check_all rs e) = stateUnhealthy \<and> emitted (check_all rs e) = emitted e \<and>
     hasHandler (check_all rs e) = hasHandler e"
proof (induction rs arbitrary: e)
  case (Cons r rs)
  obtain now err where r: "r = (now, err)" by fastforce
  with Cons.prems have "connection_failure err" by simp
  then have "state (CheckConnectionErr now err e) = stateUnhealthy" "emitted (CheckConnectionErr now err e) = emitted e"
    using Cons.prems(2) by (simp_all add: failure_step incFailureCount_def setErrMsg_def Let_def)
  with Cons show ?case by (simp add: r)
qed simp

lemma failures_flag:
  "\<forall>(now, err) \<in> set rs. connection_failure err \<Longrightarrow> health_ok e \<Longrightarrow> state e = stateHealthy \<Longrightarrow> hasHandler e \<Longrightarrow>
     (if int (length rs) < FailureRetry e - failureCount e
      then state (check_all rs e) = stateHealthy \<and> emitted (check_all rs e) = emitted e
      else state (check_all rs e) = stateUnhealthy \<and>
           emitted (check_all rs e) = emitted e @ [swarm_event ''engine_disconnect'']) \<and> hasHandler (check_all rs e)"
proof (induction rs arbitrary: e)
  case Nil
  then show ?case by (simp add: health_ok_def)
next
  case (Cons r rs)
  obtain now err where r: "r = (now, err)" by fastforce
  let ?e = "CheckConnectionErr now err e"
  from Cons.prems r have fail: "connection_failure err" and all: "\<forall>(now, err) \<in> set rs. connection_failure err" by auto
  have eq: "?e = setErrMsg now (Error (the err)) (incFailureCount e)" by (rule failure_step [OF fail])
  have count: "i64 (failureCount e + 1) = failureCount e + 1"
    using Cons.prems by (simp add: health_ok_def in_i64_def)
  show ?case
  proof (cases "failureCount e + 1 < FailureRetry e")
    case True
    then have "state ?e = stateHealthy" "failureCount ?e = failureCount e + 1" "emitted ?e = emitted e"
      using Cons.prems count by (simp_all add: eq incFailureCount_def setErrMsg_def Let_def)
    with Cons.IH [OF all, of ?e] Cons.prems show ?thesis by (simp add: r algebra_simps)
  next
    case False
    then have "state ?e = stateUnhealthy" "emitted ?e = emitted e @ [swarm_event ''engine_disconnect'']"
      using Cons.prems count by (simp_all add: eq incFailureCount_def setErrMsg_def Let_def emitted_emitEvent)
    with unhealthy_stays [OF all, of ?e] Cons.prems False show ?thesis by (simp add: r)
  qed
qed

text \<open>
  C19. A healthy engine whose calls keep failing to connect is flagged unhealthy at the moment its failures reach
  the retry limit and not before, the handler is told once, however many failures follow, and the
  first call that gets through makes it healthy again with a clean record and a reconnect event.
\<close>

theorem flagged_and_recovers:
  assumes "health_ok e" "isHealthy e" "hasHandler e" "\<forall>(now, err) \<in> set rs. connection_failure err"
  shows "let down = FailureRetry e - failureCount e \<le> int (length rs);
             e1 = check_all rs e; e2 = CheckConnectionErr now None e1
         in isHealthy e1 = (\<not> down) \<and>
            emitted e1 = emitted e @ (if down then [swarm_event ''engine_disconnect''] else []) \<and>
            isHealthy e2 \<and> failureCount e2 = 0 \<and> lastError e2 = [] \<and>
            emitted e2 = emitted e1 @ (if down then [swarm_event ''engine_reconnect''] else [])"
proof -
  have "TrimSpace [] = []" by (simp add: TrimSpace_def strip_seqs.simps [of _ "[]"] first_such_None [THEN iffD2] HasPrefix_iff)
  with failures_flag [OF assms(4,1) _ assms(3)] assms(2) show ?thesis
    by (auto simp: Let_def isHealthy_def CheckConnectionErr_def setErrMsg_def setState_def resetFailureCount_def emitted_emitEvent
        split: if_splits)
qed

definition refused :: go_error where
  "refused = errorf ''dial tcp: connection refused''"

definition demo_engine :: Engine where
  "demo_engine = (NewEngine 0 ''10.0.0.1:2375'' 5 3)\<lparr>state := stateHealthy, hasHandler := True\<rparr>"

lemma demo_engine_ok: "health_ok demo_engine" "isHealthy demo_engine" "hasHandler demo_engine"
  "FailureRetry demo_engine = 3" "failureCount demo_engine = 0" "emitted demo_engine = []"
  by (simp_all add: demo_engine_def NewEngine_def health_ok_def isHealthy_def)

lemma refused_fails: "connection_failure (Some refused)"
  by (simp add: connection_failure_def refused_def IsConnectionError_def Contains_def)

theorem health_indicator_bounds_witness:
  "Engine_HealthIndicator (CheckConnectionErr 1 None (demo_engine\<lparr>state := stateUnhealthy, failureCount := 3\<rparr>)) = 100"
proof -
  have "health_ok (demo_engine\<lparr>state := stateUnhealthy, failureCount := 3\<rparr>)"
    by (simp add: health_ok_def demo_engine_def NewEngine_def in_i64_def)
  from health_indicator_bounds [OF this, of 1 refused] show ?thesis
    by (simp add: demo_engine_def NewEngine_def)
qed

theorem flagged_and_recovers_witness:
  "emitted (check_all [(1, Some refused), (2, Some refused), (3, Some refused), (4, Some refused)] demo_engine) =
     [swarm_event ''engine_disconnect'']"
  using flagged_and_recovers [of demo_engine "[(1, Some refused), (2, Some refused), (3, Some refused), (4, Some refused)]"]
  by (simp add: demo_engine_ok refused_fails Let_def)

subsection \<open>The back-off of pending engines\<close>

lemma validation_backoff_small:
  assumes "0 \<le> n" "n \<le> 33"
  shows "validation_backoff n = (2 ^ nat n + 30) * 1000000000"
proof -
  have "(2::int) ^ nat n \<le> 2 ^ 33" using assms by (intro power_increasing) auto
  then have "in_i64 (2 ^ nat n)" "in_i64 (2 ^ nat n * 1000000000)" "in_i64 (2 ^ nat n * 1000000000 + 30000000000)"
    by (auto simp: in_i64_def intro: order_trans [of _ 0])
  with assms show ?thesis by (simp add: validation_backoff_def algebra_simps)
qed

lemma validation_backoff_34: "validation_backoff 34 < 0"
  by (simp add: validation_backoff_def i64_def)

text \<open>
  A pending engine that failed up to 33 times is validated again once \<open>2^n + 30\<close> seconds, and at most four
  hours, have passed. At 34 failures the duration overflows and the engine is due at once, whatever the
  time of its last attempt.
\<close>

lemma validation_schedule:
  assumes "state e = statePending"
  shows "(0 \<le> failureCount e \<and> failureCount e \<le> 33 \<longrightarrow>
            TimeToValidate now e =
              (now - updatedAt e > min (4 * 3600) (2 ^ nat (failureCount e) + 30) * 1000000000)) \<and>
         (failureCount e = 34 \<and> updatedAt e \<le> now \<longrightarrow> TimeToValidate now e)"
  using assms validation_backoff_34
  by (auto simp: TimeToValidate_def validation_backoff_small min_def Let_def)

lemma validation_schedule_witness:
  "TimeToValidate 1 (demo_engine\<lparr>state := statePending, failureCount := 34\<rparr>) \<and>
   \<not> TimeToValidate 1 (demo_engine\<lparr>state := statePending, failureCount := 33\<rparr>)"
  using validation_schedule [of "demo_engine\<lparr>state := statePending, failureCount := 34\<rparr>" 1]
    validation_schedule [of "demo_engine\<lparr>state := statePending, failureCount := 33\<rparr>" 1]
  by (simp add: demo_engine_def NewEngine_def)

end
