(* ===== verification/Op_Monad.thy ===== *)
theory Op_Monad
  imports Cattle_Prelude
begin

section \<open>Operations with state, errors and panics\<close>

text \<open>
  An operation maps a state to a result and a new state, or to \<open>None\<close> when it panics. Sequencing
  (\<open>and_then\<close>), the early return on an error (\<open>or_return\<close>, Go's \<open>if err != nil { return err }\<close>) and
  ranging over a list are the combinators that the models of stateful code are built from. \<open>keeps P m\<close>
  says that the operation takes states satisfying \<open>P\<close> to such states; its rules, collected in
  \<open>keeps_rules\<close>, mirror the combinators, so that an invariant of a composed operation follows from
  those of its parts.
\<close>

type_synonym ('s, 'a) op = "'s \<Rightarrow> ('a \<times> 's) option"

named_theorems keeps_rules "operations that preserve a predicate of the state"

definition ret :: "'a \<Rightarrow> ('s, 'a) op" where
  "ret x s = Some (x, s)"

definition and_then :: "('s, 'a) op \<Rightarrow> ('a \<Rightarrow> ('s, 'b) op) \<Rightarrow> ('s, 'b) op" where
  "and_then m f s = (case m s of None \<Rightarrow> None | Some (x, s') \<Rightarrow> f x s')"

definition or_return :: "('s, 'e + 'a) op \<Rightarrow> ('a \<Rightarrow> ('s, 'e + 'b) op) \<Rightarrow> ('s, 'e + 'b) op" where
  "or_return m f = and_then m (\<lambda>r. case r of Inl err \<Rightarrow> ret (Inl err) | Inr x \<Rightarrow> f x)"

definition read :: "('s \<Rightarrow> 'a) \<Rightarrow> ('s, 'a) op" where
  "read f s = Some (f s, s)"

definition modify :: "('s \<Rightarrow> 's) \<Rightarrow> ('s, unit) op" where
  "modify f s = Some ((), f s)"

definition panic :: "('s, 'a) op" where
  "panic s = None"

definition or_panic :: "'a option \<Rightarrow> ('a \<Rightarrow> ('s, 'b) op) \<Rightarrow> ('s, 'b) op" where
  "or_panic v f = (case v of None \<Rightarrow> panic | Some x \<Rightarrow> f x)"

primrec fold_op :: "('a \<Rightarrow> 'b \<Rightarrow> ('s, 'b) op) \<Rightarrow> 'a list \<Rightarrow> 'b \<Rightarrow> ('s, 'b) op" where
  "fold_op f [] b = ret b"
| "fold_op f (x # xs) b = and_then (f x b) (fold_op f xs)"

subsection \<open>Evaluation\<close>

lemmas op_simps = ret_def and_then_def or_return_def read_def modify_def panic_def or_panic_def

lemma and_then_Some:
  "and_then m f s = Some (y, s2) \<longleftrightarrow> (\<exists>x s1. m s = Some (x, s1) \<and> f x s1 = Some (y, s2))"
  by (auto simp: and_then_def split: option.splits)

lemma and_then_ret [simp]: "and_then m ret = m"
  by (rule ext) (simp add: and_then_def ret_def split: option.splits)

lemma ret_and_then [simp]: "and_then (ret x) f = f x"
  by (rule ext) (simp add: and_then_def ret_def)

lemma and_then_assoc: "and_then (and_then m f) g = and_then m (\<lambda>x. and_then (f x) g)"
  by (rule ext) (simp add: and_then_def split: option.splits)

subsection \<open>Predicates of the state that an operation keeps\<close>

definition keeps :: "('s \<Rightarrow> bool) \<Rightarrow> ('s, 'a) op \<Rightarrow> bool" where
  "keeps P m \<longleftrightarrow> (\<forall>s x s'. P s \<longrightarrow> m s = Some (x, s') \<longrightarrow> P s')"

lemma keepsI: "(\<And>s x s'. P s \<Longrightarrow> m s = Some (x, s') \<Longrightarrow> P s') \<Longrightarrow> keeps P m"
  by (simp add: keeps_def)

lemma keepsD: "keeps P m \<Longrightarrow> P s \<Longrightarrow> m s = Some (x, s') \<Longrightarrow> P s'"
  by (auto simp: keeps_def)

lemma keeps_ret [keeps_rules]: "keeps P (ret x)"
  by (simp add: keeps_def ret_def)

lemma keeps_panic [keeps_rules]: "keeps P panic"
  by (simp add: keeps_def panic_def)

lemma keeps_and_then [keeps_rules]: "keeps P m \<Longrightarrow> (\<And>x. keeps P (f x)) \<Longrightarrow> keeps P (and_then m f)"
  unfolding keeps_def and_then_Some by blast

lemma keeps_or_return [keeps_rules]: "keeps P m \<Longrightarrow> (\<And>x. keeps P (f x)) \<Longrightarrow> keeps P (or_return m f)"
  by (auto simp: or_return_def intro!: keeps_rules split: sum.splits)

lemma keeps_read [keeps_rules]: "keeps P (read f)"
  by (simp add: keeps_def read_def)

lemma keeps_modify [keeps_rules]: "(\<And>s. P s \<Longrightarrow> P (f s)) \<Longrightarrow> keeps P (modify f)"
  by (simp add: keeps_def modify_def)

lemma keeps_or_panic [keeps_rules]: "(\<And>x. v = Some x \<Longrightarrow> keeps P (f x)) \<Longrightarrow> keeps P (or_panic v f)"
  by (auto simp: or_panic_def intro: keeps_panic split: option.splits)

lemma keeps_fold_op [keeps_rules]: "(\<And>x b. keeps P (f x b)) \<Longrightarrow> keeps P (fold_op f xs b)"
  by (induction xs arbitrary: b) (auto intro!: keeps_rules)

lemma keeps_if [keeps_rules]: "(b \<Longrightarrow> keeps P m) \<Longrightarrow> (\<not> b \<Longrightarrow> keeps P n) \<Longrightarrow> keeps P (if b then m else n)"
  by simp

lemma keeps_case_option [keeps_rules]:
  "(v = None \<Longrightarrow> keeps P m) \<Longrightarrow> (\<And>x. v = Some x \<Longrightarrow> keeps P (f x)) \<Longrightarrow>
     keeps P (case v of None \<Rightarrow> m | Some x \<Rightarrow> f x)"
  by (simp split: option.splits)

lemma keeps_case_sum [keeps_rules]:
  "(\<And>x. v = Inl x \<Longrightarrow> keeps P (f x)) \<Longrightarrow> (\<And>x. v = Inr x \<Longrightarrow> keeps P (g x)) \<Longrightarrow>
     keeps P (case v of Inl x \<Rightarrow> f x | Inr x \<Rightarrow> g x)"
  by (simp split: sum.splits)

lemma keeps_case_prod [keeps_rules]: "(\<And>x y. v = (x, y) \<Longrightarrow> keeps P (f x y)) \<Longrightarrow> keeps P (case v of (x, y) \<Rightarrow> f x y)"
  by (simp split: prod.splits)

subsection \<open>Results\<close>

text \<open>\<open>gives P m Q\<close>: the operation keeps \<open>P\<close>, and its result satisfies \<open>Q\<close>.\<close>

definition gives :: "('s \<Rightarrow> bool) \<Rightarrow> ('s, 'a) op \<Rightarrow> ('a \<Rightarrow> bool) \<Rightarrow> bool" where
  "gives P m Q \<longleftrightarrow> (\<forall>s x s'. P s \<longrightarrow> m s = Some (x, s') \<longrightarrow> P s' \<and> Q x)"

lemma gives_keeps: "gives P m Q \<Longrightarrow> keeps P m"
  by (simp add: gives_def keeps_def)

lemma keeps_gives: "keeps P m \<Longrightarrow> gives P m (\<lambda>_. True)"
  by (simp add: gives_def keeps_def)

lemma gives_ret: "Q x \<Longrightarrow> gives P (ret x) Q"
  by (simp add: gives_def ret_def)

lemma gives_and_then: "gives P m Q \<Longrightarrow> (\<And>x. Q x \<Longrightarrow> gives P (f x) R) \<Longrightarrow> gives P (and_then m f) R"
  unfolding gives_def and_then_Some by blast

lemma gives_keeps_then: "gives P m Q \<Longrightarrow> (\<And>x. Q x \<Longrightarrow> keeps P (f x)) \<Longrightarrow> keeps P (and_then m f)"
  unfolding gives_def keeps_def and_then_Some by blast

lemma gives_fold_op: "(\<And>x b. Q b \<Longrightarrow> gives P (f x b) Q) \<Longrightarrow> Q b \<Longrightarrow> gives P (fold_op f xs b) Q"
  by (induction xs arbitrary: b) (auto intro!: gives_ret gives_and_then)

lemma gives_read: "(\<And>s. P s \<Longrightarrow> Q (f s)) \<Longrightarrow> gives P (read f) Q"
  by (simp add: gives_def read_def)

end
