(* ===== verification/Engine_Ops.thy ===== *)
theory Engine_Ops
  imports Engine_State Op_Monad
begin

section \<open>The operations of an engine (\<open>cluster/engine.go\<close>)\<close>

text \<open>
  Every call that an engine makes to its docker daemon and what it does to the engine's state: reading
  the machine's specs, refreshing the lists of containers, images, networks and volumes, creating and
  removing objects, pulling and loading images, reacting to the daemon's events. The daemon and
  its client library are the parameter \<open>api\<close>, over an arbitrary daemon state \<open>'d\<close> that also carries
  the clock. Every call is followed by \<open>CheckConnectionErr\<close>. An operation runs to its end
  before the next one starts; the source's locks do not make whole operations atomic.
\<close>

subsection \<open>The docker API\<close>

type_synonym ('d, 'a) call = "'d \<Rightarrow> 'a result \<times> 'd"

text \<open>\<open>types.Info\<close>; \<open>SystemTime\<close> is \<open>None\<close> when absent, and the zero time when it does not parse.\<close>

record DockerInfo =
  info_ID :: string
  info_Name :: string
  NCPU :: int
  MemTotal :: int
  SystemTime :: "int option"
  info_Driver :: string
  KernelVersion :: string
  OperatingSystem :: string
  info_Labels :: "string list"

text \<open>\<open>types.Container\<close>, an entry of the daemon's container list.\<close>

record ListEntry =
  l_ID :: string
  l_Names :: "string list"
  l_Image :: string
  l_Ports :: "Port list"
  l_Labels :: "string \<rightharpoonup> string"
  l_State :: string
  l_Created :: int

text \<open>\<open>types.AuthConfig\<close>.\<close>

record AuthConfig =
  Username :: string
  Password :: string
  Auth :: string
  Email :: string
  ServerAddress :: string
  IdentityToken :: string
  RegistryToken :: string

text \<open>\<open>types.ImageBuildOptions\<close>, the fields that the API sets.\<close>

record ImageBuildOptions =
  bo_Dockerfile :: string
  bo_Tags :: "string list"
  bo_RemoteContext :: string
  bo_NoCache :: bool
  bo_PullParent :: bool
  bo_Remove :: bool
  bo_ForceRemove :: bool
  bo_SuppressOutput :: bool
  bo_Isolation :: string
  bo_Memory :: int
  bo_MemorySwap :: int
  bo_CPUShares :: int
  bo_CPUPeriod :: int
  bo_CPUQuota :: int
  bo_CPUSetCPUs :: string
  bo_CPUSetMems :: string
  bo_CgroupParent :: string
  bo_ShmSize :: int
  bo_BuildArgs :: "(string \<times> string) list"
  bo_Ulimits :: "(string \<times> int \<times> int) list"
  bo_Labels :: "string \<rightharpoonup> string"
  bo_AuthConfigs :: "string \<rightharpoonup> AuthConfig"

text \<open>
  The body of a pull or load response: the JSON values decoded from it (an object, or \<open>None\<close> for null) and how
  it ends, by end of file or by an error.
\<close>

record Stream =
  stream_values :: "(string \<times> string) list option list"
  stream_end :: "go_error option"

record 'd Api =
  clock :: "'d \<Rightarrow> int"
  api_Info :: "('d, DockerInfo) call"
  api_ServerVersion :: "('d, string) call"
  api_UpdateClientVersion :: "string \<Rightarrow> 'd \<Rightarrow> 'd"
  api_ContainerList :: "string option \<Rightarrow> ('d, ListEntry list) call"
  api_ContainerInspect :: "string \<Rightarrow> ('d, ContainerJSON) call"
  api_ContainerCreate :: "Config \<Rightarrow> HostConfig \<Rightarrow> NetworkingConfig \<Rightarrow> string \<Rightarrow> ('d, string) call"
  api_ContainerRemove :: "string \<Rightarrow> bool \<Rightarrow> bool \<Rightarrow> ('d, unit) call"
  api_ContainerStart :: "string \<Rightarrow> ('d, unit) call"
  client_StartContainer :: "string \<Rightarrow> HostConfig \<Rightarrow> ('d, unit) call"
  api_ContainerRename :: "string \<Rightarrow> string \<Rightarrow> ('d, unit) call"
  api_ImageList :: "('d, Image list) call"
  api_ImageRemove :: "string \<Rightarrow> bool \<Rightarrow> ('d, string list) call"
  api_ImagePull :: "string \<Rightarrow> string \<Rightarrow> ('d, Stream) call"
  api_ImageLoad :: "string \<Rightarrow> ('d, Stream) call"
  api_ImageImport :: "string \<Rightarrow> string \<Rightarrow> string \<Rightarrow> string \<Rightarrow> ('d, unit) call"
  api_ImageBuild :: "string \<Rightarrow> ImageBuildOptions \<Rightarrow> ('d, string \<times> go_error option) call"
  api_ImageTag :: "string \<Rightarrow> string \<Rightarrow> ('d, unit) call"
  api_NetworkList :: "('d, Network list) call"
  api_NetworkInspect :: "string \<Rightarrow> ('d, Network) call"
  api_NetworkCreate :: "string \<Rightarrow> string \<Rightarrow> ('d, string) call"
  api_NetworkRemove :: "string \<Rightarrow> ('d, unit) call"
  api_NetworkDisconnect :: "string \<Rightarrow> string \<Rightarrow> bool \<Rightarrow> ('d, unit) call"
  api_NetworkConnect :: "string \<Rightarrow> string \<Rightarrow> EndpointSettings \<Rightarrow> ('d, unit) call"
  api_VolumeList :: "('d, Volume list) call"
  api_VolumeInspect :: "string \<Rightarrow> ('d, Volume) call"
  api_VolumeCreate :: "string \<Rightarrow> string \<Rightarrow> ('d, Volume) call"
  api_VolumeRemove :: "string \<Rightarrow> ('d, unit) call"

text \<open>The no-operation client, which answers every call with an error.\<close>

definition nop_call :: "('d, 'a) call" where
  "nop_call d = (Inl (errorf ''Engine no longer exists''), d)"

definition call_api :: "'d Api \<Rightarrow> ('d, 'a) call \<Rightarrow> (Engine \<times> 'd, 'a result) op" where
  "call_api api f = (\<lambda>(e, d).
     let (r, d1) = (if connected e then f d else nop_call d)
     in Some (r, CheckConnectionErr (clock api d1) (res_err r) e, d1))"

definition on_engine :: "(Engine \<Rightarrow> Engine) \<Rightarrow> (Engine \<times> 'd, unit) op" where
  "on_engine f = modify (\<lambda>(e, d). (f e, d))"

definition the_engine :: "(Engine \<times> 'd, Engine) op" where
  "the_engine = read fst"

definition HTTPClientAndScheme :: "Engine \<Rightarrow> unit result" where
  "HTTPClientAndScheme e =
     (if connected e then Inr ()
      else Inl (errorf (''Possibly lost connection to Engine (name: '' @ e_Name e @ '', ID: '' @ e_ID e @ '') '')))"

subsection \<open>Versions and specs\<close>

text \<open>\<open>versions.compare\<close> of the docker API types: number by number, a missing or unreadable number counts as Atoi leaves it.\<close>

fun compare_tabs :: "string list \<Rightarrow> string list \<Rightarrow> int" where
  "compare_tabs [] [] = 0"
| "compare_tabs cs os =
     (let currInt = (case cs of [] \<Rightarrow> 0 | c # _ \<Rightarrow> fst (Atoi c));
          otherInt = (case os of [] \<Rightarrow> 0 | c # _ \<Rightarrow> fst (Atoi c))
      in if currInt > otherInt then 1
         else if otherInt > currInt then - 1
         else compare_tabs (tl cs) (tl os))"

definition LessThan :: "string \<Rightarrow> string \<Rightarrow> bool" where
  "LessThan v other \<longleftrightarrow> compare_tabs (str_Split v (CHR ''.'')) (str_Split other (CHR ''.'')) = - 1"

definition minSupportedVersion :: string where
  "minSupportedVersion = ''1.8.0''"

definition updateClientVersionFromServer :: "string \<Rightarrow> string" where
  "updateClientVersionFromServer v =
     (if LessThan v ''1.9'' then ''1.20''
      else if LessThan v ''1.10'' then ''1.21''
      else if LessThan v ''1.11'' then ''1.22''
      else if LessThan v ''1.12'' then ''1.23''
      else if LessThan v ''1.13'' then ''1.24''
      else ''1.25'')"

text \<open>\<open>Time.Sub\<close> saturates; a difference below the threshold of two seconds is ignored.\<close>

definition time_Sub :: "int \<Rightarrow> int \<Rightarrow> int" where
  "time_Sub t u = max (- (2 ^ 63)) (min (2 ^ 63 - 1) (t - u))"

definition delta_duration :: "int \<Rightarrow> int option \<Rightarrow> int" where
  "delta_duration now systemTime =
     (let delta = (case systemTime of None \<Rightarrow> 0 | Some t \<Rightarrow> time_Sub now t);
          absDelta = (if delta < 0 then (- delta) div 1000000000 * 1000000000 else delta)
      in if absDelta < 2000000000 then 0 else delta)"

definition engine_text :: "Engine \<Rightarrow> string" where
  "engine_text e = ''Engine (ID: '' @ e_ID e @ '', Addr: '' @ e_Addr e @ '')''"

definition invalid_label :: "Engine \<Rightarrow> string \<Rightarrow> go_error" where
  "invalid_label e label =
     errorf (engine_text e @ '' contains an invalid label ('' @ label @ '') not formatted as \"key=value\".'')"

fun add_labels :: "Engine \<Rightarrow> string list \<Rightarrow> unit result \<times> Engine" where
  "add_labels e [] = (Inr (), e)"
| "add_labels e (label # rest) =
     (let kv = SplitN2 label ''='' in
      if length kv \<noteq> 2
      then (Inl (invalid_label e label), e)
      else if kv ! 0 = ''node'' then add_labels e rest
      else if e_Labels e (kv ! 0) \<noteq> None then add_labels e rest
      else add_labels (e\<lparr>e_Labels := (e_Labels e)(kv ! 0 \<mapsto> kv ! 1)\<rparr>) rest)"

definition own_label :: "string \<Rightarrow> string \<Rightarrow> (string \<rightharpoonup> string) \<Rightarrow> (string \<rightharpoonup> string)" where
  "own_label k v ls = (if v \<noteq> [] then ls(k \<mapsto> v) else ls)"

definition own_labels :: "DockerInfo \<Rightarrow> (string \<rightharpoonup> string)" where
  "own_labels info =
     own_label ''operatingsystem'' (OperatingSystem info)
       (own_label ''kernelversion'' (KernelVersion info) (own_label ''storagedriver'' (info_Driver info) Map.empty))"

text \<open>The part of \<open>updateSpecs\<close> that runs under the engine's lock.\<close>

definition apply_specs :: "int \<Rightarrow> DockerInfo \<Rightarrow> Engine \<Rightarrow> unit result \<times> Engine" where
  "apply_specs now info e =
     (if e_ID e \<noteq> [] \<and> e_ID e \<noteq> info_ID info then
        let message = engine_text e @ '' shows up with another ID:'' @ info_ID info @
              ''. Please remove it from cluster, it can be added back.''
        in (Inl (errorf message), e\<lparr>state := statePending, lastError := message\<rparr>)
      else
        add_labels
          (e\<lparr>e_ID := info_ID info, DeltaDuration := delta_duration now (SystemTime info), e_Name := info_Name info,
             Cpus := NCPU info, e_Memory := MemTotal info, e_Labels := own_labels info\<rparr>)
          (info_Labels info))"

definition updateSpecs :: "'d Api \<Rightarrow> (Engine \<times> 'd, unit result) op" where
  "updateSpecs api =
     or_return (call_api api (api_Info api)) (\<lambda>info.
     and_then the_engine (\<lambda>e.
     if NCPU info = 0 \<or> MemTotal info = 0
     then ret (Inl (errorf (''cannot get resources for this engine, make sure '' @ e_Addr e @
            '' is a Docker Engine, not a Swarm manager'')))
     else or_return (call_api api (api_ServerVersion api)) (\<lambda>v.
     if LessThan v minSupportedVersion
     then ret (Inl (errorf (''engine '' @ e_Addr e @
            '' is running an unsupported version of Docker Engine. Please upgrade to at least '' @ minSupportedVersion)))
     else and_then (on_engine (\<lambda>e. e\<lparr>Version := v\<rparr>)) (\<lambda>_.
     and_then (modify (\<lambda>(e, d). (e, api_UpdateClientVersion api (updateClientVersionFromServer v) d))) (\<lambda>_.
     and_then (read (\<lambda>(e, d). apply_specs (clock api d) info e)) (\<lambda>(r, e').
     and_then (on_engine (\<lambda>_. e')) (\<lambda>_. ret r)))))))"

subsection \<open>Images, networks and volumes\<close>

definition RefreshImages :: "'d Api \<Rightarrow> (Engine \<times> 'd, unit result) op" where
  "RefreshImages api =
     or_return (call_api api (api_ImageList api)) (\<lambda>is.
     and_then (on_engine (\<lambda>e. e\<lparr>images := map (\<lambda>i. i\<lparr>i_Engine := engine_spec e\<rparr>) is\<rparr>)) (\<lambda>_. ret (Inr ())))"

definition RemoveImage :: "'d Api \<Rightarrow> string \<Rightarrow> bool \<Rightarrow> (Engine \<times> 'd, string list result) op" where
  "RemoveImage api name force =
     and_then (call_api api (api_ImageRemove api name force)) (\<lambda>r.
     and_then (RefreshImages api) (\<lambda>_. ret r))"

definition RemoveNetwork :: "'d Api \<Rightarrow> Network \<Rightarrow> (Engine \<times> 'd, unit result) op" where
  "RemoveNetwork api n =
     or_return (call_api api (api_NetworkRemove api (n_ID n))) (\<lambda>_.
     and_then (on_engine (DeleteNetwork n)) (\<lambda>_. ret (Inr ())))"

definition RemoveVolume :: "'d Api \<Rightarrow> string \<Rightarrow> (Engine \<times> 'd, unit result) op" where
  "RemoveVolume api name =
     or_return (call_api api (api_VolumeRemove api name)) (\<lambda>_.
     and_then (on_engine (\<lambda>e. e\<lparr>volumes := AList.delete name (volumes e)\<rparr>)) (\<lambda>_. ret (Inr ())))"

definition refreshNetwork :: "'d Api \<Rightarrow> string \<Rightarrow> (Engine \<times> 'd, unit result) op" where
  "refreshNetwork api nid =
     and_then (call_api api (api_NetworkInspect api nid)) (\<lambda>r. case r of
       Inl err \<Rightarrow>
         if Contains (Error err) ''No such network''
         then and_then (on_engine (\<lambda>e. e\<lparr>networks := AList.delete nid (networks e)\<rparr>)) (\<lambda>_. ret (Inr ()))
         else ret (Inl err)
     | Inr n \<Rightarrow>
         and_then (on_engine (\<lambda>e. e\<lparr>networks := AList.update nid (n\<lparr>n_Engine := engine_spec e\<rparr>) (networks e)\<rparr>))
           (\<lambda>_. ret (Inr ())))"

definition RefreshNetworks :: "'d Api \<Rightarrow> (Engine \<times> 'd, unit result) op" where
  "RefreshNetworks api =
     or_return (call_api api (api_NetworkList api)) (\<lambda>ns.
     and_then (on_engine (\<lambda>e. e\<lparr>networks := fold (\<lambda>n. AList.update (n_ID n) (n\<lparr>n_Engine := engine_spec e\<rparr>)) ns []\<rparr>))
       (\<lambda>_. ret (Inr ())))"

definition RefreshVolumes :: "'d Api \<Rightarrow> (Engine \<times> 'd, unit result) op" where
  "RefreshVolumes api =
     or_return (call_api api (api_VolumeList api)) (\<lambda>vs.
     and_then (on_engine (\<lambda>e. e\<lparr>volumes := fold (\<lambda>v. AList.update (v_Name v) (v\<lparr>v_Engine := engine_spec e\<rparr>)) vs []\<rparr>))
       (\<lambda>_. ret (Inr ())))"

definition refreshVolume :: "'d Api \<Rightarrow> string \<Rightarrow> (Engine \<times> 'd, unit result) op" where
  "refreshVolume api q =
     and_then (call_api api (api_VolumeInspect api q)) (\<lambda>r. case r of
       Inl err \<Rightarrow>
         if Contains (Error err) ''No such volume''
         then and_then (on_engine (\<lambda>e. e\<lparr>volumes := AList.delete q (volumes e)\<rparr>)) (\<lambda>_. ret (Inr ()))
         else ret (Inl err)
     | Inr v \<Rightarrow>
         and_then (on_engine (\<lambda>e. e\<lparr>volumes := AList.update (v_Name v) (v\<lparr>v_Engine := engine_spec e\<rparr>) (volumes e)\<rparr>))
           (\<lambda>_. ret (Inr ())))"

subsection \<open>Containers\<close>

definition zero_host :: HostConfig where
  "zero_host = \<lparr>Memory = 0, MemorySwap = 0, CPUShares = 0, CpusetCpus = [], NetworkMode = [], PortBindings = [],
     VolumesFrom = [], Links = []\<rparr>"

definition zero_container :: "EngineSpec \<Rightarrow> Container" where
  "zero_container spec =
     \<lparr>c_ID = [], Names = [], c_Image = [], c_Ports = [], c_Labels = Map.empty, State = [], Created = 0,
      c_Config = \<lparr>Env = [], Labels = Map.empty, Image = [], ExposedPorts = [], HostConfig = zero_host, NetworkingConfig = []\<rparr>,
      Info = \<lparr>Info_Name = [], Info_Created = [], Info_State = None, Info_HostConfig = None,
        Info_Config = \<lparr>Env = [], Labels = Map.empty, Image = [], ExposedPorts = []\<rparr>, Info_NetworkSettings = None, Mounts = [], ExecIDs = []\<rparr>,
      c_Engine = spec\<rparr>"

text \<open>
  The inspection within \<open>updateContainer\<close>. An answer without network settings, host configuration or state
  is a nil dereference. The stored configuration shares its label map with the stored answer, whose labels
  nothing but a log line reads. CPU shares are turned into a number of CPUs.
\<close>

definition inspect_into :: "'d Api \<Rightarrow> string \<Rightarrow> Container \<Rightarrow> (Engine \<times> 'd, Container result) op" where
  "inspect_into api cid c =
     or_return (call_api api (api_ContainerInspect api cid)) (\<lambda>info.
     and_then the_engine (\<lambda>e.
     or_panic (Info_NetworkSettings info) (\<lambda>ns.
     or_panic (Info_HostConfig info) (\<lambda>h.
     or_panic (Info_State info) (\<lambda>st.
       let config = BuildContainerConfig (Info_Config info) h (Networks ns);
           host = HostConfig config;
           config = config\<lparr>HostConfig := host\<lparr>CPUShares := i64 (CPUShares host * Cpus e) sdiv 1024\<rparr>\<rparr>;
           st = st\<lparr>StartedAt := StartedAt st + DeltaDuration e, FinishedAt := FinishedAt st + DeltaDuration e\<rparr>
       in ret (Inr (c\<lparr>c_Config := config, Info := info\<lparr>Info_State := Some st\<rparr>\<rparr>)))))))"

text \<open>
  A known container is updated in place, so the engine's own map sees the new value even when the result goes to
  another map.
\<close>

definition updateContainer ::
    "'d Api \<Rightarrow> ListEntry \<Rightarrow> (string \<times> Container) list \<Rightarrow> bool \<Rightarrow> (Engine \<times> 'd, (string \<times> Container) list result) op" where
  "updateContainer api c cs full =
     and_then the_engine (\<lambda>e.
     let known = map_of (containers e) (l_ID c);
         full = (case known of
             None \<Rightarrow> True
           | Some k \<Rightarrow> full \<or> (case Info_State (Info k) of None \<Rightarrow> False | Some st \<Rightarrow> Restarting st));
         k = (case known of None \<Rightarrow> zero_container (engine_spec e) | Some k \<Rightarrow> k);
         created = i64 (l_Created c + DeltaDuration e div 1000000000)
     in or_return (if full then inspect_into api (l_ID c) k else ret (Inr k)) (\<lambda>k.
        let k = k\<lparr>c_ID := l_ID c, Names := l_Names c, c_Image := l_Image c, c_Ports := l_Ports c, c_Labels := l_Labels c, State := l_State c, Created := created\<rparr>
        in and_then (on_engine (\<lambda>e. if known = None then e else e\<lparr>containers := AList.update (l_ID c) k (containers e)\<rparr>)) (\<lambda>_.
           ret (Inr (AList.update (l_ID c) k cs)))))"

definition RefreshContainers :: "'d Api \<Rightarrow> bool \<Rightarrow> (Engine \<times> 'd, unit result) op" where
  "RefreshContainers api full =
     or_return (call_api api (api_ContainerList api None)) (\<lambda>cs.
     and_then (fold_op (\<lambda>c merged. and_then (updateContainer api c merged full) (\<lambda>r.
                 case r of Inl _ \<Rightarrow> ret merged | Inr merged' \<Rightarrow> ret merged')) cs []) (\<lambda>merged.
     and_then (on_engine (\<lambda>e. e\<lparr>containers := merged\<rparr>)) (\<lambda>_. ret (Inr ()))))"

text \<open>The result is the container, nil when it is gone or when a full refresh took place, or an error.\<close>

definition refreshContainer :: "'d Api \<Rightarrow> string \<Rightarrow> bool \<Rightarrow> (Engine \<times> 'd, Container option result) op" where
  "refreshContainer api cid full =
     or_return (call_api api (api_ContainerList api (Some cid))) (\<lambda>cs. case cs of
       [] \<Rightarrow> and_then (on_engine (\<lambda>e. e\<lparr>containers := AList.delete cid (containers e)\<rparr>)) (\<lambda>_. ret (Inr None))
     | [c] \<Rightarrow>
         and_then the_engine (\<lambda>e.
         or_return (updateContainer api c (containers e) full) (\<lambda>cs'.
         and_then (on_engine (\<lambda>e. e\<lparr>containers := cs'\<rparr>)) (\<lambda>_. ret (Inr (map_of cs' (l_ID c))))))
     | _ \<Rightarrow> or_return (RefreshContainers api full) (\<lambda>_. ret (Inr None)))"

subsection \<open>Registry credentials\<close>

text \<open>\<open>json.Marshal\<close> of an \<open>AuthConfig\<close>, whose empty fields are left out, and \<open>base64.URLEncoding\<close>.\<close>

definition auth_json :: "AuthConfig \<Rightarrow> string" where
  "auth_json a =
     ''{'' @ str_Join
       (map (\<lambda>(k, v). json_quote k @ '':'' @ json_quote v)
         (filter (\<lambda>(k, v). v \<noteq> [])
           [(''username'', Username a), (''password'', Password a), (''auth'', Auth a), (''email'', Email a),
            (''serveraddress'', ServerAddress a), (''identitytoken'', IdentityToken a), (''registrytoken'', RegistryToken a)]))
       '','' @ ''}''"

definition b64_digit :: "nat \<Rightarrow> char" where
  "b64_digit n = ''ABCDEFGHIJKLMNOPQRSTUVWXYZabcdefghijklmnopqrstuvwxyz0123456789-_'' ! n"

fun base64_url :: "string \<Rightarrow> string" where
  "base64_url [] = []"
| "base64_url [a] = [b64_digit (byte a div 4), b64_digit (byte a mod 4 * 16), CHR ''='', CHR ''='']"
| "base64_url [a, b] =
     [b64_digit (byte a div 4), b64_digit (byte a mod 4 * 16 + byte b div 16), b64_digit (byte b mod 16 * 4), CHR ''='']"
| "base64_url (a # b # c # s) =
     [b64_digit (byte a div 4), b64_digit (byte a mod 4 * 16 + byte b div 16),
      b64_digit (byte b mod 16 * 4 + byte c div 64), b64_digit (byte c mod 64)] @ base64_url s"

definition encodeAuthToBase64 :: "AuthConfig option \<Rightarrow> string" where
  "encodeAuthToBase64 a = (case a of None \<Rightarrow> [] | Some a \<Rightarrow> base64_url (auth_json a))"

subsection \<open>Pulling, loading and importing images\<close>

text \<open>
  Decoding the stream into one map: a later object overwrites the keys it has and keeps the others, null empties
  the map.
\<close>

definition decode_stream :: "Stream \<Rightarrow> (string \<times> string) list result" where
  "decode_stream st =
     (let m = fold (\<lambda>v m. case v of None \<Rightarrow> [] | Some kvs \<Rightarrow> fold (\<lambda>(k, x). AList.update k x) kvs m)
            (stream_values st) []
      in case stream_end st of Some err \<Rightarrow> Inl err | None \<Rightarrow> Inr m)"

definition drain :: "'d Api \<Rightarrow> Stream \<Rightarrow> (Engine \<times> 'd, unit result) op" where
  "drain api st =
     (case decode_stream st of
        Inl err \<Rightarrow> ret (Inl err)
      | Inr m \<Rightarrow>
          (case map_of m ''error'' of
             Some errMsg \<Rightarrow> ret (Inl (errorf errMsg))
           | None \<Rightarrow> and_then (RefreshImages api) (\<lambda>_. ret (Inr ()))))"

definition Pull :: "'d Api \<Rightarrow> string \<Rightarrow> AuthConfig option \<Rightarrow> (Engine \<times> 'd, unit result) op" where
  "Pull api im authConfig = or_return (call_api api (api_ImagePull api im (encodeAuthToBase64 authConfig))) (drain api)"

definition Load :: "'d Api \<Rightarrow> string \<Rightarrow> (Engine \<times> 'd, unit result) op" where
  "Load api reader = or_return (call_api api (api_ImageLoad api reader)) (drain api)"

definition Import :: "'d Api \<Rightarrow> string \<Rightarrow> string \<Rightarrow> string \<Rightarrow> string \<Rightarrow> (Engine \<times> 'd, unit result) op" where
  "Import api source ref tag reader =
     or_return (call_api api (api_ImageImport api source ref tag reader)) (\<lambda>_.
     and_then (RefreshImages api) (\<lambda>_. ret (Inr ())))"

text \<open>
  The body of the daemon's response, as the text that can be read from it and how reading ends: by end of file or by
  an error.
\<close>

definition BuildImage ::
    "'d Api \<Rightarrow> string \<Rightarrow> ImageBuildOptions \<Rightarrow> (Engine \<times> 'd, (string \<times> go_error option) result) op" where
  "BuildImage api buildContext buildImage = call_api api (api_ImageBuild api buildContext buildImage)"

definition TagImage :: "'d Api \<Rightarrow> string \<Rightarrow> string \<Rightarrow> (Engine \<times> 'd, unit result) op" where
  "TagImage api q ref = or_return (call_api api (api_ImageTag api q ref)) (\<lambda>_. RefreshImages api)"

subsection \<open>Creating and changing containers, networks and volumes\<close>

definition docker_config :: "Engine \<Rightarrow> ContainerConfig \<Rightarrow> ContainerConfig" where
  "docker_config e c =
     c\<lparr>HostConfig := (HostConfig c)\<lparr>CPUShares := ceil_div (i64 (CPUShares (HostConfig c) * 1024)) (Cpus e)\<rparr>\<rparr>"

definition create_call :: "'d Api \<Rightarrow> ContainerConfig \<Rightarrow> string \<Rightarrow> (Engine \<times> 'd, string result) op" where
  "create_call api dc name =
     call_api api (api_ContainerCreate api (Config.truncate dc) (HostConfig dc) (NetworkingConfig dc) name)"

definition CreateContainer ::
    "'d Api \<Rightarrow> ContainerConfig \<Rightarrow> string \<Rightarrow> bool \<Rightarrow> AuthConfig option \<Rightarrow> (Engine \<times> 'd, Container result) op" where
  "CreateContainer api config name pullImage authConfig =
     and_then the_engine (\<lambda>e.
     let dc = docker_config e config in
     or_return
       (and_then (create_call api dc name) (\<lambda>r. case r of
          Inr cid \<Rightarrow> ret (Inr cid)
        | Inl err \<Rightarrow>
            if \<not> isErrImageNotFound err \<or> \<not> pullImage then ret (Inl err)
            else or_return (Pull api (Image config) authConfig) (\<lambda>_. create_call api dc name))) (\<lambda>cid.
     and_then (refreshContainer api cid True) (\<lambda>_.
     and_then the_engine (\<lambda>e.
     ret (case map_of (containers e) cid of
            None \<Rightarrow> Inl (errorf ''Container created but refresh didn't report it back'')
          | Some c \<Rightarrow> Inr c)))))"

definition RemoveContainer :: "'d Api \<Rightarrow> Container \<Rightarrow> bool \<Rightarrow> bool \<Rightarrow> (Engine \<times> 'd, unit result) op" where
  "RemoveContainer api c force vols =
     or_return (call_api api (api_ContainerRemove api (c_ID c) force vols)) (\<lambda>_.
     and_then (on_engine (\<lambda>e. e\<lparr>containers := AList.delete (c_ID c) (containers e)\<rparr>)) (\<lambda>_. ret (Inr ())))"

definition StartContainer :: "'d Api \<Rightarrow> string \<Rightarrow> HostConfig option \<Rightarrow> (Engine \<times> 'd, unit result) op" where
  "StartContainer api cid hostConfig =
     or_return (call_api api (case hostConfig of Some h \<Rightarrow> client_StartContainer api cid h | None \<Rightarrow> api_ContainerStart api cid)) (\<lambda>_.
     or_return (refreshContainer api cid True) (\<lambda>_. ret (Inr ())))"

definition RenameContainer :: "'d Api \<Rightarrow> Container \<Rightarrow> string \<Rightarrow> (Engine \<times> 'd, unit result) op" where
  "RenameContainer api c newName =
     or_return (call_api api (api_ContainerRename api (c_ID c) newName)) (\<lambda>_.
     or_return (refreshContainer api (c_ID c) True) (\<lambda>_. ret (Inr ())))"

definition CreateNetwork :: "'d Api \<Rightarrow> string \<Rightarrow> string \<Rightarrow> (Engine \<times> 'd, string result) op" where
  "CreateNetwork api name request =
     or_return (call_api api (api_NetworkCreate api name request)) (\<lambda>nid.
     and_then (refreshNetwork api nid) (\<lambda>_. ret (Inr nid)))"

definition CreateVolume :: "'d Api \<Rightarrow> string \<Rightarrow> string \<Rightarrow> (Engine \<times> 'd, Volume result) op" where
  "CreateVolume api name driver =
     or_return (call_api api (api_VolumeCreate api name driver)) (\<lambda>v.
     and_then (refreshVolume api (v_Name v)) (\<lambda>_. ret (Inr v)))"

definition NetworkDisconnect :: "'d Api \<Rightarrow> Container \<Rightarrow> Network \<Rightarrow> bool \<Rightarrow> (Engine \<times> 'd, unit result) op" where
  "NetworkDisconnect api c n force =
     or_return (call_api api (api_NetworkDisconnect api (n_ID n) (c_ID c) force)) (\<lambda>_. RefreshNetworks api)"

definition RefreshEngine :: "'d Api \<Rightarrow> string \<Rightarrow> (Engine \<times> 'd, unit result) op" where
  "RefreshEngine api hostname =
     and_then the_engine (\<lambda>e.
     if hostname \<noteq> e_Name e
     then ret (Inl (errorf (''invalid engine name during refresh: '' @ hostname @ '' vs '' @ e_Name e)))
     else RefreshContainers api True)"

subsection \<open>Events\<close>

definition quiet :: "('s, 'a) op \<Rightarrow> ('s, unit) op" where
  "quiet m = and_then m (\<lambda>_. ret ())"

definition container_event :: "'d Api \<Rightarrow> Message \<Rightarrow> (Engine \<times> 'd, unit) op" where
  "container_event api msg =
     (let action = (if HasPrefix (m_Action msg) ''health_status'' then ''health_status'' else m_Action msg) in
      if action = ''commit'' then quiet (RefreshImages api)
      else if action \<in> set [''die'', ''kill'', ''oom'', ''pause'', ''start'', ''restart'', ''stop'', ''unpause'', ''rename'',
                ''update'', ''health_status'']
      then quiet (refreshContainer api (m_ID msg) True)
      else if action \<in> set [''top'', ''resize'', ''export'', ''exec_create'', ''exec_start'', ''exec_detach'', ''attach'', ''detach'',
                ''extract-to-dir'', ''copy'', ''archive-path'']
      then ret ()
      else quiet (refreshContainer api (m_ID msg) False))"

definition legacy_event :: "'d Api \<Rightarrow> Message \<Rightarrow> (Engine \<times> 'd, unit) op" where
  "legacy_event api msg =
     (let refresh = (\<lambda>full. and_then (refreshContainer api (m_ID msg) full) (\<lambda>_.
                       and_then (RefreshVolumes api) (\<lambda>_. quiet (RefreshNetworks api)))) in
      if m_Status msg \<in> set [''pull'', ''untag'', ''delete'', ''commit''] then quiet (RefreshImages api)
      else if m_Status msg \<in> set [''die'', ''kill'', ''oom'', ''pause'', ''start'', ''stop'', ''unpause'', ''rename'']
      then refresh True
      else if m_Status msg \<in> set [''top'', ''resize'', ''export'', ''exec_create'', ''exec_start'', ''attach'', ''extract-to-dir'',
                ''copy'', ''archive-path'']
      then ret ()
      else refresh False)"

definition handler :: "'d Api \<Rightarrow> Message \<Rightarrow> (Engine \<times> 'd, unit) op" where
  "handler api msg =
     and_then
       (if m_Type msg = ''network'' then quiet (refreshNetwork api (m_ActorID msg))
        else if m_Type msg = ''volume'' then quiet (refreshVolume api (m_ActorID msg))
        else if m_Type msg = ''image'' then quiet (RefreshImages api)
        else if m_Type msg = ''container'' then container_event api msg
        else if m_Type msg = ''daemon'' then (if m_Action msg = ''reload'' then quiet (updateSpecs api) else ret ())
        else if m_Type msg = [] then legacy_event api msg
        else ret ()) (\<lambda>_.
     on_engine (\<lambda>e. if hasHandler e then e\<lparr>emitted := emitted e @ [msg]\<rparr> else e))"

subsection \<open>Connecting and refreshing\<close>

text \<open>
  The result of resolving the host of the address and of building the clients are parameters. The monitor of
  events and the refresh loop are started here and in \<open>ValidationComplete\<close>; one round of the loop is an
  operation of its own.
\<close>

definition ConnectWithClient :: "'d Api \<Rightarrow> (Engine \<times> 'd, unit result) op" where
  "ConnectWithClient api =
     and_then (on_engine (\<lambda>e. e\<lparr>connected := True, monitored := True\<rparr>)) (\<lambda>_.
     or_return (updateSpecs api) (\<lambda>_.
     or_return (RefreshContainers api True) (\<lambda>_.
     or_return (RefreshImages api) (\<lambda>_.
     and_then (RefreshVolumes api) (\<lambda>_.
     and_then (RefreshNetworks api) (\<lambda>_.
     and_then (on_engine (emitEvent ''engine_connect'')) (\<lambda>_. ret (Inr ()))))))))"

definition Connect ::
    "'d Api \<Rightarrow> (string \<Rightarrow> ('d, string) call) \<Rightarrow> (string \<Rightarrow> ('d, unit) call) \<Rightarrow> (Engine \<times> 'd, unit result) op" where
  "Connect api resolve new_client =
     or_return (\<lambda>(e, d). let (r, d1) = resolve (e_Addr e) d in Some (r, e, d1)) (\<lambda>ip.
     and_then (on_engine (\<lambda>e. e\<lparr>e_IP := ip\<rparr>)) (\<lambda>_.
     or_return (\<lambda>(e, d). let (r, d1) = new_client (e_Addr e) d in Some (r, e, d1)) (\<lambda>_.
     ConnectWithClient api)))"

text \<open>One round after the wait; the value is the time of the last update of the specs.\<close>

definition refresh_round :: "'d Api \<Rightarrow> int \<Rightarrow> (Engine \<times> 'd, int) op" where
  "refresh_round api lastSpecUpdatedAt =
     (let refresh = (\<lambda>last. and_then (RefreshContainers api False) (\<lambda>r. case r of
            Inl _ \<Rightarrow> ret last
          | Inr _ \<Rightarrow> and_then (RefreshVolumes api) (\<lambda>_. and_then (RefreshNetworks api) (\<lambda>_.
                      and_then (RefreshImages api) (\<lambda>_. ret last)))))
      in and_then (read (\<lambda>(e, d). \<not> isHealthy e \<or> clock api d - lastSpecUpdatedAt > 300000000000)) (\<lambda>due.
         if due then and_then (updateSpecs api) (\<lambda>r. case r of
             Inl _ \<Rightarrow> ret lastSpecUpdatedAt
           | Inr _ \<Rightarrow> and_then (read (\<lambda>(e, d). clock api d)) refresh)
         else refresh lastSpecUpdatedAt))"

end
