(* ===== verification/Engine_Invariants.thy ===== *)
theory Engine_Invariants
  imports Engine_Ops
begin

section \<open>What the operations of an engine guarantee\<close>

text \<open>
  Every operation of \<open>Engine_Ops\<close> keeps the invariant of the engine, its address and, once known, its
  identifier (\<open>engine_inv\<close>); the rules are in \<open>keeps_rules\<close>. The step relation \<open>engine_step\<close> has every
  operation as a transition, and the invariant holds in every reachable state.
\<close>

subsection \<open>What every operation keeps\<close>

text \<open>
  \<open>engine_inv a i\<close>: the engine satisfies its invariant, has address \<open>a\<close>, and identifier \<open>i\<close> unless \<open>i\<close> is
  empty, that is, not known yet.
\<close>

definition engine_inv :: "string \<Rightarrow> string \<Rightarrow> Engine \<times> 'd \<Rightarrow> bool" where
  "engine_inv a i s \<longleftrightarrow> engine_ok (fst s) \<and> e_Addr (fst s) = a \<and> (i \<noteq> [] \<longrightarrow> e_ID (fst s) = i)"

lemma keeps_call_api [keeps_rules]: "keeps (engine_inv a i) (call_api api f)"
  by (auto simp: keeps_def call_api_def engine_inv_def Let_def split: prod.splits)

lemma keeps_the_engine [keeps_rules]: "keeps P the_engine"
  by (simp add: the_engine_def keeps_read)

lemma keeps_quiet [keeps_rules]: "keeps P m \<Longrightarrow> keeps P (quiet m)"
  by (simp add: quiet_def keeps_rules)

lemma keeps_on_engine [keeps_rules]:
  "(\<And>e. engine_inv a i (e, ()) \<Longrightarrow> engine_inv a i (f e, ())) \<Longrightarrow> keeps (engine_inv a i) (on_engine f)"
  by (auto simp: keeps_def on_engine_def modify_def engine_inv_def)

lemma add_labels_only: "\<exists>ls'. snd (add_labels e ls) = e\<lparr>e_Labels := ls'\<rparr>"
proof (induction e ls rule: add_labels.induct)
  case (1 e)
  show ?case by (rule exI [of _ "e_Labels e"]) simp
next
  case (2 e label rest)
  show ?case
  proof (cases "length (SplitN2 label ''='') = 2")
    case False
    then show ?thesis by (intro exI [of _ "e_Labels e"]) (simp add: Let_def)
  next
    case True
    show ?thesis
    proof (cases "SplitN2 label ''='' ! 0 = ''node'' \<or> e_Labels e (SplitN2 label ''='' ! 0) \<noteq> None")
      case skip: True
      then have "add_labels e (label # rest) = add_labels e rest"
        using True by (auto simp: Let_def)
      with 2(1,2) True skip show ?thesis by metis
    next
      case False
      let ?e = "e\<lparr>e_Labels := (e_Labels e)(SplitN2 label ''='' ! 0 \<mapsto> SplitN2 label ''='' ! 1)\<rparr>"
      have "add_labels e (label # rest) = add_labels ?e rest"
        using True False by (simp add: Let_def)
      moreover obtain ls' where "snd (add_labels ?e rest) = ?e\<lparr>e_Labels := ls'\<rparr>"
        using 2(3) True False by blast
      ultimately show ?thesis by (intro exI [of _ ls']) simp
    qed
  qed
qed

lemma add_labels_fields:
  "state (snd (add_labels e ls)) = state e" "failureCount (snd (add_labels e ls)) = failureCount e"
  "FailureRetry (snd (add_labels e ls)) = FailureRetry e" "containers (snd (add_labels e ls)) = containers e"
  "volumes (snd (add_labels e ls)) = volumes e" "networks (snd (add_labels e ls)) = networks e"
  "e_ID (snd (add_labels e ls)) = e_ID e" "e_Addr (snd (add_labels e ls)) = e_Addr e"
  using add_labels_only [of e ls] by auto

lemma apply_specs_inv: "engine_inv a i (e, ()) \<Longrightarrow> engine_inv a i (snd (apply_specs now info e), ())"
  by (auto simp: engine_inv_def engine_ok_def health_ok_def apply_specs_def Let_def add_labels_fields)

lemmas inv_defs = engine_inv_def engine_ok_def health_ok_def

lemma keeps_set_specs:
  "keeps (engine_inv a i) (and_then (read (\<lambda>(e, d). apply_specs (clk d) info e)) (\<lambda>(r, e').
     and_then (on_engine (\<lambda>_. e')) (\<lambda>_. ret r)))"
proof (rule keepsI)
  fix s :: "Engine \<times> 'a" and x s'
  assume inv: "engine_inv a i s"
    and "and_then (read (\<lambda>(e, d). apply_specs (clk d) info e)) (\<lambda>(r, e').
           and_then (on_engine (\<lambda>_. e')) (\<lambda>_. ret r)) s = Some (x, s')"
  then have "fst s' = snd (apply_specs (clk (snd s)) info (fst s))"
    by (cases s) (auto simp: op_simps on_engine_def split: prod.splits)
  moreover have "engine_inv a i (snd (apply_specs (clk (snd s)) info (fst s)), ())"
    by (rule apply_specs_inv) (use inv in \<open>simp add: engine_inv_def\<close>)
  ultimately show "engine_inv a i s'" by (simp add: engine_inv_def)
qed

lemma keeps_updateSpecs [keeps_rules]: "keeps (engine_inv a i) (updateSpecs api)"
  unfolding updateSpecs_def
  by (intro keeps_rules keeps_set_specs) (auto simp: inv_defs)

lemma keeps_RefreshImages [keeps_rules]: "keeps (engine_inv a i) (RefreshImages api)"
  unfolding RefreshImages_def by (intro keeps_rules) (auto simp: inv_defs)

lemma fold_update_distinct: "distinct (map fst m) \<Longrightarrow> distinct (map fst (fold (\<lambda>x. AList.update (f x) (g x)) xs m))"
  by (induction xs arbitrary: m) simp_all

lemma fold_update_keyed: "keyed h m \<Longrightarrow> (\<And>x. h (g x) = f x) \<Longrightarrow> keyed h (fold (\<lambda>x. AList.update (f x) (g x)) xs m)"
  by (induction xs arbitrary: m) simp_all

lemma keeps_object_ops [keeps_rules]:
  "keeps (engine_inv a i) (RemoveImage api name force)" "keeps (engine_inv a i) (RemoveNetwork api n)"
  "keeps (engine_inv a i) (RemoveVolume api name)" "keeps (engine_inv a i) (refreshNetwork api nid)"
  "keeps (engine_inv a i) (RefreshNetworks api)" "keeps (engine_inv a i) (RefreshVolumes api)"
  "keeps (engine_inv a i) (refreshVolume api q)"
  unfolding RemoveImage_def RemoveNetwork_def RemoveVolume_def refreshNetwork_def RefreshNetworks_def RefreshVolumes_def
    refreshVolume_def
  by (intro keeps_rules; auto simp: inv_defs DeleteNetwork_def fold_update_distinct fold_update_keyed)+

lemma keeps_inspect_into [keeps_rules]: "keeps (engine_inv a i) (inspect_into api cid c)"
  unfolding inspect_into_def Let_def by (intro keeps_rules)

definition keyed_result :: "(string \<times> Container) list result \<Rightarrow> bool" where
  "keyed_result r = (case r of Inl _ \<Rightarrow> True | Inr m \<Rightarrow> keyed c_ID m)"

lemma gives_updateContainer:
  "keyed c_ID cs \<Longrightarrow> gives (engine_inv a i) (updateContainer api c cs full) keyed_result"
  unfolding updateContainer_def Let_def or_return_def
  by (intro gives_and_then [OF keeps_gives] keeps_rules)
    (auto simp: keyed_result_def inv_defs split: sum.splits intro!: gives_ret gives_and_then [OF keeps_gives] keeps_rules)

lemma keeps_updateContainer [keeps_rules]: "keeps (engine_inv a i) (updateContainer api c cs full)"
  unfolding updateContainer_def Let_def
  by (intro keeps_rules) (auto simp: inv_defs)

lemma keeps_RefreshContainers [keeps_rules]: "keeps (engine_inv a i) (RefreshContainers api full)"
proof -
  have "gives (engine_inv a i) (fold_op (\<lambda>c merged. and_then (updateContainer api c merged full) (\<lambda>r.
      case r of Inl _ \<Rightarrow> ret merged | Inr merged' \<Rightarrow> ret merged')) cs []) (keyed c_ID)" for cs
    by (rule gives_fold_op)
      (auto intro!: gives_and_then [OF gives_updateContainer] gives_ret simp: keyed_result_def split: sum.splits)
  then show ?thesis
    unfolding RefreshContainers_def
    by (intro keeps_or_return keeps_call_api gives_keeps_then keeps_and_then keeps_on_engine keeps_ret)
      (auto simp: inv_defs)
qed

lemma keeps_refreshContainer [keeps_rules]: "keeps (engine_inv a i) (refreshContainer api cid full)"
proof -
  have one: "keeps (engine_inv a i) (and_then the_engine (\<lambda>e.
      or_return (updateContainer api c (containers e) full) (\<lambda>cs'.
      and_then (on_engine (\<lambda>e. e\<lparr>containers := cs'\<rparr>)) (\<lambda>_. ret (Inr (map_of cs' (l_ID c)))))))" for c
  proof (rule gives_keeps_then)
    show "gives (engine_inv a i) the_engine (\<lambda>e. keyed c_ID (containers e))"
      unfolding the_engine_def by (rule gives_read) (simp add: inv_defs)
  next
    fix e assume "keyed c_ID (containers e)"
    then show "keeps (engine_inv a i) (or_return (updateContainer api c (containers e) full) (\<lambda>cs'.
        and_then (on_engine (\<lambda>e. e\<lparr>containers := cs'\<rparr>)) (\<lambda>_. ret (Inr (map_of cs' (l_ID c))))))"
      unfolding or_return_def
      by (intro gives_keeps_then [OF gives_updateContainer])
        (auto simp: keyed_result_def inv_defs split: sum.splits intro!: keeps_rules)
  qed
  show ?thesis
    unfolding refreshContainer_def
    by (intro keeps_rules) (auto simp: inv_defs split: list.splits intro!: keeps_rules one)
qed

lemma keeps_drain [keeps_rules]: "keeps (engine_inv a i) (drain api st)"
  unfolding drain_def by (intro keeps_rules)

lemma keeps_image_ops [keeps_rules]:
  "keeps (engine_inv a i) (Pull api im au)" "keeps (engine_inv a i) (Load api reader)"
  "keeps (engine_inv a i) (Import api src ref tag reader)" "keeps (engine_inv a i) (BuildImage api ctx args)"
  "keeps (engine_inv a i) (TagImage api q ref)"
  unfolding Pull_def Load_def Import_def BuildImage_def TagImage_def by (intro keeps_rules)+

lemma keeps_create_call [keeps_rules]: "keeps (engine_inv a i) (create_call api dc name)"
  unfolding create_call_def by (intro keeps_rules)

lemma keeps_CreateContainer [keeps_rules]: "keeps (engine_inv a i) (CreateContainer api config name pullImage au)"
  unfolding CreateContainer_def Let_def by (intro keeps_rules)

lemma keeps_container_ops [keeps_rules]:
  "keeps (engine_inv a i) (RemoveContainer api c force vols)" "keeps (engine_inv a i) (StartContainer api cid h)"
  "keeps (engine_inv a i) (RenameContainer api c name)" "keeps (engine_inv a i) (RefreshEngine api host)"
  unfolding RemoveContainer_def StartContainer_def RenameContainer_def RefreshEngine_def
  by (intro keeps_rules; auto simp: inv_defs)+

lemma keeps_network_ops [keeps_rules]:
  "keeps (engine_inv a i) (CreateNetwork api name request)" "keeps (engine_inv a i) (CreateVolume api name driver)"
  "keeps (engine_inv a i) (NetworkDisconnect api c n force)"
  unfolding CreateNetwork_def CreateVolume_def NetworkDisconnect_def by (intro keeps_rules)+

lemma keeps_events [keeps_rules]:
  "keeps (engine_inv a i) (container_event api msg)" "keeps (engine_inv a i) (legacy_event api msg)"
  unfolding container_event_def legacy_event_def Let_def by (intro keeps_rules)+

lemma keeps_handler [keeps_rules]: "keeps (engine_inv a i) (handler api msg)"
  unfolding handler_def by (intro keeps_rules) (auto simp: inv_defs)

lemma keeps_ConnectWithClient [keeps_rules]: "keeps (engine_inv a i) (ConnectWithClient api)"
  unfolding ConnectWithClient_def
  by (intro keeps_rules) (auto simp: inv_defs)

lemma keeps_dial: "keeps (engine_inv a i) (\<lambda>(e, d). let (r, d1) = f (e_Addr e) d in Some (r, e, d1))"
  by (auto simp: keeps_def engine_inv_def Let_def split: prod.splits)

lemma keeps_Connect [keeps_rules]: "keeps (engine_inv a i) (Connect api resolve new_client)"
  unfolding Connect_def by (intro keeps_rules keeps_dial) (auto simp: inv_defs)

lemma keeps_refresh_round [keeps_rules]: "keeps (engine_inv a i) (refresh_round api t0)"
  unfolding refresh_round_def Let_def by (intro keeps_rules)

subsection \<open>The engine as a transition system\<close>

text \<open>
  A step is one operation, with any arguments, or a change of the daemon and of the clock.
\<close>

inductive engine_step :: "'d Api \<Rightarrow> Engine \<times> 'd \<Rightarrow> Engine \<times> 'd \<Rightarrow> bool" for api where
  step_daemon: "engine_step api (e, d) (e, d')"
| step_connect: "Connect api resolve new_client s = Some (r, s') \<Longrightarrow> engine_step api s s'"
| step_validated: "engine_step api (e, d) (ValidationComplete e, d)"
| step_conflict: "engine_step api (e, d) (HandleIDConflict now other e, d)"
| step_disconnect: "Disconnect e = Some e' \<Longrightarrow> engine_step api (e, d) (e', d)"
| step_register: "RegisterEventHandler e = (err, e') \<Longrightarrow> engine_step api (e, d) (e', d)"
| step_round: "refresh_round api t0 s = Some (r, s') \<Longrightarrow> engine_step api s s'"
| step_event: "handler api msg s = Some (r, s') \<Longrightarrow> engine_step api s s'"
| step_refresh: "RefreshContainers api full s = Some (r, s') \<Longrightarrow> engine_step api s s'"
| step_refresh_engine: "RefreshEngine api host s = Some (r, s') \<Longrightarrow> engine_step api s s'"
| step_create: "CreateContainer api config name pull au s = Some (c, s') \<Longrightarrow> engine_step api s s'"
| step_start: "StartContainer api cid h s = Some (r, s') \<Longrightarrow> engine_step api s s'"
| step_rename: "RenameContainer api c name s = Some (r, s') \<Longrightarrow> engine_step api s s'"
| step_remove: "RemoveContainer api c force vols s = Some (r, s') \<Longrightarrow> engine_step api s s'"
| step_create_network: "CreateNetwork api name request s = Some (i, s') \<Longrightarrow> engine_step api s s'"
| step_remove_network: "RemoveNetwork api n s = Some (r, s') \<Longrightarrow> engine_step api s s'"
| step_network_disconnect: "NetworkDisconnect api c n force s = Some (r, s') \<Longrightarrow> engine_step api s s'"
| step_add_network: "engine_step api (e, d) (AddNetwork n e, d)"
| step_delete_network: "engine_step api (e, d) (DeleteNetwork n e, d)"
| step_create_volume: "CreateVolume api name driver s = Some (v, s') \<Longrightarrow> engine_step api s s'"
| step_remove_volume: "RemoveVolume api name s = Some (r, s') \<Longrightarrow> engine_step api s s'"
| step_pull: "Pull api im au s = Some (r, s') \<Longrightarrow> engine_step api s s'"
| step_load: "Load api reader s = Some (r, s') \<Longrightarrow> engine_step api s s'"
| step_import: "Import api src ref tag reader s = Some (r, s') \<Longrightarrow> engine_step api s s'"
| step_build: "BuildImage api ctx args s = Some (b, s') \<Longrightarrow> engine_step api s s'"
| step_tag: "TagImage api q ref s = Some (r, s') \<Longrightarrow> engine_step api s s'"
| step_remove_image: "RemoveImage api name force s = Some (l, s') \<Longrightarrow> engine_step api s s'"
| step_refresh_images: "RefreshImages api s = Some (r, s') \<Longrightarrow> engine_step api s s'"
| step_add: "AddContainer c e = (err, e') \<Longrightarrow> engine_step api (e, d) (e', d)"
| step_drop: "removeContainer c e = (err, e') \<Longrightarrow> engine_step api (e, d) (e', d)"
| step_cleanup: "engine_step api (e, d) (cleanupContainers e, d)"
| step_add_image: "engine_step api (e, d) (addImage im e, d)"

lemma direct_changes_inv:
  "engine_inv a i (e, d) \<Longrightarrow> engine_inv a i (ValidationComplete e, d)"
  "engine_inv a i (e, d) \<Longrightarrow> engine_inv a i (HandleIDConflict now other e, d)"
  "engine_inv a i (e, d) \<Longrightarrow> Disconnect e = Some e' \<Longrightarrow> engine_inv a i (e', d)"
  "engine_inv a i (e, d) \<Longrightarrow> RegisterEventHandler e = (err, e') \<Longrightarrow> engine_inv a i (e', d)"
  "engine_inv a i (e, d) \<Longrightarrow> engine_inv a i (AddNetwork n e, d)"
  "engine_inv a i (e, d) \<Longrightarrow> engine_inv a i (DeleteNetwork n e, d)"
  "engine_inv a i (e, d) \<Longrightarrow> AddContainer c e = (err, e') \<Longrightarrow> engine_inv a i (e', d)"
  "engine_inv a i (e, d) \<Longrightarrow> removeContainer c e = (err, e') \<Longrightarrow> engine_inv a i (e', d)"
  "engine_inv a i (e, d) \<Longrightarrow> engine_inv a i (cleanupContainers e, d)"
  "engine_inv a i (e, d) \<Longrightarrow> engine_inv a i (addImage im e, d)"
  by (auto simp: inv_defs ValidationComplete_def HandleIDConflict_def setErrMsg_def Disconnect_def RegisterEventHandler_def
      AddNetwork_def DeleteNetwork_def AddContainer_def removeContainer_def cleanupContainers_def addImage_def
      split: if_splits option.splits)

lemmas op_inv =
  keeps_Connect [THEN keepsD] keeps_refresh_round [THEN keepsD] keeps_handler [THEN keepsD]
  keeps_RefreshContainers [THEN keepsD] keeps_CreateContainer [THEN keepsD] keeps_container_ops [THEN keepsD]
  keeps_network_ops [THEN keepsD] keeps_object_ops [THEN keepsD] keeps_image_ops [THEN keepsD]
  keeps_RefreshImages [THEN keepsD]

lemma engine_step_inv: "engine_step api s s' \<Longrightarrow> engine_inv a i s \<Longrightarrow> engine_inv a i s'"
  by (induction rule: engine_step.induct)
    ((rule op_inv, assumption, assumption | rule direct_changes_inv, assumption | rule direct_changes_inv, assumption, assumption
      | simp add: engine_inv_def)+)

lemma engine_steps_inv: "(engine_step api)\<^sup>*\<^sup>* s s' \<Longrightarrow> engine_inv a i s \<Longrightarrow> engine_inv a i s'"
  by (induction rule: rtranclp_induct) (auto dest: engine_step_inv)

text \<open>
  C16. In every state that a new engine can reach, through whatever operations, events, daemon answers and errors,
  containers are stored under their own identifiers and volumes under their own names, no
  key occurs twice, a healthy engine has failed fewer times than its retry limit, and the address is the one it was created with.
\<close>

theorem engine_reachable_ok:
  assumes "(engine_step api)\<^sup>*\<^sup>* (NewEngine now addr ratio retry, d) (e, d')" "0 < retry" "retry < 2 ^ 63"
  shows "engine_ok e \<and> e_Addr e = addr"
proof -
  have "engine_inv addr [] (NewEngine now addr ratio retry, d)"
    using assms(2,3) by (simp add: engine_inv_def) (simp add: NewEngine_def)
  from engine_steps_inv [OF assms(1) this] show ?thesis by (simp add: engine_inv_def)
qed

text \<open>
  C17. The identifier of an engine, once known, never changes, even when the daemon behind the address
  reports another one.
\<close>

theorem engine_identity_stable:
  assumes "(engine_step api)\<^sup>*\<^sup>* (e, d) (e', d')" "engine_ok e" "e_ID e \<noteq> []"
  shows "e_ID e' = e_ID e \<and> e_Addr e' = e_Addr e"
  using engine_steps_inv [OF assms(1), of "e_Addr e" "e_ID e"] assms(2,3) by (auto simp: engine_inv_def)

subsection \<open>A disconnected engine\<close>

definition no_engine :: go_error where
  "no_engine = errorf ''Engine no longer exists''"

lemma no_engine_no_connection_error: "\<not> IsConnectionError no_engine"
  by (simp add: no_engine_def IsConnectionError_def errorf_def Contains_def)

lemma nop_call_eq: "nop_call d = (Inl no_engine, d)"
  by (simp add: nop_call_def no_engine_def)

lemma call_api_nop: "\<not> connected e \<Longrightarrow> call_api api f (e, d) = Some (Inl no_engine, e, d)"
  by (simp add: call_api_def nop_call_eq CheckConnectionErr_def no_engine_no_connection_error)

lemma and_then_step: "m s = Some (x, s') \<Longrightarrow> and_then m f s = f x s'"
  by (simp add: and_then_def)

lemma or_return_Inl: "m s = Some (Inl err, s') \<Longrightarrow> or_return m f s = Some (Inl err, s')"
  by (simp add: or_return_def and_then_def ret_def)

lemma or_return_Inr: "m s = Some (Inr x, s') \<Longrightarrow> or_return m f s = f x s'"
  by (simp add: or_return_def and_then_def)

lemma the_engine_step: "and_then the_engine f s = f (fst s) s"
  by (simp add: the_engine_def and_then_def read_def)

lemma on_engine_step: "and_then (on_engine g) f (e, d) = f () (g e, d)"
  by (simp add: on_engine_def and_then_def modify_def)

text \<open>
  Once disconnected, an engine answers every request with an error and changes nothing: neither what it lists nor
  its health, nor the daemon.
\<close>

lemma disconnected_engine_inert:
  assumes "Disconnect e0 = Some e" "connected e0 \<longrightarrow> state e0 \<noteq> stateDisconnected"
  shows "let gone = Some (Inl no_engine, e, d) in
    state e = stateDisconnected \<and>
    updateSpecs api (e, d) = gone \<and> RefreshContainers api full (e, d) = gone \<and> RefreshImages api (e, d) = gone \<and>
    RemoveContainer api c force vols (e, d) = gone \<and> StartContainer api cid h (e, d) = gone \<and>
    RenameContainer api c name (e, d) = gone \<and> RemoveNetwork api n (e, d) = gone \<and>
    RemoveVolume api name (e, d) = gone \<and> Pull api im au (e, d) = gone \<and> TagImage api name ref (e, d) = gone \<and>
    CreateContainer api config name pull au (e, d) = Some (Inl no_engine, e, d) \<and>
    CreateNetwork api name request (e, d) = Some (Inl no_engine, e, d) \<and>
    CreateVolume api name driver (e, d) = Some (Inl no_engine, e, d)"
proof -
  from assms have e: "\<not> connected e" "state e = stateDisconnected"
    by (auto simp: Disconnect_def split: if_splits)
  have nop [simp]: "or_return (call_api api f) g (e, d) = Some (Inl no_engine, e, d)" for f g
    by (rule or_return_Inl) (rule call_api_nop [OF e(1)])
  have "\<not> isErrImageNotFound no_engine" by (simp add: no_engine_def errorf_def)
  then have "CreateContainer api config name pull au (e, d) = Some (Inl no_engine, e, d)"
    by (simp add: CreateContainer_def Let_def the_engine_step create_call_def call_api_nop [OF e(1)]
        or_return_Inl and_then_step ret_def)
  with e show ?thesis
    by (simp add: Let_def updateSpecs_def RefreshContainers_def RefreshImages_def RemoveContainer_def StartContainer_def
        RenameContainer_def RemoveNetwork_def RemoveVolume_def Pull_def TagImage_def CreateNetwork_def CreateVolume_def)
qed

subsection \<open>A full refresh mirrors the daemon\<close>

text \<open>What an engine should list for an entry of the daemon's list and its inspection.\<close>

definition container_view :: "Engine \<Rightarrow> ListEntry \<Rightarrow> ContainerJSON \<Rightarrow> Container" where
  "container_view e c info =
     (let h = the (Info_HostConfig info); st = the (Info_State info);
          config = BuildContainerConfig (Info_Config info) h (Networks (the (Info_NetworkSettings info)))
      in \<lparr>c_ID = l_ID c, Names = l_Names c, c_Image = l_Image c, c_Ports = l_Ports c, c_Labels = l_Labels c, State = l_State c,
          Created = i64 (l_Created c + DeltaDuration e div 1000000000),
          c_Config = config\<lparr>HostConfig := h\<lparr>CPUShares := i64 (CPUShares h * Cpus e) sdiv 1024\<rparr>\<rparr>,
          Info = info\<lparr>Info_State := Some (st\<lparr>StartedAt := StartedAt st + DeltaDuration e,
                   FinishedAt := FinishedAt st + DeltaDuration e\<rparr>)\<rparr>,
          c_Engine = engine_spec e\<rparr>)"

definition complete_info :: "ContainerJSON \<Rightarrow> bool" where
  "complete_info info \<longleftrightarrow> Info_NetworkSettings info \<noteq> None \<and> Info_HostConfig info \<noteq> None \<and> Info_State info \<noteq> None"

definition inspected :: "(string \<Rightarrow> ContainerJSON result) \<Rightarrow> Engine \<Rightarrow> ListEntry list \<Rightarrow> (string \<times> Container) list" where
  "inspected ins e cs =
     List.map_filter (\<lambda>c. case ins (l_ID c) of Inl _ \<Rightarrow> None | Inr info \<Rightarrow> Some (l_ID c, container_view e c info)) cs"

text \<open>The fields that the view depends on, which no call to the daemon changes.\<close>

definition same_machine :: "Engine \<Rightarrow> Engine \<Rightarrow> bool" where
  "same_machine e e' \<longleftrightarrow>
     engine_spec e' = engine_spec e \<and> Cpus e' = Cpus e \<and> DeltaDuration e' = DeltaDuration e \<and> connected e' = connected e"

lemma same_machine_refl: "same_machine e e"
  by (simp add: same_machine_def)

lemma same_machine_trans: "same_machine e e1 \<Longrightarrow> same_machine e1 e2 \<Longrightarrow> same_machine e e2"
  by (simp add: same_machine_def)

lemma same_machine_CheckConnectionErr [simp]: "same_machine e (CheckConnectionErr now err e)"
  by (simp add: same_machine_def engine_spec_def EngineSpec.defs health_defs emitEvent_def split: option.splits)

lemma same_machine_containers [simp]: "same_machine e (e\<lparr>containers := cs\<rparr>)"
  by (simp add: same_machine_def engine_spec_def EngineSpec.defs)

lemma container_view_machine: "same_machine e e' \<Longrightarrow> container_view e' c info = container_view e c info"
  by (simp add: same_machine_def container_view_def)

definition fill_engine :: "EngineSpec \<Rightarrow> string \<times> Container \<Rightarrow> string \<times> Container" where
  "fill_engine sp = (\<lambda>(k, c). (k, c\<lparr>c_Engine := sp\<rparr>))"

lemma call_api_connected:
  "connected e \<Longrightarrow> f d = (r, d') \<Longrightarrow>
     call_api api f (e, d) = Some (r, CheckConnectionErr (clock api d') (res_err r) e, d')"
  by (simp add: call_api_def)

lemma updateContainer_full:
  assumes "connected e" "api_ContainerInspect api (l_ID c) d = (ins, d)" "\<And>info. ins = Inr info \<Longrightarrow> complete_info info"
  shows "\<exists>r e'. updateContainer api c m True (e, d) = Some (r, e', d) \<and> same_machine e e' \<and>
     (case ins of Inl err \<Rightarrow> r = Inl err
      | Inr info \<Rightarrow> \<exists>k. r = Inr (AList.update (l_ID c) k m) \<and> k\<lparr>c_Engine := engine_spec e\<rparr> = container_view e c info)"
proof (cases ins)
  case (Inl err)
  with assms show ?thesis
    by (auto simp: updateContainer_def the_engine_step inspect_into_def or_return_Inl call_api_connected Let_def
        same_machine_refl split: option.splits)
next
  case (Inr info)
  then obtain ns h st where parts: "Info_NetworkSettings info = Some ns" "Info_HostConfig info = Some h" "Info_State info = Some st"
    using assms(3) by (auto simp: complete_info_def)
  let ?e = "CheckConnectionErr (clock api d) None e"
  have machine: "engine_spec ?e = engine_spec e" "Cpus ?e = Cpus e" "DeltaDuration ?e = DeltaDuration e"
    using same_machine_CheckConnectionErr [of e "clock api d" None] by (simp_all add: same_machine_def)
  have inspect: "\<exists>k'. inspect_into api (l_ID c) k (e, d) = Some (Inr k', ?e, d) \<and>
      k'\<lparr>c_ID := l_ID c, Names := l_Names c, c_Image := l_Image c, c_Ports := l_Ports c, c_Labels := l_Labels c, State := l_State c,
        Created := i64 (l_Created c + DeltaDuration e div 1000000000), c_Engine := engine_spec e\<rparr> = container_view e c info" for k
    using assms(1,2) Inr parts machine
    by (simp add: inspect_into_def or_return_def and_then_step call_api_connected the_engine_step or_panic_def ret_def Let_def
        container_view_def BuildContainerConfig_def)
  show ?thesis
  proof (cases "map_of (containers e) (l_ID c)")
    case None
    obtain k' where k': "inspect_into api (l_ID c) (zero_container (engine_spec e)) (e, d) = Some (Inr k', ?e, d)"
      "k'\<lparr>c_ID := l_ID c, Names := l_Names c, c_Image := l_Image c, c_Ports := l_Ports c, c_Labels := l_Labels c, State := l_State c,
        Created := i64 (l_Created c + DeltaDuration e div 1000000000), c_Engine := engine_spec e\<rparr> = container_view e c info"
      using inspect by blast
    with None Inr show ?thesis
      by (simp add: updateContainer_def the_engine_step or_return_def and_then_step on_engine_step ret_def Let_def)
        (intro exI conjI refl, simp)
  next
    case (Some k)
    obtain k' where k': "inspect_into api (l_ID c) k (e, d) = Some (Inr k', ?e, d)"
      "k'\<lparr>c_ID := l_ID c, Names := l_Names c, c_Image := l_Image c, c_Ports := l_Ports c, c_Labels := l_Labels c, State := l_State c,
        Created := i64 (l_Created c + DeltaDuration e div 1000000000), c_Engine := engine_spec e\<rparr> = container_view e c info"
      using inspect by blast
    have sm: "same_machine e (?e\<lparr>containers := cs\<rparr>)" for cs
      using same_machine_trans same_machine_CheckConnectionErr same_machine_containers by blast
    from k' Some Inr show ?thesis
      by (simp add: updateContainer_def the_engine_step or_return_def and_then_step on_engine_step ret_def Let_def sm)
        (intro exI conjI refl, simp)
  qed
qed

lemma update_new_key: "k \<notin> fst ` set m \<Longrightarrow> AList.update k v m = m @ [(k, v)]"
  by (induction m) auto

lemma inspected_machine: "same_machine e e' \<Longrightarrow> inspected ins e' cs = inspected ins e cs"
  by (simp add: inspected_def container_view_machine cong: sum.case_cong)

lemma inspected_Cons:
  "inspected ins e (c # cs) =
     (case ins (l_ID c) of Inl _ \<Rightarrow> [] | Inr info \<Rightarrow> [(l_ID c, container_view e c info)]) @ inspected ins e cs"
  by (simp add: inspected_def map_filter_simps split: sum.splits)

definition merge_all ::
    "'d Api \<Rightarrow> bool \<Rightarrow> ListEntry list \<Rightarrow> (string \<times> Container) list \<Rightarrow> (Engine \<times> 'd, (string \<times> Container) list) op" where
  "merge_all api full = fold_op (\<lambda>c merged. and_then (updateContainer api c merged full) (\<lambda>r.
     case r of Inl _ \<Rightarrow> ret merged | Inr merged' \<Rightarrow> ret merged'))"

lemma merge_all_inspected:
  assumes "\<And>cid. api_ContainerInspect api cid d = (ins cid, d)" "\<And>cid info. ins cid = Inr info \<Longrightarrow> complete_info info"
  shows "connected e \<Longrightarrow> distinct (map l_ID cs) \<Longrightarrow> fst ` set m \<inter> l_ID ` set cs = {} \<Longrightarrow>
    \<exists>m' e'. merge_all api True cs m (e, d) = Some (m', e', d) \<and> same_machine e e' \<and>
      map (fill_engine (engine_spec e)) m' = map (fill_engine (engine_spec e)) m @ inspected ins e cs"
proof (induction cs arbitrary: m e)
  case Nil
  then show ?case by (simp add: merge_all_def ret_def inspected_def map_filter_simps same_machine_refl)
next
  case (Cons c cs)
  obtain r e1 where step: "updateContainer api c m True (e, d) = Some (r, e1, d)" and same: "same_machine e e1"
    and r: "case ins (l_ID c) of Inl err \<Rightarrow> r = Inl err
      | Inr info \<Rightarrow> \<exists>k. r = Inr (AList.update (l_ID c) k m) \<and> k\<lparr>c_Engine := engine_spec e\<rparr> = container_view e c info"
    using updateContainer_full [OF Cons.prems(1) assms(1), of c m] assms(2) by blast
  define m1 where "m1 = (case r of Inl _ \<Rightarrow> m | Inr m1 \<Rightarrow> m1)"
  have keys: "fst ` set m1 \<subseteq> insert (l_ID c) (fst ` set m)"
    and fill: "map (fill_engine (engine_spec e)) m1 = map (fill_engine (engine_spec e)) m @
      (case ins (l_ID c) of Inl _ \<Rightarrow> [] | Inr info \<Rightarrow> [(l_ID c, container_view e c info)])"
    using r Cons.prems(3) by (auto simp: m1_def fill_engine_def update_new_key split: sum.splits)
  have "connected e1" "engine_spec e1 = engine_spec e" using same Cons.prems(1) by (simp_all add: same_machine_def)
  moreover have "fst ` set m1 \<inter> l_ID ` set cs = {}"
  proof -
    have "fst ` set m1 \<inter> l_ID ` set cs \<subseteq> insert (l_ID c) (fst ` set m) \<inter> l_ID ` set cs"
      by (rule Int_mono [OF keys]) simp
    also have "\<dots> = {}" using Cons.prems(2,3) by auto
    finally show ?thesis by simp
  qed
  ultimately obtain m' e' where "merge_all api True cs m1 (e1, d) = Some (m', e', d)" "same_machine e1 e'"
    "map (fill_engine (engine_spec e)) m' = map (fill_engine (engine_spec e)) m1 @ inspected ins e1 cs"
    using Cons.IH [of e1 m1] Cons.prems(2) by auto
  moreover have "merge_all api True (c # cs) m (e, d) = merge_all api True cs m1 (e1, d)"
    by (simp add: merge_all_def and_then_assoc and_then_step [of "updateContainer api c m True", OF step] m1_def split: sum.splits)
  ultimately show ?case
    using same_machine_trans [OF same] by (auto simp: fill inspected_Cons inspected_machine [OF same])
qed

text \<open>
  C18. With a connected engine and a daemon that lists each container once and gives the same complete answer
  whenever it is asked to inspect a container, a full refresh makes the engine list exactly the containers that the
  daemon lists and can inspect, each of them once and in no particular order, with the daemon's identifier, names,
  state and configuration, CPU shares turned into CPUs and times shifted to the manager's clock.
  A container whose inspection fails is dropped.
\<close>

theorem refresh_mirrors_daemon:
  assumes "connected e" "api_ContainerList api None d = (Inr cs, d')" "distinct (map l_ID cs)"
    and "\<And>cid. api_ContainerInspect api cid d' = (ins cid, d')" "\<And>cid info. ins cid = Inr info \<Longrightarrow> complete_info info"
  shows "\<exists>e'. RefreshContainers api True (e, d) = Some (Inr (), e', d') \<and>
    mset (Engine_Containers e') = mset (map snd (inspected ins e cs))"
proof -
  let ?e = "CheckConnectionErr (clock api d') None e"
  have same: "same_machine e ?e" by simp
  then have "connected ?e" "engine_spec ?e = engine_spec e" using assms(1) by (simp_all add: same_machine_def)
  then obtain m' e1 where run: "merge_all api True cs [] (?e, d') = Some (m', e1, d')" "same_machine ?e e1"
    and m': "map (fill_engine (engine_spec e)) m' = inspected ins e cs"
    using merge_all_inspected [where ins = ins and m = "[]" and e = ?e and cs = cs and api = api and d = d'] assms(3-5)
    by (auto simp: inspected_machine [OF same])
  have "engine_spec e1 = engine_spec e" using run(2) same by (simp add: same_machine_def)
  moreover have "engine_spec (e1\<lparr>containers := m'\<rparr>) = engine_spec e1"
    by (simp add: engine_spec_def EngineSpec.defs)
  ultimately have "Engine_Containers (e1\<lparr>containers := m'\<rparr>) = map snd (map (fill_engine (engine_spec e)) m')"
    by (simp add: Engine_Containers_def fill_engine_def split_beta)
  moreover have "RefreshContainers api True (e, d) = Some (Inr (), e1\<lparr>containers := m'\<rparr>, d')"
    using run(1) assms(1,2)
    by (simp add: RefreshContainers_def or_return_def and_then_step call_api_connected merge_all_def on_engine_step ret_def)
  ultimately show ?thesis by (simp add: m')
qed

subsection \<open>A small daemon\<close>

text \<open>
  A concrete daemon for the closed instances of the theorems: its state is the clock and the
  containers it runs.
\<close>

type_synonym demo_daemon = "int \<times> (ListEntry \<times> ContainerJSON) list"

definition refuse :: "('d, 'a) call" where
  "refuse d = (Inl (errorf ''not implemented''), d)"

definition demo_info :: ContainerJSON where
  "demo_info = \<lparr>Info_Name = ''/web'', Info_Created = ''2016-01-01T00:00:00Z'',
     Info_State = Some \<lparr>Running = True, Paused = False, Restarting = False, Dead = False, ExitCode = 0,
       StartedAt = 1000, FinishedAt = 0, Health = None\<rparr>,
     Info_HostConfig = Some (zero_host\<lparr>CPUShares := 512\<rparr>),
     Info_Config = \<lparr>Env = [], Labels = Map.empty, Image = ''nginx'', ExposedPorts = []\<rparr>,
     Info_NetworkSettings = Some \<lparr>Ports = [], Networks = []\<rparr>, Mounts = [], ExecIDs = []\<rparr>"

definition demo_entry :: "string \<Rightarrow> string \<Rightarrow> ListEntry" where
  "demo_entry cid name = \<lparr>l_ID = cid, l_Names = [CHR ''/'' # name], l_Image = ''nginx'', l_Ports = [], l_Labels = Map.empty, l_State = ''running'', l_Created = 7\<rparr>"

definition demo_inspect :: "string \<Rightarrow> (demo_daemon, ContainerJSON) call" where
  "demo_inspect cid d =
     (case first_such (\<lambda>(c, _). l_ID c = cid) (snd d) of
        None \<Rightarrow> (Inl (errorf ''No such container''), d) | Some (_, info) \<Rightarrow> (Inr info, d))"

definition demo_list :: "string option \<Rightarrow> (demo_daemon, ListEntry list) call" where
  "demo_list flt d =
     (Inr (filter (\<lambda>c. case flt of None \<Rightarrow> True | Some p \<Rightarrow> HasPrefix (l_ID c) p) (map fst (snd d))), d)"

definition demo_create :: "Config \<Rightarrow> HostConfig \<Rightarrow> NetworkingConfig \<Rightarrow> string \<Rightarrow> (demo_daemon, string) call" where
  "demo_create c h n name d = (Inr (''id-'' @ name), (fst d, snd d @ [(demo_entry (''id-'' @ name) name,
     demo_info\<lparr>Info_Config := c, Info_HostConfig := Some h\<rparr>)]))"

definition demo_api :: "string \<Rightarrow> demo_daemon Api" where
  "demo_api eid =
     \<lparr>clock = fst,
      api_Info = (\<lambda>d. (Inr \<lparr>info_ID = eid, info_Name = ''node-'' @ eid, NCPU = 4, MemTotal = 1024, SystemTime = None,
         info_Driver = ''aufs'', KernelVersion = [], OperatingSystem = [], info_Labels = [''zone=a'', ''node=x'']\<rparr>, d)),
      api_ServerVersion = (\<lambda>d. (Inr ''1.12.1'', d)), api_UpdateClientVersion = (\<lambda>_ d. d),
      api_ContainerList = demo_list, api_ContainerInspect = demo_inspect, api_ContainerCreate = demo_create,
      api_ContainerRemove = (\<lambda>cid _ _ d. (Inr (), (fst d, filter (\<lambda>(c, _). l_ID c \<noteq> cid) (snd d)))),
      api_ContainerStart = (\<lambda>_ d. (Inr (), d)), client_StartContainer = (\<lambda>_ _ d. (Inr (), d)),
      api_ContainerRename = (\<lambda>_ _. refuse), api_ImageList = (\<lambda>d. (Inr [], d)), api_ImageRemove = (\<lambda>_ _. refuse),
      api_ImagePull = (\<lambda>_ _. refuse), api_ImageLoad = (\<lambda>_. refuse), api_ImageImport = (\<lambda>_ _ _ _. refuse),
      api_ImageBuild = (\<lambda>_ _. refuse), api_ImageTag = (\<lambda>_ _. refuse), api_NetworkList = refuse,
      api_NetworkInspect = (\<lambda>_. refuse), api_NetworkCreate = (\<lambda>_ _. refuse), api_NetworkRemove = (\<lambda>_. refuse),
      api_NetworkDisconnect = (\<lambda>_ _ _. refuse), api_NetworkConnect = (\<lambda>_ _ _. refuse), api_VolumeList = refuse, api_VolumeInspect = (\<lambda>_. refuse),
      api_VolumeCreate = (\<lambda>_ _. refuse), api_VolumeRemove = (\<lambda>_. refuse)\<rparr>"

definition demo_connect :: "Engine \<times> demo_daemon \<Rightarrow> (unit result \<times> Engine \<times> demo_daemon) option" where
  "demo_connect = Connect (demo_api ''E1'') (\<lambda>_ d. (Inr ''10.0.0.1'', d)) (\<lambda>_ d. (Inr (), d))"

definition demo_start :: "Engine \<times> demo_daemon" where
  "demo_start = (NewEngine 0 ''10.0.0.1:2375'' 5 3, (5, [(demo_entry ''c1'' ''web'', demo_info)]))"

definition demo_connected :: "Engine \<times> demo_daemon" where
  "demo_connected = snd (the (demo_connect demo_start))"

lemma demo_connect_ok: "(case demo_connect demo_start of None \<Rightarrow> False | Some (r, s) \<Rightarrow> res_ok r \<and>
    map fst (containers (fst s)) = [''c1''] \<and> e_ID (fst s) = ''E1'' \<and> connected (fst s))"
  by code_simp

lemma demo_connected_step: "engine_step (demo_api ''E1'') demo_start demo_connected"
proof -
  obtain r where "demo_connect demo_start = Some (r, demo_connected)"
    using demo_connect_ok by (auto simp: demo_connected_def split: option.splits)
  then show ?thesis unfolding demo_connect_def by (rule step_connect)
qed

lemma demo_connected_fields: "e_ID (fst demo_connected) = ''E1''" "connected (fst demo_connected)"
  using demo_connect_ok by (auto simp: demo_connected_def split: option.splits)

lemma demo_connected_ok: "engine_ok (fst demo_connected)" "e_Addr (fst demo_connected) = ''10.0.0.1:2375''"
proof -
  have "engine_inv ''10.0.0.1:2375'' [] demo_start"
    by (simp add: engine_inv_def demo_start_def) (simp add: NewEngine_def)
  from engine_step_inv [OF demo_connected_step this]
  show "engine_ok (fst demo_connected)" "e_Addr (fst demo_connected) = ''10.0.0.1:2375''"
    by (simp_all add: engine_inv_def)
qed

theorem engine_reachable_ok_witness:
  "engine_ok (fst demo_connected) \<and> e_Addr (fst demo_connected) = ''10.0.0.1:2375''"
  using engine_reachable_ok [of "demo_api ''E1''" 0 "''10.0.0.1:2375''" 5 3 "snd demo_start" "fst demo_connected" "snd demo_connected"]
    demo_connected_step by (simp add: demo_start_def r_into_rtranclp)

definition demo_moved :: "Engine \<times> demo_daemon" where
  "demo_moved = snd (the (refresh_round (demo_api ''E2'') 0 demo_connected))"

lemma demo_moved_state: "(case refresh_round (demo_api ''E2'') 0 demo_connected of None \<Rightarrow> False
    | Some (r, s) \<Rightarrow> state (fst s) = statePending \<and> lastError (fst s) \<noteq> [])"
  by code_simp

lemma demo_moved_step: "engine_step (demo_api ''E2'') demo_connected demo_moved"
proof -
  obtain r where "refresh_round (demo_api ''E2'') 0 demo_connected = Some (r, demo_moved)"
    using demo_moved_state by (auto simp: demo_moved_def split: option.splits)
  then show ?thesis by (rule step_round)
qed

theorem engine_identity_stable_witness: "e_ID (fst demo_moved) = ''E1'' \<and> e_Addr (fst demo_moved) = ''10.0.0.1:2375''"
  using engine_identity_stable [of "demo_api ''E2''" "fst demo_connected" "snd demo_connected" "fst demo_moved" "snd demo_moved"]
    demo_moved_step demo_connected_fields demo_connected_ok by (simp add: r_into_rtranclp)

lemma demo_disconnect: "(case Disconnect (fst demo_connected) of None \<Rightarrow> False | Some e \<Rightarrow> state (fst demo_connected) \<noteq> stateDisconnected)"
  by code_simp

lemma disconnected_engine_inert_witness:
  "let e = the (Disconnect (fst demo_connected)) in
   RefreshContainers (demo_api ''E1'') True (e, snd demo_connected) = Some (Inl no_engine, e, snd demo_connected)"
proof -
  obtain e where e: "Disconnect (fst demo_connected) = Some e" "state (fst demo_connected) \<noteq> stateDisconnected"
    using demo_disconnect by (auto split: option.splits)
  from disconnected_engine_inert [where full = True and ?e0.0 = "fst demo_connected" and e = e and d = "snd demo_connected"
      and api = "demo_api ''E1''"] e
  show ?thesis by (simp add: Let_def)
qed

theorem refresh_mirrors_daemon_witness:
  "\<exists>e'. RefreshContainers (demo_api ''E1'') True (fst demo_connected, (5, [(demo_entry ''c1'' ''web'', demo_info)])) =
       Some (Inr (), e', (5, [(demo_entry ''c1'' ''web'', demo_info)])) \<and> map c_ID (Engine_Containers e') = [''c1'']"
proof -
  let ?d = "(5, [(demo_entry ''c1'' ''web'', demo_info)])"
  let ?ins = "\<lambda>cid. fst (demo_inspect cid ?d)"
  have "\<exists>e'. RefreshContainers (demo_api ''E1'') True (fst demo_connected, ?d) = Some (Inr (), e', ?d) \<and>
      mset (Engine_Containers e') = mset (map snd (inspected ?ins (fst demo_connected) [demo_entry ''c1'' ''web'']))"
  proof (rule refresh_mirrors_daemon)
    show "complete_info info" if "?ins cid = Inr info" for cid info
      using that by (auto simp: demo_inspect_def demo_info_def complete_info_def split: if_splits)
  qed (auto simp: demo_connected_fields demo_api_def demo_list_def demo_inspect_def demo_entry_def)
  moreover have "\<exists>c. map snd (inspected ?ins (fst demo_connected) [demo_entry ''c1'' ''web'']) = [c] \<and> c_ID c = ''c1''"
    by (simp add: inspected_def map_filter_simps demo_inspect_def demo_entry_def container_view_def Let_def)
  ultimately show ?thesis by (elim exE conjE) (simp add: mset_single_iff)
qed

end
