(* ===== verification/Swarm_Cluster.thy ===== *)
theory Swarm_Cluster
  imports Engine_Invariants
begin

section \<open>The swarm cluster (\<open>cluster/swarm/cluster.go\<close>)\<close>

text \<open>
  The manager's state and operations: the engines by identifier, the engines that wait for validation by
  address, the containers being created, discovery, placement through the scheduler, and the operations that fan out
  over the engines. The daemons are one state \<open>'d\<close>; \<open>apis\<close> gives the client of the engine at an
  address. A container, image, network or volume refers to its engine by identifier; a
  reference to an engine that has left the cluster answers like the disconnected engine it points at.
  Ranging over the engines follows the order of the association list.
\<close>

subsection \<open>Data\<close>

record pendingContainer =
  pc_Config :: ContainerConfig
  pc_Name :: string
  pc_Engine :: EngineSpec

text \<open>
  \<open>ids\<close> are the random identifiers that \<open>stringid.GenerateRandomID\<close> yields and \<open>drawn\<close> how many are used up;
  \<open>background\<close> are the goroutines that task processing started and that have not run yet.
\<close>

datatype job = StopJob Container | DestroyJob Container

record Cluster =
  engines :: "(string \<times> Engine) list"
  pendingEngines :: "(string \<times> Engine) list"
  pendingContainers :: "(string \<times> pendingContainer) list"
  cl_scheduler :: Scheduler
  cl_overcommit :: int
  cl_FailureRetry :: int
  createRetry :: int
  ids :: "nat \<Rightarrow> string"
  drawn :: nat
  background :: "job list"

type_synonym 'd cstate = "Cluster \<times> 'd"

definition ToContainer :: "pendingContainer \<Rightarrow> Container" where
  "ToContainer p =
     (zero_container (pc_Engine p))\<lparr>c_Labels := Labels (pc_Config p), c_Config := pc_Config p,
        Info := (Info (zero_container (pc_Engine p)))\<lparr>Info_HostConfig := Some zero_host\<rparr>,
        Names := (if pc_Name p \<noteq> [] then [CHR ''/'' # pc_Name p] else [])\<rparr>"

text \<open>
  The overcommit ratio, in hundredths as the engines use it, and the number of retries come from the options; an invalid
  value ends the process.
\<close>

definition NewCluster :: "Scheduler \<Rightarrow> int option \<Rightarrow> int option \<Rightarrow> int \<Rightarrow> (nat \<Rightarrow> string) \<Rightarrow> Cluster option" where
  "NewCluster sch overcommit createretry retry rs =
     (if (case overcommit of None \<Rightarrow> False | Some v \<Rightarrow> v \<le> - 100) \<or> (case createretry of None \<Rightarrow> False | Some v \<Rightarrow> v < 0)
      then None
      else Some \<lparr>engines = [], pendingEngines = [], pendingContainers = [], cl_scheduler = sch,
        cl_overcommit = (case overcommit of None \<Rightarrow> 5 | Some v \<Rightarrow> v), cl_FailureRetry = retry,
        createRetry = (case createretry of None \<Rightarrow> 0 | Some v \<Rightarrow> v), ids = rs, drawn = 0, background = []\<rparr>)"

subsection \<open>Running engine operations\<close>

text \<open>\<open>c.engines[id].op(...)\<close>: a missing entry is a nil engine.\<close>

definition at_engine ::
    "(string \<Rightarrow> 'd Api) \<Rightarrow> string \<Rightarrow> ('d Api \<Rightarrow> (Engine \<times> 'd, 'a) op) \<Rightarrow> ('d cstate, 'a) op" where
  "at_engine apis eid m = (\<lambda>(c, d).
     case map_of (engines c) eid of
       None \<Rightarrow> None
     | Some e \<Rightarrow>
         (case m (apis (e_Addr e)) (e, d) of
            None \<Rightarrow> None
          | Some (x, e', d') \<Rightarrow> Some (x, c\<lparr>engines := AList.update eid e' (engines c)\<rparr>, d')))"

text \<open>\<open>object.Engine.op(...)\<close>.\<close>

definition of_engine ::
    "(string \<Rightarrow> 'd Api) \<Rightarrow> EngineSpec \<Rightarrow> ('d Api \<Rightarrow> (Engine \<times> 'd, 'a result) op) \<Rightarrow> ('d cstate, 'a result) op" where
  "of_engine apis spec m = (\<lambda>(c, d).
     case map_of (engines c) (e_ID spec) of
       None \<Rightarrow> Some (Inl no_engine, c, d)
     | Some _ \<Rightarrow> at_engine apis (e_ID spec) m (c, d))"

definition the_cluster :: "('d cstate, Cluster) op" where
  "the_cluster = read fst"

definition on_cluster :: "(Cluster \<Rightarrow> Cluster) \<Rightarrow> ('d cstate, unit) op" where
  "on_cluster f = modify (\<lambda>(c, d). (f c, d))"

definition all_engines :: "(Engine \<Rightarrow> Engine) \<Rightarrow> ('d cstate, unit) op" where
  "all_engines f = on_cluster (\<lambda>c. c\<lparr>engines := map (\<lambda>(k, e). (k, f e)) (engines c)\<rparr>)"

definition range_engines :: "(string \<Rightarrow> 'b \<Rightarrow> ('d cstate, 'b) op) \<Rightarrow> 'b \<Rightarrow> ('d cstate, 'b) op" where
  "range_engines f b = and_then the_cluster (\<lambda>c. fold_op f (map fst (engines c)) b)"

subsection \<open>Looking things up\<close>

definition Cluster_Images :: "Cluster \<Rightarrow> Image list" where
  "Cluster_Images c = concat (map (\<lambda>(_, e). Engine_Images e) (engines c))"

definition Cluster_Containers :: "Cluster \<Rightarrow> Containers" where
  "Cluster_Containers c = concat (map (\<lambda>(_, e). Engine_Containers e) (engines c))"

definition Cluster_Networks :: "Cluster \<Rightarrow> Network list" where
  "Cluster_Networks c = concat (map (\<lambda>(_, e). Engine_Networks e) (engines c))"

definition Cluster_Volumes :: "Cluster \<Rightarrow> Volume list" where
  "Cluster_Volumes c = concat (map (\<lambda>(_, e). Engine_Volumes e) (engines c))"

definition Cluster_Image :: "Cluster \<Rightarrow> string \<Rightarrow> Image option" where
  "Cluster_Image c q =
     (if length q = 0 then None
      else fold (\<lambda>(_, e) r. case r of Some i \<Rightarrow> Some i | None \<Rightarrow> Engine_Image e q) (engines c) None)"

definition Cluster_Container :: "Cluster \<Rightarrow> string \<Rightarrow> Container option" where
  "Cluster_Container c q = (if length q = 0 then None else Containers_Get (Cluster_Containers c) q)"

definition checkNameUniqueness :: "Cluster \<Rightarrow> string \<Rightarrow> bool" where
  "checkNameUniqueness c name \<longleftrightarrow>
     length name = 0 \<or>
     (\<not> list_ex (\<lambda>(_, e). list_ex (\<lambda>k. list_ex (\<lambda>cname. cname = name \<or> cname = CHR ''/'' # name) (Names k)) (Engine_Containers e))
        (engines c) \<and>
      \<not> list_ex (\<lambda>(_, p). pc_Name p = name) (pendingContainers c))"

text \<open>A node is the engine with the containers that are being created on it; one that does not fit is left out.\<close>

definition node_with_pending :: "Cluster \<Rightarrow> Engine \<Rightarrow> Node" where
  "node_with_pending c e =
     fold (\<lambda>(_, p) n.
        if e_ID (pc_Engine p) = e_ID e \<and> Node_Container n (SwarmID (pc_Config p)) = None
        then snd (Node_AddContainer n (ToContainer p))
        else n) (pendingContainers c) (NewNode e)"

definition listNodes :: "Cluster \<Rightarrow> Node list" where
  "listNodes c = map (\<lambda>(_, e). node_with_pending c e) (engines c)"

definition listEngines :: "Cluster \<Rightarrow> Engine list" where
  "listEngines c = map snd (engines c) @ map snd (pendingEngines c)"

definition Cluster_TotalMemory :: "Cluster \<Rightarrow> int" where
  "Cluster_TotalMemory c = fold (\<lambda>(_, e) t. i64 (t + Engine_TotalMemory e)) (engines c) 0"

definition Cluster_TotalCpus :: "Cluster \<Rightarrow> int" where
  "Cluster_TotalCpus c = fold (\<lambda>(_, e) t. i64 (t + Engine_TotalCpus e)) (engines c) 0"

definition RANDOMENGINE :: "Cluster \<Rightarrow> ContainerConfig \<Rightarrow> Engine option result option" where
  "RANDOMENGINE c zero = do {
     r \<leftarrow> SelectNodesForContainer (cl_scheduler c) (listNodes c) zero;
     (case r of
        Inl err \<Rightarrow> Some (Inl err)
      | Inr nodes \<Rightarrow> do { n \<leftarrow> index nodes 0; Some (Inr (map_of (engines c) (nd_ID n))) }) }"

subsection \<open>Engines joining and leaving\<close>

definition getEngineByAddr :: "Cluster \<Rightarrow> string \<Rightarrow> Engine option" where
  "getEngineByAddr c addr =
     (case map_of (pendingEngines c) addr of
        Some e \<Rightarrow> Some e
      | None \<Rightarrow> map_option snd (first_such (\<lambda>(_, e). e_Addr e = addr) (engines c)))"

text \<open>The new engine registers the cluster as its event handler; its validation is a step of its own.\<close>

definition addEngine :: "int \<Rightarrow> string \<Rightarrow> Cluster \<Rightarrow> bool \<times> Cluster" where
  "addEngine now addr c =
     (if getEngineByAddr c addr \<noteq> None then (False, c)
      else
        let engine = snd (RegisterEventHandler (NewEngine now addr (cl_overcommit c) (cl_FailureRetry c)))
        in (True, c\<lparr>pendingEngines := AList.update addr engine (pendingEngines c)\<rparr>))"

definition validatePendingEngine ::
    "(string \<Rightarrow> 'd Api) \<Rightarrow> (string \<Rightarrow> ('d, string) call) \<Rightarrow> (string \<Rightarrow> ('d, unit) call) \<Rightarrow> string \<Rightarrow>
     ('d cstate, bool) op" where
  "validatePendingEngine apis resolve new_client addr = (\<lambda>(c, d).
     case map_of (pendingEngines c) addr of
       None \<Rightarrow> Some (False, c, d)
     | Some e0 \<Rightarrow>
         (case Connect (apis (e_Addr e0)) resolve new_client (e0, d) of
            None \<Rightarrow> None
          | Some (Inl _, e, d') \<Rightarrow> Some (False, c\<lparr>pendingEngines := AList.update addr e (pendingEngines c)\<rparr>, d')
          | Some (Inr _, e, d') \<Rightarrow>
              (case map_of (engines c) (e_ID e) of
                 Some old \<Rightarrow>
                   if e_Addr old \<noteq> e_Addr e
                   then Some (False, c\<lparr>pendingEngines :=
                          AList.update addr (HandleIDConflict (clock (apis (e_Addr e)) d') (e_Addr old) e) (pendingEngines c)\<rparr>, d')
                   else (case Disconnect e of
                           None \<Rightarrow> None
                         | Some _ \<Rightarrow> Some (False, c\<lparr>pendingEngines := AList.delete (e_Addr e) (pendingEngines c)\<rparr>, d'))
               | None \<Rightarrow>
                   Some (True, c\<lparr>pendingEngines := AList.delete (e_Addr e) (pendingEngines c),
                                 engines := AList.update (e_ID e) (ValidationComplete e) (engines c)\<rparr>, d'))))"

definition removeEngine :: "string \<Rightarrow> Cluster \<Rightarrow> (bool \<times> Cluster) option" where
  "removeEngine addr c =
     (case getEngineByAddr c addr of
        None \<Rightarrow> Some (False, c)
      | Some e \<Rightarrow>
          (case Disconnect e of
             None \<Rightarrow> None
           | Some _ \<Rightarrow>
               Some (True,
                 if map_of (pendingEngines c) addr \<noteq> None
                 then c\<lparr>pendingEngines := AList.delete addr (pendingEngines c)\<rparr>
                 else c\<lparr>engines := AList.delete (e_ID e) (engines c)\<rparr>)))"

text \<open>Discovery: \<open>Entries.Diff\<close> and one round of \<open>monitorDiscovery\<close>; an entry stands for its address.\<close>

definition Diff :: "string list \<Rightarrow> string list \<Rightarrow> string list \<times> string list" where
  "Diff e cmp = (filter (\<lambda>x. x \<notin> set e) cmp, filter (\<lambda>x. x \<notin> set cmp) e)"

primrec remove_engines :: "string list \<Rightarrow> Cluster \<Rightarrow> Cluster option" where
  "remove_engines [] c = Some c"
| "remove_engines (a # as) c = (case removeEngine a c of None \<Rightarrow> None | Some (_, c') \<Rightarrow> remove_engines as c')"

definition discovery_round :: "int \<Rightarrow> string list \<Rightarrow> string list \<Rightarrow> Cluster \<Rightarrow> Cluster option" where
  "discovery_round now currentEntries entries c =
     (let (added, removed) = Diff currentEntries entries in
      map_option (fold (\<lambda>a c. snd (addEngine now a c)) added) (remove_engines removed c))"

text \<open>One round of \<open>monitorPendingEngines\<close>: the addresses whose validation is started.\<close>

definition due_engines :: "int \<Rightarrow> Cluster \<Rightarrow> string list" where
  "due_engines now c = map (\<lambda>(_, e). e_Addr e) (filter (\<lambda>(_, e). TimeToValidate now e) (pendingEngines c))"

subsection \<open>Creating containers\<close>

definition GenerateRandomID :: "('d cstate, string) op" where
  "GenerateRandomID = (\<lambda>(c, d). Some (ids c (drawn c), c\<lparr>drawn := Suc (drawn c)\<rparr>, d))"

text \<open>The loop draws identifiers until one is free; it yields no value when none ever is.\<close>

partial_function (option) draw_unique :: "(string \<Rightarrow> bool) \<Rightarrow> (nat \<Rightarrow> string) \<Rightarrow> nat \<Rightarrow> nat option" where
  "draw_unique free rs n = (if free (rs n) then Some n else draw_unique free rs (Suc n))"

declare draw_unique.simps [code]

definition generateUniqueID :: "Cluster \<Rightarrow> (string \<times> Cluster) option" where
  "generateUniqueID c =
     (case draw_unique (\<lambda>i. Cluster_Container c i = None) (ids c) (drawn c) of
        None \<Rightarrow> None
      | Some n \<Rightarrow> Some (ids c n, c\<lparr>drawn := Suc n\<rparr>))"

definition conflict_error :: "string \<Rightarrow> go_error" where
  "conflict_error name = errorf (''Conflict: The name '' @ name @ '' is already assigned. You have to delete (or rename) that container to be able to assign '' @ name @ '' to a container again.'')"

text \<open>What a network that exists on one engine only makes of the configuration.\<close>

definition local_network :: "Cluster \<Rightarrow> ContainerConfig \<Rightarrow> ContainerConfig" where
  "local_network c config =
     (case Networks_Get (Cluster_Networks c) (NetworkMode (HostConfig config)) of
        None \<Rightarrow> config
      | Some n \<Rightarrow>
          if Scope n = ''local'' then
            let config = (if \<not> HaveNodeConstraint config then AddConstraint config (''node==~'' @ e_Name (n_Engine n)) else config)
            in config\<lparr>HostConfig := (HostConfig config)\<lparr>NetworkMode := n_Name n\<rparr>\<rparr>
          else config)"

text \<open>What follows the scheduler's answer: the first node's engine is looked up and the pending container recorded.\<close>

definition place ::
    "string \<Rightarrow> string \<Rightarrow> ContainerConfig \<Rightarrow> Node list result \<Rightarrow> Cluster \<Rightarrow>
     ((ContainerConfig \<times> (string \<times> string) result) \<times> Cluster) option" where
  "place swarmID name config r c =
     (case r of
        Inl err \<Rightarrow> Some ((config, Inl err), c)
      | Inr nodes \<Rightarrow> do {
          n \<leftarrow> index nodes 0;
          Some (case map_of (engines c) (nd_ID n) of
             None \<Rightarrow> ((config, Inl (errorf ''error creating container'')), c)
           | Some e \<Rightarrow>
               ((config, Inr (swarmID, nd_ID n)),
                c\<lparr>pendingContainers := AList.update swarmID
                   \<lparr>pc_Config = config, pc_Name = name, pc_Engine = engine_spec e\<rparr> (pendingContainers c)\<rparr>)) })"

text \<open>
  The first part of \<open>createContainer\<close>, under the scheduler's lock: it checks the name, completes the configuration, has the
  scheduler choose and records the pending container. The value is the configuration as the
  caller sees it afterwards, since the source changes it in place, with the error or the Swarm ID and the engine.
\<close>

definition reserve ::
    "ContainerConfig \<Rightarrow> string \<Rightarrow> bool \<Rightarrow> Cluster \<Rightarrow> ((ContainerConfig \<times> (string \<times> string) result) \<times> Cluster) option" where
  "reserve config name withImageAffinity c =
     (if \<not> checkNameUniqueness c name then Some ((config, Inl (conflict_error name)), c)
      else do {
        (swarmID, config, c) \<leftarrow>
          (if SwarmID config = [] then
             (case generateUniqueID c of None \<Rightarrow> None | Some (i, c') \<Rightarrow> Some (i, SetSwarmID config i, c'))
           else Some (SwarmID config, config, c));
        let config = local_network c config;
        let image = ''image=='' @ Image config;
        let wish = (if withImageAffinity then AddAffinity config image else config);
        r \<leftarrow> SelectNodesForContainer (cl_scheduler c) (listNodes c) wish;
        let config = (if withImageAffinity then RemoveAffinity wish image else wish);
        place swarmID name config r c })"

definition forget_pending :: "string \<Rightarrow> Cluster \<Rightarrow> Cluster" where
  "forget_pending swarmID c = c\<lparr>pendingContainers := AList.delete swarmID (pendingContainers c)\<rparr>"

definition Cluster_createContainer ::
    "(string \<Rightarrow> 'd Api) \<Rightarrow> ContainerConfig \<Rightarrow> string \<Rightarrow> bool \<Rightarrow> AuthConfig option \<Rightarrow>
     ('d cstate, ContainerConfig \<times> Container result) op" where
  "Cluster_createContainer apis config name withImageAffinity au =
     and_then (\<lambda>(c, d). map_option (\<lambda>(r, c'). (r, c', d)) (reserve config name withImageAffinity c)) (\<lambda>(config, r).
     case r of
       Inl err \<Rightarrow> ret (config, Inl err)
     | Inr (swarmID, eid) \<Rightarrow>
         and_then (at_engine apis eid (\<lambda>api. CreateContainer api config name True au)) (\<lambda>k.
         and_then (on_cluster (forget_pending swarmID)) (\<lambda>_. ret (config, k))))"

primrec retry_create ::
    "nat \<Rightarrow> (string \<Rightarrow> 'd Api) \<Rightarrow> string \<Rightarrow> AuthConfig option \<Rightarrow> ContainerConfig \<times> Container result \<Rightarrow>
     ('d cstate, ContainerConfig \<times> Container result) op" where
  "retry_create 0 apis name au r = ret r"
| "retry_create (Suc n) apis name au r =
     (case snd r of
        Inr _ \<Rightarrow> ret r
      | Inl _ \<Rightarrow> and_then (Cluster_createContainer apis (fst r) name False au) (retry_create n apis name au))"

text \<open>
  \<open>re\<close> is the regular expression matcher: a message about a missing image or repository leads to a second attempt with an
  affinity to the image. Further attempts, up to \<open>createRetry\<close>, go without it.
\<close>

definition image_missing :: "(string \<Rightarrow> string \<Rightarrow> bool) \<Rightarrow> go_error \<Rightarrow> bool" where
  "image_missing re err \<longleftrightarrow>
     re (''image '' @ CHR 0x5C # ''S* not found'') (Error err) \<or>
     re (''repository '' @ CHR 0x5C # ''S* not found'') (Error err) \<or> isErrImageNotFound err"

definition Cluster_CreateContainer ::
    "(string \<Rightarrow> string \<Rightarrow> bool) \<Rightarrow> (string \<Rightarrow> 'd Api) \<Rightarrow> ContainerConfig \<Rightarrow> string \<Rightarrow> AuthConfig option \<Rightarrow>
     ('d cstate, ContainerConfig \<times> Container result) op" where
  "Cluster_CreateContainer re apis config name au =
     and_then (Cluster_createContainer apis config name False au) (\<lambda>(config, r). case r of
       Inr k \<Rightarrow> ret (config, Inr k)
     | Inl err \<Rightarrow>
         and_then the_cluster (\<lambda>c.
         if image_missing re err \<and> \<not> HaveNodeConstraint config \<and> Cluster_Image c (Image config) \<noteq> None
         then and_then (Cluster_createContainer apis config name True au)
                (retry_create (nat (createRetry c - 1)) apis name au)
         else retry_create (nat (createRetry c)) apis name au (config, Inl err)))"

definition Cluster_StartContainer ::
    "(string \<Rightarrow> 'd Api) \<Rightarrow> Container \<Rightarrow> HostConfig option \<Rightarrow> ('d cstate, unit result) op" where
  "Cluster_StartContainer apis k h = of_engine apis (c_Engine k) (\<lambda>api. StartContainer api (c_ID k) h)"

definition Cluster_RemoveContainer :: "(string \<Rightarrow> 'd Api) \<Rightarrow> Container \<Rightarrow> bool \<Rightarrow> bool \<Rightarrow> ('d cstate, unit result) op" where
  "Cluster_RemoveContainer apis k force vols = of_engine apis (c_Engine k) (\<lambda>api. RemoveContainer api k force vols)"

definition Cluster_RenameContainer :: "(string \<Rightarrow> 'd Api) \<Rightarrow> Container \<Rightarrow> string \<Rightarrow> ('d cstate, unit result) op" where
  "Cluster_RenameContainer apis k newName =
     and_then the_cluster (\<lambda>c.
     if \<not> checkNameUniqueness c newName then ret (Inl (conflict_error newName))
     else of_engine apis (c_Engine k) (\<lambda>api. RenameContainer api k newName))"

subsection \<open>Networks and volumes\<close>

definition zero_config :: ContainerConfig where
  "zero_config = c_Config (zero_container \<lparr>e_ID = [], e_IP = [], e_Addr = [], e_Name = [], e_Labels = Map.empty\<rparr>)"

definition node_config :: "string \<Rightarrow> ContainerConfig" where
  "node_config node =
     BuildContainerConfig \<lparr>Env = [''constraint:node=='' @ node], Labels = Map.empty, Image = [], ExposedPorts = []\<rparr> zero_host []"

primrec remove_from_any :: "(string \<Rightarrow> 'd Api) \<Rightarrow> Network \<Rightarrow> string list \<Rightarrow> go_error \<Rightarrow> ('d cstate, unit result) op" where
  "remove_from_any apis n [] err = ret (Inl err)"
| "remove_from_any apis n (eid # rest) err =
     and_then (at_engine apis eid (\<lambda>api. RemoveNetwork api n)) (\<lambda>r. case r of
       Inl _ \<Rightarrow> remove_from_any apis n rest err
     | Inr _ \<Rightarrow> and_then (all_engines (DeleteNetwork n)) (\<lambda>_. ret (Inr ())))"

definition Cluster_RemoveNetwork :: "(string \<Rightarrow> 'd Api) \<Rightarrow> Network \<Rightarrow> ('d cstate, unit result) op" where
  "Cluster_RemoveNetwork apis n =
     and_then (of_engine apis (n_Engine n) (\<lambda>api. RemoveNetwork api n)) (\<lambda>r. case r of
       Inr _ \<Rightarrow>
         if Scope n = ''global'' then and_then (all_engines (DeleteNetwork n)) (\<lambda>_. ret (Inr ())) else ret (Inr ())
     | Inl err \<Rightarrow>
         if isErrConnectionFailed err \<and> Scope n = ''global''
         then and_then the_cluster (\<lambda>c. remove_from_any apis n (map fst (engines c)) err)
         else ret (Inl err))"

text \<open>The slice of nodes is never nil when there is no error, so the last return of the source is not reached.\<close>

definition Cluster_CreateNetwork :: "(string \<Rightarrow> 'd Api) \<Rightarrow> string \<Rightarrow> string \<Rightarrow> ('d cstate, string result) op" where
  "Cluster_CreateNetwork apis name request =
     (let parts = SplitN2 name ''/'';
          name = (if length parts = 2 then parts ! 1 else name);
          config = (if length parts = 2 then node_config (parts ! 0) else zero_config)
      in and_then the_cluster (\<lambda>c.
         or_panic (SelectNodesForContainer (cl_scheduler c) (listNodes c) config) (\<lambda>r. case r of
           Inl err \<Rightarrow> ret (Inl err)
         | Inr nodes \<Rightarrow>
             or_panic (index nodes 0) (\<lambda>n.
             or_return (at_engine apis (nd_ID n) (\<lambda>api. CreateNetwork api name request)) (\<lambda>nid.
             and_then (on_cluster (\<lambda>c.
               case map_of (engines c) (nd_ID n) of
                 None \<Rightarrow> c
               | Some e \<Rightarrow>
                   (case Networks_Get (Engine_Networks e) nid of
                      None \<Rightarrow> c
                    | Some net \<Rightarrow>
                        if Scope net = ''global''
                        then c\<lparr>engines := map (\<lambda>(k, e). (k, if k \<noteq> nd_ID n then AddNetwork net e else e)) (engines c)\<rparr>
                        else c))) (\<lambda>_. ret (Inr nid)))))))"

text \<open>
  Without a node the volume is created on every engine, by one goroutine each; the last success wins and an error
  is reported only when nothing succeeded before it. With a node, the variable \<open>err\<close> that receives the error of the
  engine is a new one, declared inside the branch, and the function returns the outer one, which is nil.
\<close>

definition volume_step :: "Volume option \<times> go_error option \<Rightarrow> Volume result \<Rightarrow> Volume option \<times> go_error option" where
  "volume_step acc r =
     (case r of
        Inr v \<Rightarrow> (Some v, None)
      | Inl er \<Rightarrow> (case fst acc of None \<Rightarrow> (None, Some er) | Some _ \<Rightarrow> acc))"

definition Cluster_CreateVolume ::
    "(string \<Rightarrow> 'd Api) \<Rightarrow> string \<Rightarrow> string \<Rightarrow> ('d cstate, Volume option \<times> go_error option) op" where
  "Cluster_CreateVolume apis requestName driver =
     (let parts = SplitN2 requestName ''/'';
          node = (if requestName \<noteq> [] \<and> length parts = 2 then parts ! 0 else [])
      in and_then (if requestName = [] then GenerateRandomID
                   else ret (if length parts = 2 then parts ! 1 else requestName)) (\<lambda>name.
         if node = [] then
           range_engines (\<lambda>eid acc. and_then (at_engine apis eid (\<lambda>api. CreateVolume api name driver)) (\<lambda>r.
             ret (volume_step acc r))) (None, None)
         else and_then the_cluster (\<lambda>c.
           or_panic (SelectNodesForContainer (cl_scheduler c) (listNodes c) (node_config (parts ! 0))) (\<lambda>r. case r of
             Inl err \<Rightarrow> ret (None, Some err)
           | Inr nodes \<Rightarrow>
               or_panic (index nodes 0) (\<lambda>n.
               and_then (at_engine apis (nd_ID n) (\<lambda>api. CreateVolume api name driver)) (\<lambda>r.
               ret (case r of Inr v \<Rightarrow> Some v | Inl _ \<Rightarrow> None, None)))))))"

definition errors_joined :: "string list \<Rightarrow> go_error option" where
  "errors_joined errs = (if length errs > 0 then Some (errorf (str_Join errs [CHR 0x0A])) else None)"

definition Cluster_RemoveVolumes :: "(string \<Rightarrow> 'd Api) \<Rightarrow> string \<Rightarrow> ('d cstate, bool \<times> go_error option) op" where
  "Cluster_RemoveVolumes apis name =
     and_then (range_engines (\<lambda>eid (found, errs).
       and_then the_cluster (\<lambda>c.
       or_panic (map_of (engines c) eid) (\<lambda>e.
       case Volumes_Get (Engine_Volumes e) name of
         None \<Rightarrow> ret (found, errs)
       | Some v \<Rightarrow>
           and_then (at_engine apis eid (\<lambda>api. RemoveVolume api (v_Name v))) (\<lambda>r.
           ret (case r of Inl err \<Rightarrow> (found, errs @ [e_Name e @ '': '' @ Error err]) | Inr _ \<Rightarrow> (True, errs)))))) (False, []))
     (\<lambda>(found, errs). ret (found, errors_joined errs))"

subsection \<open>Images\<close>

definition Cluster_RemoveImages :: "(string \<Rightarrow> 'd Api) \<Rightarrow> string \<Rightarrow> bool \<Rightarrow> ('d cstate, string list \<times> go_error option) op" where
  "Cluster_RemoveImages apis name force =
     and_then (range_engines (\<lambda>eid acc.
       and_then the_cluster (\<lambda>c.
       or_panic (map_of (engines c) eid) (\<lambda>e.
       fold_op (\<lambda>_ (out, errs).
         and_then (at_engine apis eid (\<lambda>api. RemoveImage api name force)) (\<lambda>r.
         ret (case r of Inl err \<Rightarrow> (out, errs @ [e_Name e @ '': '' @ Error err]) | Inr content \<Rightarrow> (out @ content, errs))))
         (filter (\<lambda>i. Image_Match i name True) (Engine_Images e)) acc))) ([], []))
     (\<lambda>(out, errs). ret (out, errors_joined errs))"

definition Cluster_TagImage :: "(string \<Rightarrow> 'd Api) \<Rightarrow> string \<Rightarrow> string \<Rightarrow> ('d cstate, go_error option) op" where
  "Cluster_TagImage apis q ref =
     and_then (range_engines (\<lambda>eid acc.
       and_then the_cluster (\<lambda>c.
       or_panic (map_of (engines c) eid) (\<lambda>e.
       fold_op (\<lambda>_ (found, errs).
         and_then (at_engine apis eid (\<lambda>api. TagImage api q ref)) (\<lambda>r.
         ret (case r of Inl err \<Rightarrow> (True, errs @ [e_Name e @ '': '' @ Error err]) | Inr _ \<Rightarrow> (True, errs))))
         (filter (\<lambda>i. Image_Match i q True) (Engine_Images e)) acc))) (False, []))
     (\<lambda>(found, errs). ret (if \<not> found then Some (errorf (''No such image: '' @ q)) else errors_joined errs))"

text \<open>The calls of the callback: the name of the engine, a status and an error.\<close>

type_synonym callbacks = "(string \<times> string \<times> go_error option) list"

definition fan_out ::
    "(string \<Rightarrow> 'd Api) \<Rightarrow> ('d Api \<Rightarrow> (Engine \<times> 'd, unit result) op) \<Rightarrow> (string \<Rightarrow> unit result \<Rightarrow> callbacks) \<Rightarrow>
     ('d cstate, callbacks) op" where
  "fan_out apis m report =
     range_engines (\<lambda>eid calls.
       and_then the_cluster (\<lambda>c.
       or_panic (map_of (engines c) eid) (\<lambda>e.
       and_then (at_engine apis eid m) (\<lambda>r. ret (calls @ report (e_Name e) r))))) []"

definition Cluster_Pull :: "(string \<Rightarrow> 'd Api) \<Rightarrow> string \<Rightarrow> AuthConfig option \<Rightarrow> ('d cstate, callbacks) op" where
  "Cluster_Pull apis name au =
     fan_out apis (\<lambda>api. Pull api name au) (\<lambda>engine r.
       [(engine, [], None), (case r of Inl err \<Rightarrow> (engine, [], Some err) | Inr _ \<Rightarrow> (engine, ''downloaded'', None))])"

definition Cluster_Load :: "(string \<Rightarrow> 'd Api) \<Rightarrow> string \<Rightarrow> ('d cstate, callbacks) op" where
  "Cluster_Load apis reader =
     fan_out apis (\<lambda>api. Load api reader) (\<lambda>engine r. case r of Inl err \<Rightarrow> [(engine, [], Some err)] | Inr _ \<Rightarrow> [])"

definition Cluster_Import :: "(string \<Rightarrow> 'd Api) \<Rightarrow> string \<Rightarrow> string \<Rightarrow> string \<Rightarrow> string \<Rightarrow> ('d cstate, callbacks) op" where
  "Cluster_Import apis source ref tag reader =
     fan_out apis (\<lambda>api. Import api source ref tag reader) (\<lambda>engine r.
       [case r of Inl err \<Rightarrow> (engine, [], Some err) | Inr _ \<Rightarrow> (engine, ''Import success'', None)])"

text \<open>The output that is copied to the client, and the error. An error of the copy leaves what was copied before.\<close>

definition Cluster_BuildImage ::
    "(string \<Rightarrow> 'd Api) \<Rightarrow> string \<Rightarrow> ImageBuildOptions \<Rightarrow> ('d cstate, string \<times> go_error option) op" where
  "Cluster_BuildImage apis buildContext buildImage =
     (let config = BuildContainerConfig
            \<lparr>Env = convertMapToKVStrings (bo_BuildArgs buildImage), Labels = Map.empty, Image = [], ExposedPorts = []\<rparr>
            (zero_host\<lparr>CPUShares := bo_CPUShares buildImage, Memory := bo_Memory buildImage\<rparr>) [];
          buildImage = buildImage\<lparr>bo_BuildArgs := convertKVStringsToMap (Env config)\<rparr>
      in and_then the_cluster (\<lambda>c.
         or_panic (SelectNodesForContainer (cl_scheduler c) (listNodes c) config) (\<lambda>r. case r of
           Inl err \<Rightarrow> ret ([], Some err)
         | Inr nodes \<Rightarrow>
             or_panic (index nodes 0) (\<lambda>n.
             and_then (at_engine apis (nd_ID n) (\<lambda>api. BuildImage api buildContext buildImage)) (\<lambda>reader. case reader of
               Inl err \<Rightarrow> ret ([], Some err)
             | Inr (out, copy_err) \<Rightarrow>
                 (case copy_err of
                    Some err \<Rightarrow> ret (out, Some err)
                  | None \<Rightarrow> and_then (at_engine apis (nd_ID n) RefreshImages) (\<lambda>_. ret (out, None))))))))"

subsection \<open>Refreshing\<close>

primrec refresh_each :: "(string \<Rightarrow> 'd Api) \<Rightarrow> string list \<Rightarrow> ('d cstate, unit result) op" where
  "refresh_each apis [] = ret (Inr ())"
| "refresh_each apis (eid # rest) =
     or_return (at_engine apis eid (\<lambda>api. RefreshContainers api True)) (\<lambda>_. refresh_each apis rest)"

definition RefreshEngines :: "(string \<Rightarrow> 'd Api) \<Rightarrow> ('d cstate, unit result) op" where
  "RefreshEngines apis = and_then the_cluster (\<lambda>c. refresh_each apis (map fst (engines c)))"

definition Cluster_RefreshEngine :: "(string \<Rightarrow> 'd Api) \<Rightarrow> string \<Rightarrow> ('d cstate, unit result) op" where
  "Cluster_RefreshEngine apis hostname =
     and_then the_cluster (\<lambda>c.
     case first_such (\<lambda>(_, e). e_Name e = hostname) (engines c) of
       Some (eid, _) \<Rightarrow> at_engine apis eid (\<lambda>api. RefreshContainers api True)
     | None \<Rightarrow> ret (Inl (errorf (''no engine found with hostname '' @ hostname))))"

end
