(* ===== verification/Swarm_Invariants.thy ===== *)
theory Swarm_Invariants
  imports Swarm_Cluster
begin

section \<open>What the operations of the cluster guarantee\<close>

text \<open>
  The invariant of the manager's tables, its preservation by every operation of \<open>Swarm_Cluster\<close>, and the
  transition system in which creations are split into their two critical sections so that they interleave
  with each other, with the engines' own activity and with discovery.
\<close>

subsection \<open>The invariant\<close>

text \<open>
  Engines are stored under their identifier, waiting engines under their address, no two engines have the same
  address, in one table or across both, and two containers that are being created have different names.
\<close>

definition engine_addrs :: "Cluster \<Rightarrow> string list" where
  "engine_addrs c = map (\<lambda>(_, e). e_Addr e) (engines c)"

definition engines_ok :: "(string \<times> Engine) list \<Rightarrow> bool" where
  "engines_ok es \<longleftrightarrow>
     distinct (map fst es) \<and> (\<forall>(k, e) \<in> set es. k \<noteq> [] \<and> e_ID e = k \<and> engine_ok e)"

definition pending_ok :: "(string \<times> Engine) list \<Rightarrow> bool" where
  "pending_ok es \<longleftrightarrow> distinct (map fst es) \<and> (\<forall>(a, e) \<in> set es. e_Addr e = a \<and> engine_ok e)"

definition names_ok :: "(string \<times> pendingContainer) list \<Rightarrow> bool" where
  "names_ok ps \<longleftrightarrow>
     distinct (map fst ps) \<and>
     (\<forall>(i, p) \<in> set ps. \<forall>(j, q) \<in> set ps. pc_Name p = pc_Name q \<and> pc_Name p \<noteq> [] \<longrightarrow> i = j)"

definition cluster_ok :: "Cluster \<Rightarrow> bool" where
  "cluster_ok c \<longleftrightarrow>
     engines_ok (engines c) \<and> pending_ok (pendingEngines c) \<and> names_ok (pendingContainers c) \<and>
     distinct (engine_addrs c) \<and> set (engine_addrs c) \<inter> fst ` set (pendingEngines c) = {} \<and>
     0 < cl_FailureRetry c \<and> cl_FailureRetry c < 2 ^ 63"

definition cluster_inv :: "'d cstate \<Rightarrow> bool" where
  "cluster_inv s \<longleftrightarrow> cluster_ok (fst s)"

text \<open>Daemons report a non-empty identifier.\<close>

definition ids_reported :: "(string \<Rightarrow> 'd Api) \<Rightarrow> bool" where
  "ids_reported apis \<longleftrightarrow> (\<forall>a d info d'. api_Info (apis a) d = (Inr info, d') \<longrightarrow> info_ID info \<noteq> [])"

subsection \<open>Replacing an engine\<close>

lemma update_same_keys: "k \<in> fst ` set m \<Longrightarrow> map fst (AList.update k v m) = map fst m"
  by (induction m) auto

lemma map_of_key: "map_of m k = Some v \<Longrightarrow> k \<in> fst ` set m"
  by (force dest: map_of_SomeD)

lemma update_same_map:
  "distinct (map fst m) \<Longrightarrow> map_of m k = Some v \<Longrightarrow> f v' = f v \<Longrightarrow>
     map (\<lambda>(_, x). f x) (AList.update k v' m) = map (\<lambda>(_, x). f x) m"
  by (induction m) (auto split: if_splits)

lemma engines_ok_lookup: "engines_ok es \<Longrightarrow> map_of es k = Some e \<Longrightarrow> k \<noteq> [] \<and> e_ID e = k \<and> engine_ok e"
  by (auto simp: engines_ok_def dest!: map_of_SomeD)

lemma pending_ok_lookup: "pending_ok es \<Longrightarrow> map_of es a = Some e \<Longrightarrow> e_Addr e = a \<and> engine_ok e"
  by (auto simp: pending_ok_def dest!: map_of_SomeD)

lemma engines_ok_update:
  "engines_ok es \<Longrightarrow> k \<noteq> [] \<Longrightarrow> e_ID e = k \<Longrightarrow> engine_ok e \<Longrightarrow> engines_ok (AList.update k e es)"
  by (auto simp: engines_ok_def dest: alist_mem_update)

lemma pending_ok_update: "pending_ok es \<Longrightarrow> e_Addr e = a \<Longrightarrow> engine_ok e \<Longrightarrow> pending_ok (AList.update a e es)"
  by (auto simp: pending_ok_def dest: alist_mem_update)

lemma engines_ok_delete: "engines_ok es \<Longrightarrow> engines_ok (AList.delete k es)"
  by (auto simp: engines_ok_def)

lemma pending_ok_delete: "pending_ok es \<Longrightarrow> pending_ok (AList.delete k es)"
  by (auto simp: pending_ok_def)

lemma cluster_ok_replace:
  assumes "cluster_ok c" "map_of (engines c) k = Some e" "engine_inv (e_Addr e) k (e', d)"
  shows "cluster_ok (c\<lparr>engines := AList.update k e' (engines c)\<rparr>)"
proof -
  from assms have "k \<noteq> []" "e_ID e' = k" "engine_ok e'" "e_Addr e' = e_Addr e"
    using engines_ok_lookup by (auto simp: cluster_ok_def engine_inv_def)
  moreover from this assms have "engine_addrs (c\<lparr>engines := AList.update k e' (engines c)\<rparr>) = engine_addrs c"
    by (simp add: engine_addrs_def update_same_map cluster_ok_def engines_ok_def)
  ultimately show ?thesis using assms(1) by (simp add: cluster_ok_def engines_ok_update)
qed

lemma cluster_ok_replace_pending:
  assumes "cluster_ok c" "map_of (pendingEngines c) a = Some e" "engine_inv a [] (e', d)"
  shows "cluster_ok (c\<lparr>pendingEngines := AList.update a e' (pendingEngines c)\<rparr>)"
proof -
  have "fst ` set (AList.update a e' (pendingEngines c)) = fst ` set (pendingEngines c)"
    using map_of_key [OF assms(2)] by auto
  with assms show ?thesis
    by (auto simp: cluster_ok_def engine_addrs_def engine_inv_def pending_ok_update)
qed

subsection \<open>Operations that keep it\<close>

lemma keeps_at_engine [keeps_rules]:
  assumes "\<And>api a i. keeps (engine_inv a i) (m api)"
  shows "keeps cluster_inv (at_engine apis eid m)"
proof (rule keepsI)
  fix s x s' assume inv: "cluster_inv s" and run: "at_engine apis eid m s = Some (x, s')"
  obtain c d where s: "s = (c, d)" by force
  from run obtain e e' d' where e: "map_of (engines c) eid = Some e"
    and m: "m (apis (e_Addr e)) (e, d) = Some (x, e', d')" and s': "s' = (c\<lparr>engines := AList.update eid e' (engines c)\<rparr>, d')"
    by (auto simp: s at_engine_def split: option.splits)
  have "engine_inv (e_Addr e) eid (e, d)"
    using inv engines_ok_lookup [OF _ e] by (auto simp: s cluster_inv_def cluster_ok_def engine_inv_def)
  from keepsD [OF assms this m] have "engine_inv (e_Addr e) eid (e', d')" .
  with cluster_ok_replace [OF _ e] inv show "cluster_inv s'" by (simp add: s s' cluster_inv_def)
qed

lemma keeps_of_engine [keeps_rules]:
  assumes "\<And>api a i. keeps (engine_inv a i) (m api)"
  shows "keeps cluster_inv (of_engine apis spec m)"
proof (rule keepsI)
  fix s x s' assume "cluster_inv s" "of_engine apis spec m s = Some (x, s')"
  then show "cluster_inv s'"
    using keepsD [OF keeps_at_engine [of m apis "e_ID spec"] _, OF assms]
    by (cases s) (auto simp: of_engine_def split: option.splits)
qed

lemma keeps_the_cluster [keeps_rules]: "keeps P the_cluster"
  by (simp add: the_cluster_def keeps_read)

lemma keeps_on_cluster [keeps_rules]:
  "(\<And>c. cluster_ok c \<Longrightarrow> cluster_ok (f c)) \<Longrightarrow> keeps cluster_inv (on_cluster f)"
  by (auto simp: on_cluster_def keeps_def modify_def cluster_inv_def)

lemma keeps_range_engines [keeps_rules]: "(\<And>eid b. keeps P (f eid b)) \<Longrightarrow> keeps P (range_engines f b)"
  unfolding range_engines_def by (intro keeps_rules)

lemma cluster_ok_map:
  assumes "cluster_ok c" "\<And>k e. engine_ok e \<Longrightarrow> engine_ok (f k e) \<and> e_ID (f k e) = e_ID e \<and> e_Addr (f k e) = e_Addr e"
  shows "cluster_ok (c\<lparr>engines := map (\<lambda>(k, e). (k, f k e)) (engines c)\<rparr>)"
proof -
  have "fst \<circ> (\<lambda>(k, e). (k, f k e)) = fst" by auto
  moreover have "engine_addrs (c\<lparr>engines := map (\<lambda>(k, e). (k, f k e)) (engines c)\<rparr>) = engine_addrs c"
    using assms by (auto simp: engine_addrs_def cluster_ok_def engines_ok_def)
  ultimately show ?thesis using assms by (auto simp: cluster_ok_def engines_ok_def)
qed

lemma network_changes:
  "engine_ok e \<Longrightarrow> engine_ok (DeleteNetwork n e) \<and> e_ID (DeleteNetwork n e) = e_ID e \<and> e_Addr (DeleteNetwork n e) = e_Addr e"
  "engine_ok e \<Longrightarrow> engine_ok (AddNetwork n e) \<and> e_ID (AddNetwork n e) = e_ID e \<and> e_Addr (AddNetwork n e) = e_Addr e"
  by (simp_all add: DeleteNetwork_def AddNetwork_def engine_ok_def health_ok_def)

lemma keeps_all_engines [keeps_rules]:
  "(\<And>e. engine_ok e \<Longrightarrow> engine_ok (f e) \<and> e_ID (f e) = e_ID e \<and> e_Addr (f e) = e_Addr e) \<Longrightarrow>
     keeps cluster_inv (all_engines f)"
  unfolding all_engines_def by (intro keeps_on_cluster cluster_ok_map) auto

lemma keeps_create_ops [keeps_rules]:
  "keeps cluster_inv (Cluster_StartContainer apis k h)" "keeps cluster_inv (Cluster_RemoveContainer apis k force vols)"
  "keeps cluster_inv (Cluster_RenameContainer apis k name)"
  unfolding Cluster_StartContainer_def Cluster_RemoveContainer_def Cluster_RenameContainer_def by (intro keeps_rules)+

lemma keeps_remove_from_any [keeps_rules]: "keeps cluster_inv (remove_from_any apis n eids err)"
  by (induction eids) (auto intro!: keeps_rules simp: network_changes)

lemma keeps_Cluster_RemoveNetwork [keeps_rules]: "keeps cluster_inv (Cluster_RemoveNetwork apis n)"
  unfolding Cluster_RemoveNetwork_def by (intro keeps_rules) (auto simp: network_changes)

lemma share_network_ok:
  "cluster_ok c \<Longrightarrow> cluster_ok (case map_of (engines c) i of None \<Rightarrow> c | Some e \<Rightarrow>
     (case Networks_Get (Engine_Networks e) nid of None \<Rightarrow> c | Some net \<Rightarrow>
        if Scope net = ''global''
        then c\<lparr>engines := map (\<lambda>(k, e). (k, if k \<noteq> i then AddNetwork net e else e)) (engines c)\<rparr> else c))"
  by (auto split: option.splits intro!: cluster_ok_map simp: network_changes)

lemma keeps_Cluster_CreateNetwork [keeps_rules]: "keeps cluster_inv (Cluster_CreateNetwork apis name request)"
  unfolding Cluster_CreateNetwork_def Let_def
  by (intro keeps_rules share_network_ok)

lemma keeps_GenerateRandomID [keeps_rules]: "keeps cluster_inv GenerateRandomID"
  by (auto simp: keeps_def GenerateRandomID_def cluster_inv_def cluster_ok_def engine_addrs_def)

lemma keeps_volume_ops [keeps_rules]:
  "keeps cluster_inv (Cluster_CreateVolume apis name driver)" "keeps cluster_inv (Cluster_RemoveVolumes apis name)"
  unfolding Cluster_CreateVolume_def Cluster_RemoveVolumes_def Let_def by (intro keeps_rules)+

lemma keeps_cluster_image_ops [keeps_rules]:
  "keeps cluster_inv (Cluster_RemoveImages apis name force)" "keeps cluster_inv (Cluster_TagImage apis q ref)"
  unfolding Cluster_RemoveImages_def Cluster_TagImage_def by (intro keeps_rules)+

lemma keeps_fan_out: "(\<And>api a i. keeps (engine_inv a i) (m api)) \<Longrightarrow> keeps cluster_inv (fan_out apis m report)"
  unfolding fan_out_def by (intro keeps_rules)

lemma keeps_fan_outs [keeps_rules]:
  "keeps cluster_inv (Cluster_Pull apis name au)" "keeps cluster_inv (Cluster_Load apis reader)"
  "keeps cluster_inv (Cluster_Import apis source ref tag reader)"
  unfolding Cluster_Pull_def Cluster_Load_def Cluster_Import_def by (intro keeps_fan_out keeps_rules)+

lemma keeps_Cluster_BuildImage [keeps_rules]: "keeps cluster_inv (Cluster_BuildImage apis ctx opts)"
  unfolding Cluster_BuildImage_def Let_def by (intro keeps_rules)

lemma keeps_refresh_each [keeps_rules]: "keeps cluster_inv (refresh_each apis eids)"
  by (induction eids) (auto intro!: keeps_rules)

lemma keeps_refreshes [keeps_rules]:
  "keeps cluster_inv (RefreshEngines apis)" "keeps cluster_inv (Cluster_RefreshEngine apis host)"
  unfolding RefreshEngines_def Cluster_RefreshEngine_def by (intro keeps_rules)+

subsection \<open>Reserving\<close>

lemma names_ok_update:
  assumes "names_ok ps" "pc_Name p = [] \<or> (\<forall>(_, q) \<in> set ps. pc_Name q \<noteq> pc_Name p)"
  shows "names_ok (AList.update i p ps)"
proof -
  have dist: "distinct (map fst ps)" using assms(1) by (simp add: names_ok_def)
  have "a = b" if ab: "(a, q) \<in> set (AList.update i p ps)" "(b, r) \<in> set (AList.update i p ps)"
    and name: "pc_Name q = pc_Name r" "pc_Name q \<noteq> []" for a q b r
  proof -
    have old: "(a, q) \<in> set ps \<Longrightarrow> (b, r) \<in> set ps \<Longrightarrow> a = b"
      using assms(1) name unfolding names_ok_def by fast
    have new: "(x, y) \<in> set ps \<Longrightarrow> pc_Name y \<noteq> pc_Name p" if "pc_Name p \<noteq> []" for x y
      using assms(2) that by auto
    from alist_mem_update [OF dist ab(1)] alist_mem_update [OF dist ab(2)] show ?thesis
      using old new name by metis
  qed
  with dist show ?thesis by (auto simp: names_ok_def)
qed

lemma names_ok_delete: "names_ok ps \<Longrightarrow> names_ok (AList.delete i ps)"
  by (fastforce simp: names_ok_def)

lemma unique_pending_name:
  "checkNameUniqueness c name \<Longrightarrow> name = [] \<or> (\<forall>(_, q) \<in> set (pendingContainers c). pc_Name q \<noteq> name)"
  by (auto simp: checkNameUniqueness_def list_ex_iff)

lemma generateUniqueID_cluster: "generateUniqueID c = Some (i, c') \<Longrightarrow> \<exists>n. c' = c\<lparr>drawn := n\<rparr>"
  by (auto simp: generateUniqueID_def split: option.splits)

lemma reserve_cases:
  assumes "reserve config name aff c = Some ((config', r), c')"
  shows "\<exists>n. (case r of Inl _ \<Rightarrow> c' = c\<lparr>drawn := n\<rparr>
     | Inr (i, eid) \<Rightarrow> checkNameUniqueness c name \<and> (\<exists>e. map_of (engines c) eid = Some e \<and>
         c' = c\<lparr>drawn := n, pendingContainers := AList.update i
           \<lparr>pc_Config = config', pc_Name = name, pc_Engine = engine_spec e\<rparr> (pendingContainers c)\<rparr>))"
proof (cases "checkNameUniqueness c name")
  case False
  with assms show ?thesis by (auto simp: reserve_def intro: exI [of _ "drawn c"])
next
  case True
  obtain sid cfg c1 where start: "(if SwarmID config = [] then
       (case generateUniqueID c of None \<Rightarrow> None | Some (i, c') \<Rightarrow> Some (i, SetSwarmID config i, c'))
     else Some (SwarmID config, config, c)) = Some (sid, cfg, c1)"
    using assms True by (auto simp: reserve_def bind_eq_Some_conv split: if_splits)
  then obtain n where c1: "c1 = c\<lparr>drawn := n\<rparr>"
  proof (cases "SwarmID config = []")
    case False
    with start that [of "drawn c"] show ?thesis by simp
  qed (use start generateUniqueID_cluster that in \<open>auto split: option.splits\<close>)
  from assms True obtain cfg' ans where "place sid name cfg' ans c1 = Some ((config', r), c')"
    unfolding reserve_def start by (auto simp: Let_def bind_eq_Some_conv)
  with c1 True show ?thesis
    by (auto simp: place_def bind_eq_Some_conv split: sum.splits option.splits)
qed

lemma cluster_ok_drawn: "cluster_ok (c\<lparr>drawn := n\<rparr>) = cluster_ok c"
  by (simp add: cluster_ok_def engine_addrs_def)

lemma cluster_ok_pending: "cluster_ok c \<Longrightarrow> names_ok ps \<Longrightarrow> cluster_ok (c\<lparr>pendingContainers := ps\<rparr>)"
  by (simp add: cluster_ok_def engine_addrs_def)

lemma reserve_ok:
  assumes "cluster_ok c" "reserve config name aff c = Some (r, c')"
  shows "cluster_ok c'"
proof -
  obtain config' r' where r: "r = (config', r')" by force
  have "names_ok (pendingContainers c)" using assms(1) by (simp add: cluster_ok_def)
  with reserve_cases [OF assms(2) [unfolded r]] assms(1) show ?thesis
    by (cases r') (auto simp: cluster_ok_drawn intro!: cluster_ok_pending names_ok_update unique_pending_name)
qed

lemma forget_pending_ok: "cluster_ok c \<Longrightarrow> cluster_ok (forget_pending i c)"
  by (simp add: forget_pending_def cluster_ok_pending names_ok_delete cluster_ok_def engine_addrs_def)

lemma keeps_Cluster_createContainer [keeps_rules]: "keeps cluster_inv (Cluster_createContainer apis config name aff au)"
proof -
  have "keeps cluster_inv (\<lambda>(c, d). map_option (\<lambda>(r, c'). (r, c', d)) (reserve config name aff c))"
    by (auto simp: keeps_def cluster_inv_def dest: reserve_ok)
  then show ?thesis
    unfolding Cluster_createContainer_def by (intro keeps_rules forget_pending_ok)
qed

lemma keeps_retry_create [keeps_rules]: "keeps cluster_inv (retry_create n apis name au r)"
  by (induction n arbitrary: r) (auto intro!: keeps_rules)

lemma keeps_Cluster_CreateContainer [keeps_rules]: "keeps cluster_inv (Cluster_CreateContainer re apis config name au)"
  unfolding Cluster_CreateContainer_def by (intro keeps_rules)

subsection \<open>Engines joining and leaving\<close>

definition known :: "Cluster \<Rightarrow> string set" where
  "known c = fst ` set (pendingEngines c) \<union> set (engine_addrs c)"

lemma getEngineByAddr_known: "getEngineByAddr c a = None \<longleftrightarrow> a \<notin> known c"
proof (cases "map_of (pendingEngines c) a")
  case None
  then have "a \<notin> fst ` set (pendingEngines c)" by (simp add: map_of_eq_None_iff)
  with None show ?thesis
    by (auto simp: getEngineByAddr_def known_def engine_addrs_def first_such_None image_iff)
next
  case (Some e)
  with map_of_key [OF Some] show ?thesis by (simp add: getEngineByAddr_def known_def)
qed

lemma addEngine_ok: "cluster_ok c \<Longrightarrow> cluster_ok (snd (addEngine now a c))"
  using getEngineByAddr_known [of c a]
  by (auto simp: addEngine_def cluster_ok_def engine_addrs_def known_def Let_def
      intro!: pending_ok_update engine_ok_RegisterEventHandler)
    (auto simp: RegisterEventHandler_def NewEngine_def)

lemma addEngine_known: "known (snd (addEngine now a c)) = insert a (known c)"
  using getEngineByAddr_known [of c a]
  by (auto simp: addEngine_def known_def engine_addrs_def Let_def)

lemma engine_by_addr:
  assumes "map_of (pendingEngines c) a = None" "getEngineByAddr c a = Some e"
  shows "\<exists>k. (k, e) \<in> set (engines c) \<and> e_Addr e = a"
  using assms by (auto simp: getEngineByAddr_def dest!: first_such_Some)

lemma delete_addrs:
  assumes "engines_ok es" "distinct (map (\<lambda>(_, e). e_Addr e) es)" "(k, e) \<in> set es"
  shows "set (map (\<lambda>(_, e). e_Addr e) (AList.delete k es)) = set (map (\<lambda>(_, e). e_Addr e) es) - {e_Addr e}"
proof -
  let ?f = "\<lambda>(_ :: string, e). e_Addr e"
  have inj: "inj_on ?f (set es)" using assms(2) by (simp add: distinct_map)
  have "inj_on fst (set es)" using assms(1) by (simp add: engines_ok_def distinct_map)
  then have "x = (k, e)" if "x \<in> set es" "fst x = k" for x
    using assms(3) that by (auto simp: inj_on_def)
  then have "set (AList.delete k es) = set es - {(k, e)}" by (auto simp: AList.delete_eq)
  then have "set (map ?f (AList.delete k es)) = ?f ` (set es - {(k, e)})" by simp
  also have "\<dots> = ?f ` set es - ?f ` {(k, e)}" using assms(3) by (intro inj_on_image_set_diff [OF inj]) auto
  finally show ?thesis by simp
qed

lemma distinct_addrs_delete: "distinct (map (\<lambda>(_, e). e_Addr e) es) \<Longrightarrow> distinct (map (\<lambda>(_, e). e_Addr e) (AList.delete k es))"
  by (simp add: AList.delete_eq distinct_map_filter)

lemma removeEngine_ok:
  assumes "cluster_ok c" "removeEngine a c = Some (b, c')"
  shows "cluster_ok c' \<and> known c' = known c - {a}"
proof (cases "getEngineByAddr c a")
  case None
  with assms getEngineByAddr_known [of c a] show ?thesis by (auto simp: removeEngine_def)
next
  case (Some e)
  show ?thesis
  proof (cases "map_of (pendingEngines c) a")
    case (Some e')
    have "a \<notin> set (engine_addrs c)"
      using assms(1) map_of_key [OF Some] by (auto simp: cluster_ok_def)
    moreover have c': "c' = c\<lparr>pendingEngines := AList.delete a (pendingEngines c)\<rparr>"
      using assms(2) Some \<open>getEngineByAddr c a = Some e\<close> by (auto simp: removeEngine_def split: option.splits)
    moreover have "fst ` set (AList.delete a (pendingEngines c)) = fst ` set (pendingEngines c) - {a}"
      by (auto simp: AList.delete_eq)
    ultimately show ?thesis
      using assms(1) by (auto simp: known_def cluster_ok_def engine_addrs_def pending_ok_delete)
  next
    case None
    then obtain k where k: "(k, e) \<in> set (engines c)" "e_Addr e = a"
      using engine_by_addr \<open>getEngineByAddr c a = Some e\<close> by blast
    then have "e_ID e = k" using assms(1) by (auto simp: cluster_ok_def engines_ok_def)
    then have c': "c' = c\<lparr>engines := AList.delete k (engines c)\<rparr>"
      using assms(2) None \<open>getEngineByAddr c a = Some e\<close> by (auto simp: removeEngine_def split: option.splits)
    have es: "engines_ok (engines c)" "distinct (engine_addrs c)" using assms(1) by (simp_all add: cluster_ok_def)
    have addrs: "set (engine_addrs c') = set (engine_addrs c) - {a}"
      using delete_addrs [OF es(1) es(2) [unfolded engine_addrs_def] k(1)] by (simp add: c' k(2) engine_addrs_def)
    have "a \<notin> fst ` set (pendingEngines c)" using None by (simp add: map_of_eq_None_iff)
    then have "known c' = known c - {a}" unfolding known_def addrs by (auto simp: c')
    moreover have "distinct (engine_addrs c')"
      using es(2) by (simp add: c' engine_addrs_def distinct_addrs_delete)
    ultimately show ?thesis
      using assms(1) engines_ok_delete [OF es(1)] addrs by (auto simp: cluster_ok_def c')
  qed
qed

lemma remove_engines_ok:
  "cluster_ok c \<Longrightarrow> remove_engines as c = Some c' \<Longrightarrow> cluster_ok c' \<and> known c' = known c - set as"
proof (induction as arbitrary: c)
  case (Cons a as)
  then obtain b c1 where c1: "removeEngine a c = Some (b, c1)" "remove_engines as c1 = Some c'"
    by (auto split: option.splits)
  with removeEngine_ok [OF Cons.prems(1) c1(1)] Cons.IH [of c1] show ?case by auto
qed simp

lemma add_engines_ok:
  "cluster_ok c \<Longrightarrow> cluster_ok (fold (\<lambda>a c. snd (addEngine now a c)) as c) \<and>
     known (fold (\<lambda>a c. snd (addEngine now a c)) as c) = known c \<union> set as"
  by (induction as arbitrary: c) (auto simp: addEngine_ok addEngine_known)

lemma discovery_round_ok:
  assumes "cluster_ok c" "discovery_round now old new c = Some c'"
  shows "cluster_ok c' \<and> known c' = known c - (set old - set new) \<union> (set new - set old)"
proof -
  from assms(2) obtain c1 where c1: "remove_engines (filter (\<lambda>x. x \<notin> set new) old) c = Some c1"
    "c' = fold (\<lambda>a c. snd (addEngine now a c)) (filter (\<lambda>x. x \<notin> set old) new) c1"
    by (auto simp: discovery_round_def Diff_def)
  with remove_engines_ok [OF assms(1) c1(1)] add_engines_ok [of c1 now "filter (\<lambda>x. x \<notin> set old) new"]
  show ?thesis by auto
qed

subsection \<open>Validation\<close>

lemma or_return_success:
  "or_return m f s = Some (Inr y, s2) \<longleftrightarrow> (\<exists>x s1. m s = Some (Inr x, s1) \<and> f x s1 = Some (Inr y, s2))"
  by (auto simp: or_return_def and_then_Some ret_def split: sum.split_asm)

lemma apply_specs_ID: "apply_specs now info e = (Inr u, e') \<Longrightarrow> e_ID e' = info_ID info"
proof -
  assume run: "apply_specs now info e = (Inr u, e')"
  then have same: "\<not> (e_ID e \<noteq> [] \<and> e_ID e \<noteq> info_ID info)" by (auto simp: apply_specs_def Let_def split: if_split_asm)
  let ?e = "e\<lparr>e_ID := info_ID info, DeltaDuration := delta_duration now (SystemTime info), e_Name := info_Name info,
             Cpus := NCPU info, e_Memory := MemTotal info, e_Labels := own_labels info\<rparr>"
  have "add_labels ?e (info_Labels info) = (Inr u, e')"
    using run same by (simp only: apply_specs_def if_False)
  then have "e' = snd (add_labels ?e (info_Labels info))" by simp
  then show ?thesis by (simp only: add_labels_fields) simp
qed

lemma call_api_answer:
  "call_api api f (e, d) = Some (Inr x, s') \<Longrightarrow> \<exists>d'. f d = (Inr x, d')"
  by (auto simp: call_api_def nop_call_def Let_def split: prod.splits if_splits)

lemma updateSpecs_ID:
  assumes "updateSpecs api s = Some (Inr u, s')" "\<And>d info d'. api_Info api d = (Inr info, d') \<Longrightarrow> info_ID info \<noteq> []"
  shows "e_ID (fst s') \<noteq> []"
proof -
  from assms(1) obtain info s1 where info: "call_api api (api_Info api) s = Some (Inr info, s1)"
    and rest: "(and_then the_engine (\<lambda>e.
     if NCPU info = 0 \<or> MemTotal info = 0
     then ret (Inl (errorf (''cannot get resources for this engine, make sure '' @ e_Addr e @
            '' is a Docker Engine, not a Swarm manager'')))
     else or_return (call_api api (api_ServerVersion api)) (\<lambda>v.
     if LessThan v minSupportedVersion
     then ret (Inl (errorf (''engine '' @ e_Addr e @
            '' is running an unsupported version of Docker Engine. Please upgrade to at least '' @ minSupportedVersion)))
     else and_then (on_engine (\<lambda>e. e\<lparr>Version := v\<rparr>)) (\<lambda>_.
     and_then (modify (\<lambda>(e, d). (e, api_UpdateClientVersion api (updateClientVersionFromServer v) d))) (\<lambda>_.
     and_then (read (\<lambda>(e, d). apply_specs (clock api d) info e)) (\<lambda>(r, e').
     and_then (on_engine (\<lambda>_. e')) (\<lambda>_. ret r))))))) s1 = Some (Inr u, s')"
    unfolding updateSpecs_def or_return_success by blast
  from rest obtain now e0 where "apply_specs now info e0 = (Inr u, fst s')"
    by (auto simp: the_engine_step ret_def or_return_success and_then_Some on_engine_def modify_def read_def
        split_beta prod_eq_iff split: if_split_asm)
  then have "e_ID (fst s') = info_ID info" by (rule apply_specs_ID)
  moreover have "info_ID info \<noteq> []"
  proof -
    obtain e d where "s = (e, d)" by force
    with info call_api_answer [of api "api_Info api" e d info s1] obtain d' where "api_Info api d = (Inr info, d')" by blast
    then show ?thesis by (rule assms(2))
  qed
  ultimately show ?thesis by simp
qed

text \<open>A successful connection keeps the identifier that the daemon reported.\<close>

lemma ConnectWithClient_ID:
  assumes "ConnectWithClient api s = Some (Inr u, s')" "engine_inv a [] s"
    "\<And>d info d'. api_Info api d = (Inr info, d') \<Longrightarrow> info_ID info \<noteq> []"
  shows "e_ID (fst s') \<noteq> []"
proof -
  let ?rest = "or_return (RefreshContainers api True) (\<lambda>_. or_return (RefreshImages api) (\<lambda>_.
     and_then (RefreshVolumes api) (\<lambda>_. and_then (RefreshNetworks api) (\<lambda>_.
     and_then (on_engine (emitEvent ''engine_connect'')) (\<lambda>_. ret (Inr ()))))))"
  obtain e d where s: "s = (e, d)" by force
  from assms(1) obtain s1 where s1: "updateSpecs api (e\<lparr>connected := True, monitored := True\<rparr>, d) = Some (Inr (), s1)"
    and rest: "?rest s1 = Some (Inr u, s')"
    unfolding ConnectWithClient_def s on_engine_step or_return_success by auto
  have "engine_inv a [] (e\<lparr>connected := True, monitored := True\<rparr>, d)" using assms(2) by (simp add: s inv_defs)
  from keepsD [OF keeps_updateSpecs this s1] updateSpecs_ID [OF s1 assms(3)]
  have inv: "engine_inv a (e_ID (fst s1)) s1" "e_ID (fst s1) \<noteq> []" by (simp_all add: engine_inv_def)
  have "keeps (engine_inv a (e_ID (fst s1))) ?rest"
    by (intro keeps_rules) (auto simp: inv_defs)
  from keepsD [OF this inv(1) rest] inv(2) show ?thesis by (simp add: engine_inv_def)
qed

lemma Connect_ID:
  assumes "Connect api resolve new_client (e, d) = Some (Inr u, s')" "engine_inv a [] (e, d)"
    "\<And>d info d'. api_Info api d = (Inr info, d') \<Longrightarrow> info_ID info \<noteq> []"
  shows "e_ID (fst s') \<noteq> []"
proof -
  from assms(1) obtain ip d1 d2 where "ConnectWithClient api (e\<lparr>e_IP := ip\<rparr>, d2) = Some (Inr u, s')"
    by (auto simp: Connect_def or_return_success on_engine_step Let_def split_beta)
  moreover have "engine_inv a [] (e\<lparr>e_IP := ip\<rparr>, d2)" using assms(2) by (simp add: inv_defs)
  ultimately show ?thesis using assms(3) by (rule ConnectWithClient_ID)
qed

lemma validate_connected:
  assumes "map_of (pendingEngines c) addr = Some e0" "Connect (apis (e_Addr e0)) resolve new_client (e0, d) = Some (r, e, d1)"
  shows "validatePendingEngine apis resolve new_client addr (c, d) =
    (case r of
       Inl _ \<Rightarrow> Some (False, c\<lparr>pendingEngines := AList.update addr e (pendingEngines c)\<rparr>, d1)
     | Inr _ \<Rightarrow>
         (case map_of (engines c) (e_ID e) of
            Some old \<Rightarrow>
              if e_Addr old \<noteq> e_Addr e
              then Some (False, c\<lparr>pendingEngines :=
                     AList.update addr (HandleIDConflict (clock (apis (e_Addr e)) d1) (e_Addr old) e) (pendingEngines c)\<rparr>, d1)
              else (case Disconnect e of
                      None \<Rightarrow> None
                    | Some _ \<Rightarrow> Some (False, c\<lparr>pendingEngines := AList.delete (e_Addr e) (pendingEngines c)\<rparr>, d1))
          | None \<Rightarrow>
              Some (True, c\<lparr>pendingEngines := AList.delete (e_Addr e) (pendingEngines c),
                            engines := AList.update (e_ID e) (ValidationComplete e) (engines c)\<rparr>, d1)))"
  using assms by (cases r) (simp_all add: validatePendingEngine_def)

lemma validatePendingEngine_ok:
  assumes "cluster_ok c" "ids_reported apis" "validatePendingEngine apis resolve new_client addr (c, d) = Some (b, c', d')"
  shows "cluster_ok c' \<and> known c' = known c"
proof (cases "map_of (pendingEngines c) addr")
  case None
  with assms show ?thesis by (simp add: validatePendingEngine_def)
next
  case (Some e0)
  have e0: "e_Addr e0 = addr" "engine_inv addr [] (e0, d)"
    using pending_ok_lookup [OF _ Some] assms(1) by (auto simp: cluster_ok_def engine_inv_def)
  obtain r e d1 where run: "Connect (apis (e_Addr e0)) resolve new_client (e0, d) = Some (r, e, d1)"
    using assms(3) Some
    by (cases "Connect (apis (e_Addr e0)) resolve new_client (e0, d)") (auto simp: validatePendingEngine_def)
  note eval = assms(3) [unfolded validate_connected [where apis = apis, OF Some run]]
  have inv: "engine_inv addr [] (e, d1)" using keepsD [OF keeps_Connect e0(2) run] .
  then have e: "e_Addr e = addr" "engine_ok e" by (simp_all add: engine_inv_def)
  have key: "addr \<in> fst ` set (pendingEngines c)" using map_of_key [OF Some] .
  have replaced: "cluster_ok (c\<lparr>pendingEngines := AList.update addr x (pendingEngines c)\<rparr>) \<and>
      known (c\<lparr>pendingEngines := AList.update addr x (pendingEngines c)\<rparr>) = known c" if "engine_inv addr [] (x, d1)" for x
    using cluster_ok_replace_pending [OF assms(1) Some that] key by (auto simp: known_def engine_addrs_def)
  show ?thesis
  proof (cases r)
    case (Inl err)
    with eval replaced [OF inv] show ?thesis by simp
  next
    case (Inr u)
    have eid: "e_ID e \<noteq> []"
      using Connect_ID [OF run [unfolded Inr] e0(2)] assms(2) by (auto simp: ids_reported_def)
    show ?thesis
    proof (cases "map_of (engines c) (e_ID e)")
      case (Some old)
      have "e_Addr old \<in> set (engine_addrs c)"
        using map_of_SomeD [OF Some] by (force simp: engine_addrs_def)
      moreover have "set (engine_addrs c) \<inter> fst ` set (pendingEngines c) = {}" using assms(1) by (simp add: cluster_ok_def)
      ultimately have "e_Addr old \<noteq> e_Addr e" using key e(1) by (metis disjoint_iff)
      with eval Inr Some replaced [OF direct_changes_inv(2) [OF inv]] show ?thesis by auto
    next
      case None
      let ?v = "ValidationComplete e"
      have v: "e_ID ?v = e_ID e" "e_Addr ?v = addr" "engine_ok ?v"
        using e by (simp_all add: ValidationComplete_def engine_ok_ValidationComplete [unfolded ValidationComplete_def])
      have c': "c' = c\<lparr>pendingEngines := AList.delete addr (pendingEngines c), engines := AList.update (e_ID e) ?v (engines c)\<rparr>"
        using eval Inr None e by simp
      have "e_ID e \<notin> fst ` set (engines c)" using None by (simp add: map_of_eq_None_iff)
      then have addrs: "engine_addrs c' = engine_addrs c @ [addr]"
        by (simp add: c' engine_addrs_def update_new_key v)
      have pend: "fst ` set (pendingEngines c') = fst ` set (pendingEngines c) - {addr}"
        by (auto simp: c' AList.delete_eq)
      have "known c' = known c" unfolding known_def addrs pend using insert_Diff [OF key]
        by (simp del: Un_insert_left add: Un_insert_left [symmetric])
      moreover have "engines_ok (engines c')" "pending_ok (pendingEngines c')"
        using assms(1) eid v by (simp_all add: c' cluster_ok_def engines_ok_update pending_ok_delete)
      moreover have disj: "set (engine_addrs c) \<inter> fst ` set (pendingEngines c) = {}" "distinct (engine_addrs c)"
        using assms(1) by (simp_all add: cluster_ok_def)
      then have "addr \<notin> set (engine_addrs c)" using key by blast
      then have "distinct (engine_addrs c')" using disj(2) by (simp add: addrs)
      moreover have "set (engine_addrs c') \<inter> fst ` set (pendingEngines c') = {}"
        using disj(1) unfolding addrs pend set_append by (simp add: Int_Un_distrib2 Diff_Int_distrib2) blast
      moreover have "names_ok (pendingContainers c') \<and> 0 < cl_FailureRetry c' \<and> cl_FailureRetry c' < 2 ^ 63"
        using assms(1) by (simp add: c' cluster_ok_def)
      ultimately show ?thesis unfolding cluster_ok_def by blast
    qed
  qed
qed

subsection \<open>The cluster as a transition system\<close>

text \<open>
  A step is an operation of the manager, a step of one of its engines or of an engine waiting for validation, or a change of
  the daemons. A creation is two steps, so that between the reservation and the creation on
  the engine everything else can happen, other creations included.
\<close>

inductive cluster_step :: "(string \<Rightarrow> 'd Api) \<Rightarrow> 'd cstate \<Rightarrow> 'd cstate \<Rightarrow> bool" for apis where
  step_world: "cluster_step apis (c, d) (c, d')"
| step_engine: "map_of (engines c) k = Some e \<Longrightarrow> engine_step (apis (e_Addr e)) (e, d) (e', d') \<Longrightarrow>
    cluster_step apis (c, d) (c\<lparr>engines := AList.update k e' (engines c)\<rparr>, d')"
| step_pending: "map_of (pendingEngines c) a = Some e \<Longrightarrow> engine_step (apis a) (e, d) (e', d') \<Longrightarrow>
    cluster_step apis (c, d) (c\<lparr>pendingEngines := AList.update a e' (pendingEngines c)\<rparr>, d')"
| step_discovery: "discovery_round now old new c = Some c' \<Longrightarrow> cluster_step apis (c, d) (c', d)"
| step_validate: "validatePendingEngine apis resolve new_client addr s = Some (b, s') \<Longrightarrow> cluster_step apis s s'"
| step_reserve: "reserve config name aff c = Some (r, c') \<Longrightarrow> cluster_step apis (c, d) (c', d)"
| step_commit: "map_of (pendingContainers c) i = Some p \<Longrightarrow>
    at_engine apis (e_ID (pc_Engine p)) (\<lambda>api. CreateContainer api (pc_Config p) (pc_Name p) True au) (c, d) = Some (k, c', d') \<Longrightarrow>
    cluster_step apis (c, d) (forget_pending i c', d')"
| step_create: "Cluster_CreateContainer re apis config name au s = Some (k, s') \<Longrightarrow> cluster_step apis s s'"
| step_start: "Cluster_StartContainer apis k h s = Some (r, s') \<Longrightarrow> cluster_step apis s s'"
| step_remove: "Cluster_RemoveContainer apis k force vols s = Some (r, s') \<Longrightarrow> cluster_step apis s s'"
| step_rename: "Cluster_RenameContainer apis k name s = Some (r, s') \<Longrightarrow> cluster_step apis s s'"
| step_remove_network: "Cluster_RemoveNetwork apis n s = Some (r, s') \<Longrightarrow> cluster_step apis s s'"
| step_create_network: "Cluster_CreateNetwork apis name request s = Some (i, s') \<Longrightarrow> cluster_step apis s s'"
| step_create_volume: "Cluster_CreateVolume apis name driver s = Some (v, s') \<Longrightarrow> cluster_step apis s s'"
| step_remove_volumes: "Cluster_RemoveVolumes apis name s = Some (r, s') \<Longrightarrow> cluster_step apis s s'"
| step_remove_images: "Cluster_RemoveImages apis name force s = Some (l, s') \<Longrightarrow> cluster_step apis s s'"
| step_tag: "Cluster_TagImage apis q ref s = Some (r, s') \<Longrightarrow> cluster_step apis s s'"
| step_pull: "Cluster_Pull apis name au s = Some (cb, s') \<Longrightarrow> cluster_step apis s s'"
| step_load: "Cluster_Load apis reader s = Some (cb, s') \<Longrightarrow> cluster_step apis s s'"
| step_import: "Cluster_Import apis src ref tag reader s = Some (cb, s') \<Longrightarrow> cluster_step apis s s'"
| step_build: "Cluster_BuildImage apis ctx opts s = Some (r, s') \<Longrightarrow> cluster_step apis s s'"
| step_refresh_all: "RefreshEngines apis s = Some (r, s') \<Longrightarrow> cluster_step apis s s'"
| step_refresh_one: "Cluster_RefreshEngine apis host s = Some (r, s') \<Longrightarrow> cluster_step apis s s'"

lemmas cluster_op_inv =
  keeps_Cluster_CreateContainer [THEN keepsD] keeps_create_ops [THEN keepsD] keeps_Cluster_RemoveNetwork [THEN keepsD]
  keeps_Cluster_CreateNetwork [THEN keepsD] keeps_volume_ops [THEN keepsD] keeps_cluster_image_ops [THEN keepsD]
  keeps_fan_outs [THEN keepsD] keeps_Cluster_BuildImage [THEN keepsD] keeps_refreshes [THEN keepsD]

lemma engine_step_in_cluster:
  assumes "cluster_ok c" "map_of (engines c) k = Some e" "engine_step (apis (e_Addr e)) (e, d) (e', d')"
  shows "cluster_ok (c\<lparr>engines := AList.update k e' (engines c)\<rparr>)"
proof -
  have "engine_inv (e_Addr e) k (e, d)"
    using assms(1) engines_ok_lookup [OF _ assms(2)] by (auto simp: cluster_ok_def engine_inv_def)
  from engine_step_inv [OF assms(3) this] show ?thesis by (rule cluster_ok_replace [OF assms(1,2)])
qed

lemma engine_step_pending:
  assumes "cluster_ok c" "map_of (pendingEngines c) a = Some e" "engine_step api (e, d) (e', d')"
  shows "cluster_ok (c\<lparr>pendingEngines := AList.update a e' (pendingEngines c)\<rparr>)"
proof -
  have "engine_inv a [] (e, d)"
    using assms(1) pending_ok_lookup [OF _ assms(2)] by (auto simp: cluster_ok_def engine_inv_def)
  from engine_step_inv [OF assms(3) this] show ?thesis by (rule cluster_ok_replace_pending [OF assms(1,2)])
qed

lemma commit_ok:
  assumes "cluster_ok c" "at_engine apis eid (\<lambda>api. CreateContainer api config name True au) (c, d) = Some (k, c', d')"
  shows "cluster_ok (forget_pending i c')"
proof -
  have "keeps cluster_inv (at_engine apis eid (\<lambda>api. CreateContainer api config name True au))" by (intro keeps_rules)
  from keepsD [OF this _ assms(2)] assms(1) show ?thesis by (simp add: cluster_inv_def forget_pending_ok)
qed

lemma cluster_step_inv:
  assumes "cluster_step apis s s'" "ids_reported apis"
  shows "cluster_inv s \<Longrightarrow> cluster_inv s'"
  using assms(1)
proof (induction rule: cluster_step.induct)
  case (step_validate resolve new_client addr s b s')
  then show ?case
    using validatePendingEngine_ok [OF _ assms(2), of "fst s" resolve new_client addr "snd s" b "fst s'" "snd s'"]
    by (simp add: cluster_inv_def)
next
  case (step_engine c k e d e' d')
  then show ?case by (simp add: cluster_inv_def engine_step_in_cluster)
next
  case (step_pending c a e d e' d')
  then show ?case by (simp add: cluster_inv_def engine_step_pending)
next
  case (step_discovery now old new c c' d)
  then show ?case by (simp add: cluster_inv_def discovery_round_ok)
next
  case (step_reserve config name aff c r c' d)
  then show ?case by (auto simp: cluster_inv_def dest: reserve_ok)
next
  case (step_commit c i p au d k c' d')
  then show ?case by (auto simp: cluster_inv_def dest: commit_ok)
next
  case (step_world c d d')
  then show ?case by (simp add: cluster_inv_def)
qed (rule cluster_op_inv, assumption, assumption)+

lemma cluster_steps_inv: "(cluster_step apis)\<^sup>*\<^sup>* s s' \<Longrightarrow> ids_reported apis \<Longrightarrow> cluster_inv s \<Longrightarrow> cluster_inv s'"
  by (induction rule: rtranclp_induct) (auto dest: cluster_step_inv)

lemma NewCluster_ok: "NewCluster sch oc cr retry rs = Some c \<Longrightarrow> 0 < retry \<Longrightarrow> retry < 2 ^ 63 \<Longrightarrow> cluster_ok c"
  by (auto simp: NewCluster_def cluster_ok_def engines_ok_def pending_ok_def names_ok_def engine_addrs_def split: if_splits)

text \<open>
  C2. In every state that a new cluster can reach, through any interleaving of requests, creations in progress,
  discovery, validation, engine events and daemon failures, every engine is registered under its own non-empty
  identifier and every waiting engine under its own address, no address is registered twice, in either table or across both,
  every engine satisfies its invariant, and two containers in creation never have the same name.
\<close>

theorem cluster_reachable_ok:
  assumes "NewCluster sch oc cr retry rs = Some c0" "0 < retry" "retry < 2 ^ 63" "ids_reported apis"
    and "(cluster_step apis)\<^sup>*\<^sup>* (c0, d0) (c, d)"
  shows "cluster_ok c"
  using cluster_steps_inv [OF assms(5,4)] NewCluster_ok [OF assms(1-3)] by (simp add: cluster_inv_def)

text \<open>
  C21. The engines a manager knows are those that discovery lists: when the known addresses are the previous
  entries, a round of discovery that completes makes them the new entries, and validation changes
  neither, whether the engine is accepted, refused or a duplicate.
\<close>

theorem discovery_tracks_entries:
  assumes "cluster_ok c" "ids_reported apis" "known c = set old"
  shows "(discovery_round now old new c = Some c1 \<longrightarrow>
            known c1 = set new \<and> (\<forall>a. getEngineByAddr c1 a \<noteq> None \<longleftrightarrow> a \<in> set new)) \<and>
         (validatePendingEngine apis resolve new_client addr (c, d) = Some (b, c2, d2) \<longrightarrow> known c2 = set old)"
  using discovery_round_ok [OF assms(1), of now old new c1] assms(3) getEngineByAddr_known [of c1]
    validatePendingEngine_ok [OF assms(1,2), of resolve new_client addr d b c2 d2]
  by auto

text \<open>
  An engine that was never dialled has no events monitor: when discovery drops an address before the
  first connection to it got as far as building the clients, for instance because its name does not resolve, the
  manager panics.
\<close>

lemma dropped_before_dialled_panics:
  assumes "a \<notin> set old" "known c = set old" "discovery_round now old (old @ [a]) c = Some c1"
  shows "discovery_round now' (old @ [a]) old c1 = None"
proof -
  have "c1 = snd (addEngine now a c)"
    using assms(1,3) by (simp add: discovery_round_def Diff_def filter_empty_conv)
  moreover have "getEngineByAddr c a = None" using assms(1,2) by (simp add: getEngineByAddr_known)
  ultimately have "map_of (pendingEngines c1) a =
      Some (snd (RegisterEventHandler (NewEngine now a (cl_overcommit c) (cl_FailureRetry c))))"
    by (simp add: addEngine_def Let_def)
  then have "removeEngine a c1 = None"
    by (simp add: removeEngine_def getEngineByAddr_def RegisterEventHandler_def NewEngine_def Disconnect_def)
  then show ?thesis using assms(1) by (simp add: discovery_round_def Diff_def filter_empty_conv)
qed

text \<open>
  A name in use, by a container of any engine or by one in creation, is refused: the creation fails with the
  conflict error and nothing changes.
\<close>

lemma create_refuses_taken_name:
  assumes "name \<noteq> []"
    and "(\<exists>k \<in> set (Cluster_Containers c). name \<in> set (Names k) \<or> CHR ''/'' # name \<in> set (Names k)) \<or>
      (\<exists>(i, p) \<in> set (pendingContainers c). pc_Name p = name)"
  shows "Cluster_createContainer apis config name aff au (c, d) = Some ((config, Inl (conflict_error name)), c, d)"
proof -
  have "\<not> checkNameUniqueness c name"
    using assms by (fastforce simp: checkNameUniqueness_def Cluster_Containers_def list_ex_iff)
  then have "reserve config name aff c = Some ((config, Inl (conflict_error name)), c)" by (simp add: reserve_def)
  then show ?thesis by (simp add: Cluster_createContainer_def and_then_def ret_def)
qed

text \<open>
  Creating a volume on a named node loses the engine's error: when the scheduler finds the node and the
  engine fails, the caller gets neither a volume nor an error.
\<close>

lemma create_volume_error_lost:
  assumes "CHR ''/'' \<notin> set node" "node \<noteq> []"
    and "SelectNodesForContainer (cl_scheduler c) (listNodes c) (node_config node) = Some (Inr nodes)" "index nodes 0 = Some n"
    and "at_engine apis (nd_ID n) (\<lambda>api. CreateVolume api name driver) (c, d) = Some (Inl err, s')"
  shows "Cluster_CreateVolume apis (node @ CHR ''/'' # name) driver (c, d) = Some ((None, None), s')"
  using assms
  by (simp add: Cluster_CreateVolume_def Let_def the_cluster_def op_simps)

subsection \<open>A small cluster\<close>

definition demo_addr :: string where
  "demo_addr = ''10.0.0.1:2375''"

definition demo_apis :: "string \<Rightarrow> demo_daemon Api" where
  "demo_apis a = demo_api ''E1''"

definition demo_world :: demo_daemon where
  "demo_world = (5, [(demo_entry ''c1'' ''web'', demo_info)])"

definition demo_scheduler :: Scheduler where
  "demo_scheduler = scheduler_New \<lparr>st_Name = ''spread'', RankAndSort = Spread_RankAndSort insertionSort\<rparr> [HealthFilter]"

definition demo_empty :: Cluster where
  "demo_empty = \<lparr>engines = [], pendingEngines = [], pendingContainers = [], cl_scheduler = demo_scheduler,
     cl_overcommit = 5, cl_FailureRetry = 3, createRetry = 0, ids = (\<lambda>n. ''swarm-'' @ replicate n (CHR ''x'')), drawn = 0,
     background = []\<rparr>"

lemma demo_empty_new: "NewCluster demo_scheduler None None 3 (\<lambda>n. ''swarm-'' @ replicate n (CHR ''x'')) = Some demo_empty"
  by (simp add: NewCluster_def demo_empty_def)

lemma demo_apis_ids: "ids_reported demo_apis"
  by (auto simp: ids_reported_def demo_apis_def demo_api_def)

definition demo_joined :: Cluster where
  "demo_joined = the (discovery_round 0 [] [demo_addr] demo_empty)"

lemma demo_joined_round: "discovery_round 0 [] [demo_addr] demo_empty = Some demo_joined"
  by (simp add: demo_joined_def discovery_round_def Diff_def)

definition demo_validated :: "demo_daemon cstate" where
  "demo_validated = snd (the (validatePendingEngine demo_apis (\<lambda>_ d. (Inr ''10.0.0.1'', d)) (\<lambda>_ d. (Inr (), d)) demo_addr
     (demo_joined, demo_world)))"

lemma demo_validation:
  "(case validatePendingEngine demo_apis (\<lambda>_ d. (Inr ''10.0.0.1'', d)) (\<lambda>_ d. (Inr (), d)) demo_addr (demo_joined, demo_world) of
      None \<Rightarrow> False
    | Some (b, c, d) \<Rightarrow> b \<and> map fst (engines c) = [''E1''] \<and> concat (map Names (Cluster_Containers c)) = [''/web''])"
  by code_simp

lemma case_Some_pair: "(case x of None \<Rightarrow> False | Some (b, s) \<Rightarrow> P b s) \<Longrightarrow> \<exists>b. x = Some (b, snd (the x)) \<and> P b (snd (the x))"
  by (cases x) auto

lemma demo_validated_run:
  "\<exists>b. validatePendingEngine demo_apis (\<lambda>_ d. (Inr ''10.0.0.1'', d)) (\<lambda>_ d. (Inr (), d)) demo_addr (demo_joined, demo_world) =
     Some (b, demo_validated)"
  and demo_validated_names: "concat (map Names (Cluster_Containers (fst demo_validated))) = [''/web'']"
  and demo_validated_keys: "map fst (engines (fst demo_validated)) = [''E1'']"
proof -
  have "\<exists>b. validatePendingEngine demo_apis (\<lambda>_ d. (Inr ''10.0.0.1'', d)) (\<lambda>_ d. (Inr (), d)) demo_addr (demo_joined, demo_world) =
     Some (b, demo_validated) \<and> b \<and> map fst (engines (fst demo_validated)) = [''E1''] \<and>
     concat (map Names (Cluster_Containers (fst demo_validated))) = [''/web'']"
    unfolding demo_validated_def using demo_validation by (intro case_Some_pair) (simp only: case_prod_beta)
  then show "\<exists>b. validatePendingEngine demo_apis (\<lambda>_ d. (Inr ''10.0.0.1'', d)) (\<lambda>_ d. (Inr (), d)) demo_addr (demo_joined, demo_world) =
     Some (b, demo_validated)"
    and "concat (map Names (Cluster_Containers (fst demo_validated))) = [''/web'']"
    and "map fst (engines (fst demo_validated)) = [''E1'']" by blast+
qed

lemma demo_reached: "(cluster_step demo_apis)\<^sup>*\<^sup>* (demo_empty, demo_world) demo_validated"
proof -
  have "cluster_step demo_apis (demo_empty, demo_world) (demo_joined, demo_world)"
    using demo_joined_round by (rule step_discovery)
  moreover have "cluster_step demo_apis (demo_joined, demo_world) demo_validated"
    using demo_validated_run step_validate by blast
  ultimately show ?thesis by (meson converse_rtranclp_into_rtranclp r_into_rtranclp)
qed

theorem cluster_reachable_ok_witness: "cluster_ok (fst demo_validated) \<and> map fst (engines (fst demo_validated)) = [''E1'']"
  using cluster_reachable_ok [OF demo_empty_new _ _ demo_apis_ids, of demo_world "fst demo_validated" "snd demo_validated"]
    demo_reached demo_validated_keys by simp

lemma demo_empty_ok: "cluster_ok demo_empty" "known demo_empty = set []"
  using NewCluster_ok [OF demo_empty_new] by (simp_all add: demo_empty_def known_def engine_addrs_def)

theorem discovery_tracks_entries_witness: "known demo_joined = {demo_addr} \<and> getEngineByAddr demo_joined demo_addr \<noteq> None"
  using discovery_tracks_entries [OF demo_empty_ok(1) demo_apis_ids demo_empty_ok(2), of 0 "[demo_addr]" demo_joined
      undefined undefined undefined undefined undefined undefined undefined] demo_joined_round
  by simp

lemma dropped_before_dialled_panics_witness: "discovery_round 9 [demo_addr] [] demo_joined = None"
  using dropped_before_dialled_panics [of demo_addr "[]" demo_empty 0 demo_joined 9] demo_joined_round demo_empty_ok by simp

lemma create_refuses_taken_name_witness:
  "Cluster_createContainer demo_apis zero_config ''web'' False None demo_validated =
     Some ((zero_config, Inl (conflict_error ''web'')), demo_validated)"
proof -
  have "''/web'' \<in> set (concat (map Names (Cluster_Containers (fst demo_validated))))"
    unfolding demo_validated_names by simp
  then obtain k where "k \<in> set (Cluster_Containers (fst demo_validated))" "''/web'' \<in> set (Names k)" by auto
  with create_refuses_taken_name [of "''web''" "fst demo_validated" demo_apis zero_config False None "snd demo_validated"]
  show ?thesis by (metis list.distinct(1) prod.collapse)
qed

lemma demo_volume:
  "(case SelectNodesForContainer (cl_scheduler (fst demo_validated)) (listNodes (fst demo_validated)) (node_config ''node-E1'') of
      Some (Inr nodes) \<Rightarrow> map nd_ID nodes = [''E1''] | _ \<Rightarrow> False) \<and>
   (case at_engine demo_apis ''E1'' (\<lambda>api. CreateVolume api ''data'' ''local'') demo_validated of
      Some (Inl _, _) \<Rightarrow> True | _ \<Rightarrow> False)"
  by code_simp

lemma demo_volume_parts:
  "\<exists>n. SelectNodesForContainer (cl_scheduler (fst demo_validated)) (listNodes (fst demo_validated)) (node_config ''node-E1'') =
     Some (Inr [n]) \<and> nd_ID n = ''E1''"
  "\<exists>err s'. at_engine demo_apis ''E1'' (\<lambda>api. CreateVolume api ''data'' ''local'') demo_validated = Some (Inl err, s')"
proof -
  have one: "(case x of Some (Inr nodes) \<Rightarrow> map nd_ID nodes = [''E1''] | _ \<Rightarrow> False) \<Longrightarrow> \<exists>n. x = Some (Inr [n]) \<and> nd_ID n = ''E1''"
    for x :: "Node list result option" by (auto split: option.splits sum.splits)
  have two: "(case y of Some (Inl _, _) \<Rightarrow> True | _ \<Rightarrow> False) \<Longrightarrow> \<exists>err s'. y = Some (Inl err, s')"
    for y :: "(Volume result \<times> demo_daemon cstate) option" by (auto split: option.splits sum.splits)
  show "\<exists>n. SelectNodesForContainer (cl_scheduler (fst demo_validated)) (listNodes (fst demo_validated)) (node_config ''node-E1'') =
     Some (Inr [n]) \<and> nd_ID n = ''E1''" by (rule one [OF conjunct1 [OF demo_volume]])
  show "\<exists>err s'. at_engine demo_apis ''E1'' (\<lambda>api. CreateVolume api ''data'' ''local'') demo_validated = Some (Inl err, s')"
    by (rule two [OF conjunct2 [OF demo_volume]])
qed

lemma create_volume_error_lost_witness:
  "\<exists>s'. Cluster_CreateVolume demo_apis ''node-E1/data'' ''local'' demo_validated = Some ((None, None), s')"
proof -
  obtain n where n: "SelectNodesForContainer (cl_scheduler (fst demo_validated)) (listNodes (fst demo_validated))
      (node_config ''node-E1'') = Some (Inr [n])" "nd_ID n = ''E1''" using demo_volume_parts(1) by blast
  obtain err s' where e: "at_engine demo_apis ''E1'' (\<lambda>api. CreateVolume api ''data'' ''local'') demo_validated = Some (Inl err, s')"
    using demo_volume_parts(2) by blast
  have "Cluster_CreateVolume demo_apis (''node-E1'' @ CHR ''/'' # ''data'') ''local'' (fst demo_validated, snd demo_validated) =
      Some ((None, None), s')"
  proof (rule create_volume_error_lost [OF _ _ n(1)])
    show "index [n] 0 = Some n" by (simp add: index_def)
    show "at_engine demo_apis (nd_ID n) (\<lambda>api. CreateVolume api ''data'' ''local'') (fst demo_validated, snd demo_validated) =
        Some (Inl err, s')"
      unfolding n(2) using e by simp
  qed simp_all
  then show ?thesis by (intro exI [of _ s']) simp
qed

end
