(* ===== verification/Swarm_Scale.thy ===== *)
theory Swarm_Scale
  imports Swarm_Invariants
begin

section \<open>Scaling: \<open>Cluster.Scale\<close> and the local task processor\<close>

text \<open>
  \<open>Scale\<close> builds a filter for every item of the request, collects the tasks in the ring and runs them with the
  \<open>LocalProcessor\<close> (\<open>cluster/swarm/local_processor.go\<close>). Tasks hold pointers to containers of the engines:
  \<open>current_container\<close> follows the pointer, and a change of the configuration that a pointer shares is
  written back (\<open>write_config\<close>). Stopping and destroying run in goroutines, which are put into
  \<open>background\<close> and run by \<open>run_job\<close>. The processor is shown to satisfy the contract of \<open>Task_Ring\<close> for tasks that
  scale down.
\<close>

subsection \<open>Containers behind pointers\<close>

definition current_container :: "Cluster \<Rightarrow> Container \<Rightarrow> Container" where
  "current_container c k =
     (case map_of (engines c) (e_ID (c_Engine k)) of
        None \<Rightarrow> k
      | Some e \<Rightarrow> (case map_of (containers e) (c_ID k) of None \<Rightarrow> k | Some k' \<Rightarrow> k'\<lparr>c_Engine := engine_spec e\<rparr>))"

definition write_config :: "Container \<Rightarrow> ContainerConfig \<Rightarrow> Cluster \<Rightarrow> Cluster" where
  "write_config k config c =
     (case map_of (engines c) (e_ID (c_Engine k)) of
        None \<Rightarrow> c
      | Some e \<Rightarrow>
          (case map_of (containers e) (c_ID k) of
             None \<Rightarrow> c
           | Some k' \<Rightarrow>
               c\<lparr>engines := AList.update (e_ID (c_Engine k))
                  (e\<lparr>containers := AList.update (c_ID k) (k'\<lparr>c_Config := config\<rparr>) (containers e)\<rparr>) (engines c)\<rparr>))"

subsection \<open>The local processor\<close>

definition generateName :: "string \<Rightarrow> string \<Rightarrow> string" where
  "generateName name rid = SplitN2 name ''---'' ! 0 @ ''---'' @ take 10 rid"

text \<open>
  The copy gets a new Swarm ID, because the old one is cleared first; the configuration is the one of the container that
  is copied, so that container ends up with the new Swarm ID too.
\<close>

definition local_createContainer ::
    "(string \<Rightarrow> string \<Rightarrow> bool) \<Rightarrow> (string \<Rightarrow> 'd Api) \<Rightarrow> Container \<Rightarrow> ('d cstate, string result) op" where
  "local_createContainer re apis k0 =
     and_then the_cluster (\<lambda>c.
     let k = current_container c k0 in
     or_panic (index (Names k) 0) (\<lambda>name.
     and_then GenerateRandomID (\<lambda>rid.
     and_then (Cluster_CreateContainer re apis (SetSwarmID (c_Config k) []) (generateName name rid) None) (\<lambda>(config, r).
     and_then (on_cluster (write_config k config)) (\<lambda>_.
     or_return (ret r) (\<lambda>new.
     or_return (Cluster_StartContainer apis new None) (\<lambda>_.
     and_then the_cluster (\<lambda>c.
     or_panic (index (Names (current_container c new)) 0) (\<lambda>n. ret (Inr n))))))))))"

definition start_job :: "(Container \<Rightarrow> job) \<Rightarrow> Container \<Rightarrow> ('d cstate, string result) op" where
  "start_job mk k0 =
     and_then the_cluster (\<lambda>c.
     let k = current_container c k0 in
     or_panic (index (Names k) 0) (\<lambda>n.
     and_then (on_cluster (\<lambda>c. c\<lparr>background := background c @ [mk k]\<rparr>)) (\<lambda>_. ret (Inr n))))"

definition destroyContainer :: "Container \<Rightarrow> ('d cstate, string result) op" where
  "destroyContainer k = start_job DestroyJob k"

definition stopContainer :: "Container \<Rightarrow> ('d cstate, string result) op" where
  "stopContainer k = start_job StopJob k"

definition local_startContainer :: "(string \<Rightarrow> 'd Api) \<Rightarrow> Container \<Rightarrow> ('d cstate, string result) op" where
  "local_startContainer apis k =
     or_return (Cluster_StartContainer apis k None) (\<lambda>_.
     and_then the_cluster (\<lambda>c. or_panic (index (Names (current_container c k)) 0) (\<lambda>n. ret (Inr n))))"

definition local_Do :: "(string \<Rightarrow> string \<Rightarrow> bool) \<Rightarrow> (string \<Rightarrow> 'd Api) \<Rightarrow> 'd cstate processor" where
  "local_Do re apis s t =
     (if TaskType t = TaskTypeCreateContainer then local_createContainer re apis (t_Container t) s
      else if TaskType t = TaskTypeDestroyContainer then destroyContainer (t_Container t) s
      else if TaskType t = TaskTypeStartContainer then local_startContainer apis (t_Container t) s
      else if TaskType t = TaskTypeStopContainer then stopContainer (t_Container t) s
      else Some (Inl (errorf ''unknow task type''), s))"

text \<open>\<open>StopContainer\<close> dials the engine itself, past the engine's own client and health bookkeeping.\<close>

definition stop_timeout :: "Container \<Rightarrow> int \<Rightarrow> int" where
  "stop_timeout k timeout =
     (let (ss, ok) = getEnv ''STOP_TIMEOUT'' (Env (c_Config k));
          t = (if \<not> ok then 0 else fst (Atoi (ss ! 0)))
      in i64 ((if timeout \<noteq> 0 then timeout else t) * 1000000000))"

definition StopContainer ::
    "(string \<Rightarrow> string \<Rightarrow> int \<Rightarrow> ('d, unit) call) \<Rightarrow> Container \<Rightarrow> int \<Rightarrow> ('d cstate, unit result) op" where
  "StopContainer stop_call k timeout =
     or_panic (index (Names k) 0) (\<lambda>_ (c, d).
       let (r, d') = stop_call (e_Addr (c_Engine k)) (c_ID k) (stop_timeout k timeout) d in Some (r, c, d'))"

definition run_job ::
    "(string \<Rightarrow> 'd Api) \<Rightarrow> (string \<Rightarrow> string \<Rightarrow> int \<Rightarrow> ('d, unit) call) \<Rightarrow> job \<Rightarrow> ('d cstate, unit) op" where
  "run_job apis stop_call j =
     (case j of
        StopJob k \<Rightarrow> quiet (StopContainer stop_call k 0)
      | DestroyJob k \<Rightarrow>
          and_then (StopContainer stop_call k 0) (\<lambda>_. quiet (Cluster_RemoveContainer apis k True False)))"

subsection \<open>Filters and requests\<close>

datatype ContainerFilter =
  CreateContainerFilter ContainerFilterBase
| StartContainerFilter ContainerFilterBase
| StopContainerFilter ContainerFilterBase
| DestroyContainerFilter ContainerFilterBase
| SeizeFilter SeizeResourceFilter

definition NewFilter :: "Cluster \<Rightarrow> ScaleItem \<Rightarrow> ContainerFilter option option" where
  "NewFilter c item =
     (if IsResourceSeize item then map_option (\<lambda>f. Some (SeizeFilter f)) (NewSeizeResourceFilter item)
      else do {
        r \<leftarrow> parseFilterString (item_Filters item);
        Some (case r of
          Inl _ \<Rightarrow> None
        | Inr fs \<Rightarrow>
            let taskType = getTaskType (Number item) (ENVs item);
                base = \<lparr>fb_item = item, fb_containers = Some (Cluster_Containers c),
                   filterType = (if hasPrifix (item_Filters item) ''service'' then ''service'' else []),
                   fb_taskType = taskType, fb_filters = fs\<rparr>
            in if taskType = TaskTypeCreateContainer then Some (CreateContainerFilter base)
               else if taskType = TaskTypeStartContainer then Some (StartContainerFilter base)
               else if taskType = TaskTypeStopContainer then Some (StopContainerFilter base)
               else if taskType = TaskTypeDestroyContainer then Some (DestroyContainerFilter base)
               else None) })"

definition seize_view :: "Cluster \<Rightarrow> (EngineSpec \<times> Containers) list" where
  "seize_view c = map (\<lambda>(_, e). (engine_spec e, Engine_Containers e)) (engines c)"

fun run_filter :: "regexp \<Rightarrow> Cluster \<Rightarrow> ContainerFilter \<Rightarrow> (Containers option \<times> ContainerFilter) option" where
  "run_filter re c (CreateContainerFilter b) =
     (let (cs, b') = create_Filter re b in Some (cs, CreateContainerFilter b'))"
| "run_filter re c (StartContainerFilter b) = map_option (\<lambda>(cs, b'). (cs, StartContainerFilter b')) (start_Filter re b)"
| "run_filter re c (StopContainerFilter b) = map_option (\<lambda>(cs, b'). (cs, StopContainerFilter b')) (base_Filter re b)"
| "run_filter re c (DestroyContainerFilter b) = map_option (\<lambda>(cs, b'). (cs, DestroyContainerFilter b')) (base_Filter re b)"
| "run_filter re c (SeizeFilter f) =
     map_option (\<lambda>(cs, f'). (Some cs, SeizeFilter f')) (SeizeResourceFilter_Filter re (seize_view c) f)"

text \<open>\<open>rids\<close> are the identifiers drawn for the tasks.\<close>

fun filter_AddTasks :: "(nat \<Rightarrow> nat \<Rightarrow> int) \<Rightarrow> ContainerFilter \<Rightarrow> Tasks \<Rightarrow> Tasks option" where
  "filter_AddTasks rids (CreateContainerFilter b) t = create_AddTasks rids b t"
| "filter_AddTasks rids (StartContainerFilter b) t = Some (start_AddTasks rids b t)"
| "filter_AddTasks rids (StopContainerFilter b) t = Some (base_AddTasks (rids 0) b t)"
| "filter_AddTasks rids (DestroyContainerFilter b) t = Some (base_AddTasks (rids 0) b t)"
| "filter_AddTasks rids (SeizeFilter f) t = Seize_AddTasks (rids 0) f t"

text \<open>
  The tasks of one item. The filter for copies writes the constraints of the request into the labels of the container it
  found, which is shared with the engine.
\<close>

definition scale_item ::
    "regexp \<Rightarrow> (nat \<Rightarrow> nat \<Rightarrow> int) \<Rightarrow> ScaleItem \<Rightarrow> Cluster \<times> Tasks \<Rightarrow> (Cluster \<times> Tasks) option" where
  "scale_item re rids item = (\<lambda>(c, t). do {
     flt \<leftarrow> NewFilter c item;
     (case flt of
        None \<Rightarrow> Some (c, t)
      | Some f \<Rightarrow> do {
          (cs, f') \<leftarrow> run_filter re c f;
          t' \<leftarrow> filter_AddTasks rids f' t;
          Some (case f of
                  CreateContainerFilter _ \<Rightarrow> fold (\<lambda>k. write_config k (c_Config k)) (slice_elems cs) c
                | _ \<Rightarrow> c, t') }) })"

fun scale_items ::
    "regexp \<Rightarrow> (nat \<Rightarrow> nat \<Rightarrow> nat \<Rightarrow> int) \<Rightarrow> nat \<Rightarrow> ScaleItem list \<Rightarrow> Cluster \<times> Tasks \<Rightarrow> (Cluster \<times> Tasks) option" where
  "scale_items re rids i [] ct = Some ct"
| "scale_items re rids i (item # items) ct = do { ct' \<leftarrow> scale_item re (rids i) item ct; scale_items re rids (Suc i) items ct' }"

text \<open>
  The value is the slice that \<open>Scale\<close> returns, \<open>None\<close> for nil. The names are returned only with an error.
\<close>

definition Scale ::
    "regexp \<Rightarrow> (string \<Rightarrow> string \<Rightarrow> bool) \<Rightarrow> (nat \<Rightarrow> nat \<Rightarrow> nat \<Rightarrow> int) \<Rightarrow> (string \<Rightarrow> 'd Api) \<Rightarrow> ScaleItem list \<Rightarrow>
     ('d cstate, string list option) op" where
  "Scale re match rids apis items = (\<lambda>(c, d). do {
     (c', tasks) \<leftarrow> scale_items re rids 0 items (c, NewTasks);
     (r, _, s') \<leftarrow> DoTasks (local_Do match apis) tasks (c', d);
     Some (case r of Inl _ \<Rightarrow> Some [] | Inr _ \<Rightarrow> None, s') })"

subsection \<open>The invariant\<close>

lemma write_config_ok: "cluster_ok c \<Longrightarrow> cluster_ok (write_config k config c)"
proof -
  assume ok: "cluster_ok c"
  show ?thesis
  proof (cases "map_of (engines c) (e_ID (c_Engine k))")
    case (Some e)
    have "engine_inv (e_Addr e) (e_ID (c_Engine k)) (e, ())"
      using ok engines_ok_lookup [OF _ Some] by (auto simp: cluster_ok_def engine_inv_def)
    then have "engine_inv (e_Addr e) (e_ID (c_Engine k))
        (e\<lparr>containers := AList.update (c_ID k) (k'\<lparr>c_Config := config\<rparr>) (containers e)\<rparr>, ())"
      if "map_of (containers e) (c_ID k) = Some k'" for k'
      using keyed_lookup [OF _ that, of c_ID] by (auto simp: inv_defs)
    with ok Some show ?thesis by (auto simp: write_config_def intro: cluster_ok_replace split: option.splits)
  qed (use ok in \<open>simp add: write_config_def\<close>)
qed

lemma background_ok: "cluster_ok (c\<lparr>background := b\<rparr>) = cluster_ok c"
  by (simp add: cluster_ok_def engine_addrs_def)

lemma keeps_local_ops [keeps_rules]:
  "keeps cluster_inv (local_createContainer re apis k)" "keeps cluster_inv (start_job mk k)"
  "keeps cluster_inv (local_startContainer apis k)"
  unfolding local_createContainer_def start_job_def local_startContainer_def Let_def
  by (intro keeps_rules; simp add: write_config_ok background_ok)+

lemma local_Do_ok: "cluster_inv s \<Longrightarrow> local_Do re apis s t = Some (r, s') \<Longrightarrow> cluster_inv s'"
  by (auto simp: local_Do_def destroyContainer_def stopContainer_def split: if_splits dest: keepsD [OF keeps_local_ops(1)]
      keepsD [OF keeps_local_ops(2)] keepsD [OF keeps_local_ops(3)])

lemma do_tasks_keeps:
  "do_tasks proc q names w = Some (names', q', w') \<Longrightarrow> (\<And>w t r w'. P w \<Longrightarrow> proc w t = Some (r, w') \<Longrightarrow> P w') \<Longrightarrow>
     P w \<Longrightarrow> P w'"
  by (induction q names w "(names', q', w')" rule: do_tasks_induct) auto

lemma scale_item_ok:
  assumes "cluster_ok c" "scale_item re rids item (c, t) = Some (c', t')"
  shows "cluster_ok c'"
proof -
  have fold_ok: "cluster_ok c \<Longrightarrow> cluster_ok (fold (\<lambda>k. write_config k (c_Config k)) ks c)" for ks c
    by (induction ks arbitrary: c) (auto simp: write_config_ok)
  from assms(2) obtain flt where flt: "NewFilter c item = Some flt"
    by (auto simp: scale_item_def bind_eq_Some_conv)
  show ?thesis
  proof (cases flt)
    case None
    with assms flt show ?thesis by (simp add: scale_item_def)
  next
    case (Some f)
    with assms flt fold_ok show ?thesis by (cases f) (auto simp: scale_item_def bind_eq_Some_conv)
  qed
qed

lemma scale_items_ok: "cluster_ok c \<Longrightarrow> scale_items re rids i items (c, t) = Some (c', t') \<Longrightarrow> cluster_ok c'"
  by (induction items arbitrary: i c t) (auto simp: bind_eq_Some_conv dest: scale_item_ok)

lemma keeps_Scale [keeps_rules]: "keeps cluster_inv (Scale re match rids apis items)"
proof (rule keepsI)
  fix s x s' assume inv: "cluster_inv s" and run: "Scale re match rids apis items s = Some (x, s')"
  obtain c d where s: "s = (c, d)" by force
  from run obtain c1 tasks r t' where c1: "scale_items re rids 0 items (c, NewTasks) = Some (c1, tasks)"
    and doing: "DoTasks (local_Do match apis) tasks (c1, d) = Some (r, t', s')"
    by (auto simp: s Scale_def bind_eq_Some_conv)
  have "cluster_inv (c1, d)" using scale_items_ok [OF _ c1] inv by (simp add: s cluster_inv_def)
  then show "cluster_inv s'"
    using doing local_Do_ok
    by (auto simp: DoTasks_def bind_eq_Some_conv split: option.splits elim!: do_tasks_keeps [where P = cluster_inv])
qed

subsection \<open>Scaling down\<close>

definition all_named :: "(string \<times> Engine) list \<Rightarrow> bool" where
  "all_named es \<longleftrightarrow> (\<forall>(_, e) \<in> set es. \<forall>(_, k) \<in> set (containers e). Names k \<noteq> [])"

definition down_task :: "Task \<Rightarrow> bool" where
  "down_task t \<longleftrightarrow>
     (TaskType t = TaskTypeDestroyContainer \<or> TaskType t = TaskTypeStopContainer) \<and> Names (t_Container t) \<noteq> []"

definition down_job :: "Cluster \<Rightarrow> Task \<Rightarrow> job" where
  "down_job c t =
     (let k = current_container c (t_Container t)
      in if TaskType t = TaskTypeDestroyContainer then DestroyJob k else StopJob k)"

definition with_job :: "Cluster \<Rightarrow> Task \<Rightarrow> 'd cstate \<Rightarrow> 'd cstate" where
  "with_job c0 t = (\<lambda>(c, d). (c\<lparr>background := background c @ [down_job c0 t]\<rparr>, d))"

lemma current_container_engines: "engines c = engines c0 \<Longrightarrow> current_container c = current_container c0"
  by (rule ext) (simp add: current_container_def)

lemma current_container_named: "all_named (engines c) \<Longrightarrow> Names k \<noteq> [] \<Longrightarrow> Names (current_container c k) \<noteq> []"
  by (auto simp: current_container_def all_named_def split: option.splits dest!: map_of_SomeD)

lemma local_Do_down:
  assumes "engines c = engines c0" "all_named (engines c0)" "down_task t"
  shows "local_Do re apis (c, d) t = Some (Inr (Names (current_container c0 (t_Container t)) ! 0), with_job c0 t (c, d))"
proof -
  have names: "Names (current_container c (t_Container t)) \<noteq> []"
    using assms by (intro current_container_named) (simp_all add: down_task_def)
  then have "index (Names (current_container c (t_Container t))) 0 = Some (Names (current_container c (t_Container t)) ! 0)"
    by (simp add: index_def)
  with assms(3) show ?thesis
    by (auto simp: local_Do_def down_task_def task_types destroyContainer_def stopContainer_def start_job_def the_cluster_def
        on_cluster_def op_simps with_job_def down_job_def Let_def current_container_engines [OF assms(1)])
qed

interpretation scale_down: successful_processor "local_Do re apis"
  "\<lambda>s. engines (fst s) = engines c0 \<and> all_named (engines c0)" down_task "with_job c0"
  "\<lambda>t. Names (current_container c0 (t_Container t)) ! 0" for re apis c0
proof
  show "\<exists>r w'. local_Do re apis w t = Some (r, w') \<and> engines (fst w') = engines c0 \<and> all_named (engines c0)"
    if "engines (fst w) = engines c0 \<and> all_named (engines c0)" "down_task t" for w t
    using that local_Do_down [of "fst w" c0 t re apis "snd w"] by (auto simp: with_job_def split_beta)
  show "down_task (t\<lparr>Retry := n\<rparr>)" if "down_task t" for t n
    using that by (simp add: down_task_def)
  show "local_Do re apis w t = Some (Inr (Names (current_container c0 (t_Container t)) ! 0), with_job c0 t w)"
    if "engines (fst w) = engines c0 \<and> all_named (engines c0)" "down_task t" for w t
    using that local_Do_down [of "fst w" c0 t re apis "snd w"] by simp
qed

lemma with_jobs: "fold (with_job c0) ts (c, d) = (c\<lparr>background := background c @ map (down_job c0) ts\<rparr>, d)"
  by (induction ts arbitrary: c) (simp_all add: with_job_def)

text \<open>
  C40. Scaling down never gets stuck: with tasks that stop or destroy named containers, the local processor runs the ring
  empty, starts exactly one goroutine for every task, in the order of the ring, and returns the name of every
  container, whether or not the goroutines succeed later.
\<close>

theorem scale_down_starts_jobs:
  assumes "Ring t = Some q" "\<forall>x \<in> set (ring_tasks q). down_task x" "all_named (engines c)"
  shows "\<exists>t'. DoTasks (local_Do re apis) t (c, d) =
      Some (Inr (map (\<lambda>x. Names (current_container c (t_Container x)) ! 0) (snd q @ fst q)), t',
            c\<lparr>background := background c @ map (down_job c) (snd q @ fst q)\<rparr>, d) \<and>
    (\<forall>q'. Ring t' = Some q' \<longrightarrow> ring_tasks q' = [])"
proof -
  obtain q' where "do_tasks (local_Do re apis) q [] (c, d) =
      Some (map (\<lambda>x. Names (current_container c (t_Container x)) ! 0) (snd q @ fst q), q',
            fold (with_job c) (snd q @ fst q) (c, d))" "ring_tasks q' = []"
    using scale_down.do_tasks_all [of "(c, d)" c q re apis "[]"] assms(2,3) by auto
  with assms(1) show ?thesis by (cases q') (simp add: DoTasks_def with_jobs)
qed

lemma demo_named: "all_named (engines (fst demo_validated))"
  by code_simp

definition demo_stop :: Tasks where
  "demo_stop = AddTasks (\<lambda>i. 7) NewTasks (Some (Cluster_Containers (fst demo_validated))) TaskTypeStopContainer"

lemma demo_stop_ring: "\<exists>x. Ring demo_stop = Some ([], [x]) \<and> down_task x \<and> Names (t_Container x) = [''/web'']"
proof -
  have "\<exists>k. Cluster_Containers (fst demo_validated) = [k] \<and> Names k = [''/web'']"
  proof -
    have "length (Cluster_Containers (fst demo_validated)) = 1" by code_simp
    then obtain k where "Cluster_Containers (fst demo_validated) = [k]" by (auto simp: length_Suc_conv)
    with demo_validated_names show ?thesis by simp
  qed
  then show ?thesis
    by (auto simp: demo_stop_def AddTasks_def NewTasks_def new_tasks_def enumerate_eq_zip new_task_def down_task_def)
qed

theorem scale_down_starts_jobs_witness:
  "\<exists>names t' c' d'. DoTasks (local_Do (\<lambda>_ _. False) demo_apis) demo_stop demo_validated = Some (Inr names, t', c', d') \<and>
     length (background c') = length (background (fst demo_validated)) + 1"
proof -
  obtain x where x: "Ring demo_stop = Some ([], [x])" "down_task x" using demo_stop_ring by blast
  from scale_down_starts_jobs [OF x(1) _ demo_named, of "\<lambda>_ _. False" demo_apis "snd demo_validated"] x(2)
  show ?thesis by (auto simp: ring_tasks_def)
qed

text \<open>
  \<open>Scale\<close> never reports what it scaled: the names reach the caller only together with an error, which
  running the tasks never yields.
\<close>

lemma scale_returns_nil:
  assumes "Scale re match rids apis items s = Some (r, s')"
  shows "r = None"
  using assms by (auto simp: Scale_def DoTasks_def bind_eq_Some_conv split: prod.splits option.splits)

end
