(* ===== verification/Swarm_Watchdog.thy ===== *)
theory Swarm_Watchdog
  imports Swarm_Scale
begin

section \<open>Rescheduling (\<open>cluster/watchdog.go\<close>), event handlers and driver options\<close>

text \<open>
  The watchdog reacts to the events that engines emit: when an engine fails it creates the containers that ask for it
  on other engines, and when an engine comes back it removes the containers that exist elsewhere by now.
  The registry of event handlers (\<open>cluster/event.go\<close>) and the reading of driver options
  (\<open>cluster/options.go\<close>) are here as well.
\<close>

subsection \<open>The registry of event handlers\<close>

text \<open>The registered handlers, each once; \<open>Handle\<close> calls all of them, and logs their errors.\<close>

definition handlers_Register :: "'h \<Rightarrow> 'h list \<Rightarrow> go_error option \<times> 'h list" where
  "handlers_Register h hs = (if h \<in> set hs then (Some (errorf ''event handler already set''), hs) else (None, hs @ [h]))"

definition handlers_Unregister :: "'h \<Rightarrow> 'h list \<Rightarrow> 'h list" where
  "handlers_Unregister h hs = filter (\<lambda>x. x \<noteq> h) hs"

definition handlers_Handle :: "('h \<Rightarrow> Message \<Rightarrow> go_error option) \<Rightarrow> 'h list \<Rightarrow> Message \<Rightarrow> go_error list" where
  "handlers_Handle handle hs ev = List.map_filter (\<lambda>h. handle h ev) hs"

subsection \<open>Driver options\<close>

text \<open>\<open>getenv\<close> is the environment of the process. An option that is only a key makes the index panic.\<close>

fun opts_String :: "(string \<Rightarrow> string) \<Rightarrow> string list \<Rightarrow> string \<Rightarrow> string \<Rightarrow> (string \<times> bool) option" where
  "opts_String getenv [] key var = Some (if getenv var \<noteq> [] then (getenv var, True) else ([], False))"
| "opts_String getenv (opt # opts) key var =
     (let kv = SplitN2 opt ''='' in
      if kv ! 0 = key then (if length kv = 2 then Some (kv ! 1, True) else None)
      else opts_String getenv opts key var)"

definition opts_Bool :: "(string \<Rightarrow> string) \<Rightarrow> string list \<Rightarrow> string \<Rightarrow> string \<Rightarrow> (bool \<times> bool) option" where
  "opts_Bool getenv opts key var = do {
     (v, ok) \<leftarrow> opts_String getenv opts key var;
     Some (if ok then (v \<in> set [''1'', ''t'', ''T'', ''TRUE'', ''true'', ''True''], True) else (False, False)) }"

definition opts_IP :: "(string \<Rightarrow> string) \<Rightarrow> string list \<Rightarrow> string \<Rightarrow> string \<Rightarrow> (int list option \<times> bool) option" where
  "opts_IP getenv opts key var = do {
     (v, ok) \<leftarrow> opts_String getenv opts key var;
     Some (if ok then (ParseIP v, True) else (None, False)) }"

subsection \<open>The watchdog\<close>

datatype reaction = RemoveDuplicates | Reschedule

definition watchdog_Handle :: "Message \<Rightarrow> reaction option" where
  "watchdog_Handle e =
     (if m_From e \<noteq> ''swarm'' then None
      else if m_Status e = ''engine_connect'' \<or> m_Status e = ''engine_reconnect'' then Some RemoveDuplicates
      else if m_Status e = ''engine_disconnect'' then Some Reschedule
      else None)"

text \<open>\<open>e\<close> is the engine of the event; one that has left the cluster answers with an error and lists nothing new.\<close>

definition is_duplicate :: "Container \<Rightarrow> Container \<Rightarrow> bool" where
  "is_duplicate k other \<longleftrightarrow>
     SwarmID (c_Config other) = SwarmID (c_Config k) \<and> e_ID (c_Engine other) \<noteq> e_ID (c_Engine k)"

definition remove_duplicates_of :: "(string \<Rightarrow> 'd Api) \<Rightarrow> EngineSpec \<Rightarrow> Container \<Rightarrow> ('d cstate, unit) op" where
  "remove_duplicates_of apis spec k =
     (if SwarmID (c_Config k) = [] then ret ()
      else and_then the_cluster (\<lambda>c.
        fold_op (\<lambda>_ _. quiet (of_engine apis spec (\<lambda>api. RemoveContainer api k True True)))
          (filter (is_duplicate k) (Cluster_Containers c)) ()))"

definition listed :: "EngineSpec \<Rightarrow> Cluster \<Rightarrow> Containers" where
  "listed spec c = (case map_of (engines c) (e_ID spec) of None \<Rightarrow> [] | Some e \<Rightarrow> Engine_Containers e)"

definition removeDuplicateContainers :: "(string \<Rightarrow> 'd Api) \<Rightarrow> EngineSpec \<Rightarrow> ('d cstate, unit) op" where
  "removeDuplicateContainers apis spec =
     and_then (of_engine apis spec (\<lambda>api. RefreshContainers api False)) (\<lambda>_.
     and_then the_cluster (\<lambda>c.
     fold_op (\<lambda>k _. remove_duplicates_of apis spec k) (listed spec c) ()))"

definition on_owner :: "Container \<Rightarrow> (Engine \<Rightarrow> Engine) \<Rightarrow> Cluster \<Rightarrow> Cluster" where
  "on_owner k f c =
     (case map_of (engines c) (e_ID (c_Engine k)) of
        None \<Rightarrow> c
      | Some e \<Rightarrow> c\<lparr>engines := AList.update (e_ID (c_Engine k)) (f e) (engines c)\<rparr>)"

text \<open>A call through the client of an engine without its bookkeeping.\<close>

definition raw_call :: "(string \<Rightarrow> 'd Api) \<Rightarrow> Engine \<Rightarrow> ('d Api \<Rightarrow> ('d, 'a) call) \<Rightarrow> ('d cstate, 'a result) op" where
  "raw_call apis e f = (\<lambda>(c, d).
     let (r, d') = (if connected e then f (apis (e_Addr e)) d else nop_call d) in Some (r, c, d'))"

definition global_endpoints :: "Cluster \<Rightarrow> NetworkingConfig \<Rightarrow> NetworkingConfig" where
  "global_endpoints c nets =
     filter (\<lambda>(_, ep). case Networks_Get (Networks_Uniq (Cluster_Networks c)) (NetworkID ep) of
        None \<Rightarrow> False | Some n \<Rightarrow> Scope n = ''global'') nets"

text \<open>
  Detaching the dead container from the global networks through some healthy engine. The value is the
  list of those networks, or \<open>None\<close> when there is no engine to do it.
\<close>

definition detach_networks ::
    "(string \<Rightarrow> 'd Api) \<Rightarrow> string \<Rightarrow> NetworkSettings option \<Rightarrow> ('d cstate, NetworkingConfig option) op" where
  "detach_networks apis name settings =
     (case settings of
        None \<Rightarrow> ret (Some [])
      | Some ns \<Rightarrow>
          if Networks ns = [] then ret (Some [])
          else and_then the_cluster (\<lambda>c.
            or_panic (RANDOMENGINE c zero_config) (\<lambda>r. case r of
              Inl _ \<Rightarrow> ret None
            | Inr eo \<Rightarrow>
                and_then (fold_op (\<lambda>ne _. or_panic eo (\<lambda>e.
                    quiet (raw_call apis e (\<lambda>api. api_NetworkDisconnect api (fst ne) name True))))
                  (global_endpoints c (Networks ns)) ()) (\<lambda>_.
                ret (Some (global_endpoints c (Networks ns)))))))"

definition attach_networks ::
    "(string \<Rightarrow> 'd Api) \<Rightarrow> string \<Rightarrow> EngineSpec \<Rightarrow> NetworkingConfig \<Rightarrow> ('d cstate, unit) op" where
  "attach_networks apis name spec nets =
     fold_op (\<lambda>ne _. and_then the_cluster (\<lambda>c.
       or_panic (map_of (engines c) (e_ID spec)) (\<lambda>e.
       quiet (raw_call apis e (\<lambda>api. api_NetworkConnect api (fst ne) name (snd ne)))))) nets ()"

text \<open>What happens to one container of a failed engine, once its policy asks for rescheduling.\<close>

definition after_create ::
    "(string \<Rightarrow> 'd Api) \<Rightarrow> Container \<Rightarrow> string \<Rightarrow> NetworkingConfig \<Rightarrow> ContainerConfig \<times> Container result \<Rightarrow> ('d cstate, unit) op" where
  "after_create apis k name nets = (\<lambda>(config, r). case r of
     Inl _ \<Rightarrow> on_cluster (on_owner k (\<lambda>e. snd (AddContainer (k\<lparr>c_Config := config\<rparr>) e)))
   | Inr new \<Rightarrow>
       and_then (attach_networks apis name (c_Engine new) nets) (\<lambda>_.
       or_panic (Info_State (Info k)) (\<lambda>st.
       if Running st then quiet (Cluster_StartContainer apis new None) else ret ())))"

definition recreate ::
    "(string \<Rightarrow> string \<Rightarrow> bool) \<Rightarrow> (string \<Rightarrow> 'd Api) \<Rightarrow> Container \<Rightarrow> ('d cstate, unit) op" where
  "recreate re apis k =
     and_then (on_cluster (on_owner k (\<lambda>e. snd (removeContainer k e)))) (\<lambda>_.
     let full = Info_Name (Info k) in
     if full = [] \<or> full = ''/'' then ret ()
     else
       let name = (if full ! 0 = CHR ''/'' then tl full else full) in
       and_then (detach_networks apis name (Info_NetworkSettings (Info k))) (\<lambda>nets. case nets of
         None \<Rightarrow> on_cluster (on_owner k (\<lambda>e. snd (AddContainer k e)))
       | Some nets \<Rightarrow>
           and_then (Cluster_CreateContainer re apis (c_Config k) full None) (after_create apis k name nets)))"

definition rescheduleContainers ::
    "(string \<Rightarrow> string \<Rightarrow> bool) \<Rightarrow> (string \<Rightarrow> 'd Api) \<Rightarrow> Containers \<Rightarrow> ('d cstate, unit) op" where
  "rescheduleContainers re apis ks =
     fold_op (\<lambda>k _. if HasReschedulePolicy (c_Config k) ''on-node-failure'' then recreate re apis k else ret ()) ks ()"

subsection \<open>The invariant\<close>

lemma on_owner_ok:
  assumes "cluster_ok c" "\<And>e. engine_inv (e_Addr e) (e_ID e) (e, ()) \<Longrightarrow> engine_inv (e_Addr e) (e_ID e) (f e, ())"
  shows "cluster_ok (on_owner k f c)"
proof (cases "map_of (engines c) (e_ID (c_Engine k))")
  case (Some e)
  have "e_ID e = e_ID (c_Engine k)" "engine_ok e"
    using assms(1) engines_ok_lookup [OF _ Some] by (auto simp: cluster_ok_def)
  then have "engine_inv (e_Addr e) (e_ID (c_Engine k)) (f e, ())"
    using assms(2) [of e] by (auto simp: engine_inv_def)
  with cluster_ok_replace [OF assms(1) Some] show ?thesis by (simp add: on_owner_def Some)
qed (use assms(1) in \<open>simp add: on_owner_def\<close>)

lemma owner_changes_ok:
  "cluster_ok c \<Longrightarrow> cluster_ok (on_owner k (\<lambda>e. snd (removeContainer k' e)) c)"
  "cluster_ok c \<Longrightarrow> cluster_ok (on_owner k (\<lambda>e. snd (AddContainer k' e)) c)"
  by (rule on_owner_ok, assumption, erule direct_changes_inv, simp add: prod_eq_iff)+

lemma keeps_raw_call [keeps_rules]: "keeps cluster_inv (raw_call apis e f)"
  by (auto simp: keeps_def raw_call_def cluster_inv_def Let_def split: prod.splits)

lemma keeps_network_moves [keeps_rules]:
  "keeps cluster_inv (detach_networks apis name ns)" "keeps cluster_inv (attach_networks apis name spec nets)"
  unfolding detach_networks_def attach_networks_def by (intro keeps_rules)+

lemma keeps_after_create [keeps_rules]: "keeps cluster_inv (after_create apis k name nets r)"
  unfolding after_create_def by (intro keeps_rules owner_changes_ok)

lemma keeps_recreate [keeps_rules]: "keeps cluster_inv (recreate re apis k)"
  unfolding recreate_def Let_def by (intro keeps_rules owner_changes_ok)

lemma keeps_remove_duplicates_of [keeps_rules]: "keeps cluster_inv (remove_duplicates_of apis spec k)"
  unfolding remove_duplicates_of_def by (intro keeps_rules)

lemma keeps_watchdog [keeps_rules]:
  "keeps cluster_inv (rescheduleContainers re apis ks)" "keeps cluster_inv (removeDuplicateContainers apis spec)"
  unfolding rescheduleContainers_def removeDuplicateContainers_def by (intro keeps_rules)+

subsection \<open>No container is lost\<close>

text \<open>The operations that create leave the set of registered engines as it is.\<close>

definition engine_keys :: "string list \<Rightarrow> 'd cstate \<Rightarrow> bool" where
  "engine_keys ks s \<longleftrightarrow> map fst (engines (fst s)) = ks"

lemma keys_at_engine: "keeps (engine_keys ks) (at_engine apis eid m)"
proof (rule keepsI)
  fix s x s' assume inv: "engine_keys ks s" and run: "at_engine apis eid m s = Some (x, s')"
  obtain c d where s: "s = (c, d)" by force
  from run obtain e e' d' where e: "map_of (engines c) eid = Some e"
    and s': "s' = (c\<lparr>engines := AList.update eid e' (engines c)\<rparr>, d')"
    by (auto simp: s at_engine_def split: option.split_asm)
  from inv update_same_keys [OF map_of_key [OF e]] show "engine_keys ks s'" by (simp add: engine_keys_def s s')
qed

lemma keys_on_cluster: "(\<And>c. engines (f c) = engines c) \<Longrightarrow> keeps (engine_keys ks) (on_cluster f)"
  by (auto simp: keeps_def on_cluster_def modify_def engine_keys_def)

lemma keys_createContainer: "keeps (engine_keys ks) (Cluster_createContainer apis config name aff au)"
proof -
  have "engines c' = engines c" if "reserve config name aff c = Some (r, c')" for c r c'
    using reserve_cases [of config name aff c "fst r" "snd r" c'] that by (cases r; cases "snd r") auto
  then have "keeps (engine_keys ks) (\<lambda>(c, d). map_option (\<lambda>(r, c'). (r, c', d)) (reserve config name aff c))"
    by (auto simp: keeps_def engine_keys_def)
  then show ?thesis
    unfolding Cluster_createContainer_def
    by (intro keeps_and_then keeps_case_prod keeps_case_sum keeps_ret keys_at_engine keys_on_cluster)
      (simp_all add: forget_pending_def)
qed

lemma keys_retry: "keeps (engine_keys ks) (retry_create n apis name au r)"
  by (induction n arbitrary: r) (auto intro!: keeps_rules keys_createContainer)

lemma keys_CreateContainer: "keeps (engine_keys ks) (Cluster_CreateContainer re apis config name au)"
  unfolding Cluster_CreateContainer_def
  by (intro keeps_and_then keeps_case_prod keeps_case_sum keeps_ret keeps_the_cluster keeps_if keys_createContainer keys_retry)

lemma keys_detach: "keeps (engine_keys ks) (detach_networks apis name ns)"
proof -
  have "keeps (engine_keys ks) (raw_call apis e f)" for e and f :: "'a Api \<Rightarrow> ('a, unit) call"
    by (auto simp: keeps_def raw_call_def engine_keys_def Let_def split: prod.splits)
  then show ?thesis unfolding detach_networks_def by (intro keeps_rules)
qed

definition is_listed :: "Container \<Rightarrow> Cluster \<Rightarrow> bool" where
  "is_listed k c \<longleftrightarrow> (\<exists>e. map_of (engines c) (e_ID (c_Engine k)) = Some e \<and> map_of (containers e) (c_ID k) \<noteq> None)"

lemma add_back_listed:
  assumes "e_ID (c_Engine k) \<in> set (map fst (engines c))" "c_ID k' = c_ID k"
  shows "is_listed k (on_owner k (\<lambda>e. snd (AddContainer k' e)) c)"
proof -
  from assms(1) obtain e where "map_of (engines c) (e_ID (c_Engine k)) = Some e"
    using weak_map_of_SomeI by fastforce
  with assms(2) show ?thesis by (auto simp: is_listed_def on_owner_def AddContainer_def split: option.splits)
qed

definition dropped :: "Container \<Rightarrow> Cluster \<Rightarrow> Cluster" where
  "dropped k c = on_owner k (\<lambda>e. snd (removeContainer k e)) c"

lemma dropped_keys: "engine_keys (map fst (engines c)) (dropped k c, d)"
  using update_same_keys [OF map_of_key, of "engines c"]
  by (simp add: dropped_def on_owner_def engine_keys_def split: option.splits)

lemma on_cluster_step: "and_then (on_cluster g) f (c, d) = f () (g c, d)"
  by (simp add: and_then_def on_cluster_def modify_def)

lemma recreate_named:
  assumes "Info_Name (Info k) \<noteq> []" "Info_Name (Info k) \<noteq> ''/''"
  shows "recreate re apis k (c, d) =
    and_then (detach_networks apis (TrimPrefix (Info_Name (Info k)) ''/'') (Info_NetworkSettings (Info k))) (\<lambda>nets. case nets of
      None \<Rightarrow> on_cluster (on_owner k (\<lambda>e. snd (AddContainer k e)))
    | Some nets \<Rightarrow> and_then (Cluster_CreateContainer re apis (c_Config k) (Info_Name (Info k)) None)
        (after_create apis k (TrimPrefix (Info_Name (Info k)) ''/'') nets)) (dropped k c, d)"
proof -
  have "(if Info_Name (Info k) ! 0 = CHR ''/'' then tl (Info_Name (Info k)) else Info_Name (Info k)) =
      TrimPrefix (Info_Name (Info k)) ''/''"
    using assms(1) by (cases "Info_Name (Info k)") (auto simp: TrimPrefix_def)
  with assms show ?thesis
    by (simp add: recreate_def Let_def on_cluster_step dropped_def)
qed

text \<open>
  C22. Rescheduling loses no named container: after the watchdog handled a container of a failed engine that is still
  registered, either the engine lists the container as before, so that it can be tried again, or the
  cluster created its replacement, with the same name, after the old entry was gone.
\<close>

theorem reschedule_loses_nothing:
  assumes "recreate re apis k (c, d) = Some (u, s')" "e_ID (c_Engine k) \<in> set (map fst (engines c))"
    and "Info_Name (Info k) \<noteq> []" "Info_Name (Info k) \<noteq> ''/''"
  shows "is_listed k (fst s') \<or>
    (\<exists>nets s1 config new s2.
       detach_networks apis (TrimPrefix (Info_Name (Info k)) ''/'') (Info_NetworkSettings (Info k)) (dropped k c, d) = Some (Some nets, s1) \<and>
       Cluster_CreateContainer re apis (c_Config k) (Info_Name (Info k)) None s1 = Some ((config, Inr new), s2))"
proof -
  let ?ks = "map fst (engines c)"
  from assms(1) obtain nets s1 where nets: "detach_networks apis (TrimPrefix (Info_Name (Info k)) ''/'')
      (Info_NetworkSettings (Info k)) (dropped k c, d) = Some (nets, s1)"
    and rest: "(case nets of None \<Rightarrow> on_cluster (on_owner k (\<lambda>e. snd (AddContainer k e)))
      | Some nets \<Rightarrow> and_then (Cluster_CreateContainer re apis (c_Config k) (Info_Name (Info k)) None)
          (after_create apis k (TrimPrefix (Info_Name (Info k)) ''/'') nets)) s1 = Some (u, s')"
    unfolding recreate_named [OF assms(3,4)] and_then_Some by blast
  have keys1: "engine_keys ?ks s1" using keepsD [OF keys_detach dropped_keys nets] .
  show ?thesis
  proof (cases nets)
    case None
    with rest have "fst s' = on_owner k (\<lambda>e. snd (AddContainer k e)) (fst s1)"
      by (auto simp: on_cluster_def modify_def split_beta)
    with keys1 assms(2) show ?thesis by (simp add: engine_keys_def add_back_listed)
  next
    case (Some ns)
    with rest obtain config r s2 where create: "Cluster_CreateContainer re apis (c_Config k) (Info_Name (Info k)) None s1 =
        Some ((config, r), s2)"
      and fin: "after_create apis k (TrimPrefix (Info_Name (Info k)) ''/'') ns (config, r) s2 = Some (u, s')"
      by (auto simp: and_then_Some)
    show ?thesis
    proof (cases r)
      case (Inl err)
      have "engine_keys ?ks s2" using keepsD [OF keys_CreateContainer keys1 create] .
      moreover from fin Inl have "fst s' = on_owner k (\<lambda>e. snd (AddContainer (k\<lparr>c_Config := config\<rparr>) e)) (fst s2)"
        by (auto simp: after_create_def on_cluster_def modify_def split_beta)
      ultimately show ?thesis using assms(2) by (simp add: engine_keys_def add_back_listed)
    next
      case (Inr new)
      with Some nets create show ?thesis by blast
    qed
  qed
qed

text \<open>A container without a name is taken off its engine's list and not put back.\<close>

lemma nameless_container_dropped:
  assumes "map_of (engines c) (e_ID (c_Engine k)) = Some e" "Info_Name (Info k) = [] \<or> Info_Name (Info k) = ''/''"
  shows "\<exists>c'. recreate re apis k (c, d) = Some ((), c', d) \<and> \<not> is_listed k c'"
proof -
  have "recreate re apis k (c, d) = Some ((), dropped k c, d)"
    using assms(2) by (auto simp: recreate_def Let_def on_cluster_def modify_def dropped_def)
  moreover have "\<not> is_listed k (dropped k c)"
    using assms(1) by (auto simp: is_listed_def dropped_def on_owner_def removeContainer_def split: option.splits)
  ultimately show ?thesis by blast
qed

text \<open>An option that is a bare key makes reading any option with that key panic.\<close>

lemma bare_option_panics: "CHR ''='' \<notin> set key \<Longrightarrow> opts_String getenv (key # opts) key var = None"
  by simp

definition demo_failed :: Container where
  "demo_failed = hd (Cluster_Containers (fst demo_validated))"

lemma demo_failed_run:
  "(case recreate (\<lambda>_ _. False) demo_apis demo_failed demo_validated of None \<Rightarrow> False
    | Some (u, s) \<Rightarrow> concat (map Names (Cluster_Containers (fst s))) = [''//web''])"
  "e_ID (c_Engine demo_failed) = ''E1'' \<and> Info_Name (Info demo_failed) = ''/web''"
  by code_simp+

theorem reschedule_loses_nothing_witness:
  "\<exists>u s'. recreate (\<lambda>_ _. False) demo_apis demo_failed demo_validated = Some (u, s') \<and>
     (is_listed demo_failed (fst s') \<or>
      (\<exists>nets s1 config new s2.
         detach_networks demo_apis ''web'' (Info_NetworkSettings (Info demo_failed))
           (dropped demo_failed (fst demo_validated), snd demo_validated) = Some (Some nets, s1) \<and>
         Cluster_CreateContainer (\<lambda>_ _. False) demo_apis (c_Config demo_failed) ''/web'' None s1 = Some ((config, Inr new), s2)))"
proof -
  from demo_failed_run(1) obtain u s' where run: "recreate (\<lambda>_ _. False) demo_apis demo_failed (fst demo_validated, snd demo_validated) =
      Some (u, s')"
    by (auto split: option.split_asm)
  with reschedule_loses_nothing [OF run] demo_failed_run(2) demo_validated_keys show ?thesis
    by (simp add: TrimPrefix_def)
qed

end
