(* ===== verification/Go_Float.thy ===== *)
theory Go_Float
  imports Cattle_Prelude "HOL-Library.Log_Nat" "HOL-Library.Word"
begin

section \<open>\<open>float64\<close>, decimal numbers and 64-bit counters\<close>

text \<open>
  The Mesos offers carry amounts as \<open>float64\<close>. A \<open>float64\<close> is the rational number it denotes, and \<open>f64\<close> rounds the exact
  result of an operation to 53 significant bits, ties to even, as the hardware does; the
  smallest and the largest exponents (subnormal numbers, infinities) do not occur in amounts of resources and are
  left out. Sums of whole amounts below \<open>2^53\<close> are exact. The conversion to \<open>int64\<close> truncates; out of range it yields
  the smallest integer, as on amd64.
\<close>

subsection \<open>Rounding\<close>

definition round_even :: "rat \<Rightarrow> int" where
  "round_even x =
     (let n = \<lfloor>x\<rfloor>; f = x - of_int n
      in if f < 1 / 2 then n else if f > 1 / 2 then n + 1 else if even n then n else n + 1)"

definition pow2 :: "int \<Rightarrow> rat" where
  "pow2 k = (if 0 \<le> k then 2 ^ nat k else 1 / 2 ^ nat (- k))"

definition log2_floor :: "rat \<Rightarrow> int" where
  "log2_floor x =
     (let (p, q) = quotient_of x;
          k = int (floorlog 2 (nat p)) - int (floorlog 2 (nat q))
      in if x < pow2 k then k - 1 else k)"

definition f64 :: "rat \<Rightarrow> rat" where
  "f64 x =
     (if x = 0 then 0
      else let e = log2_floor \<bar>x\<bar> - 52 in of_int (round_even (x / pow2 e)) * pow2 e)"

definition f64_to_int64 :: "rat \<Rightarrow> int" where
  "f64_to_int64 x =
     (let n = (if 0 \<le> x then \<lfloor>x\<rfloor> else \<lceil>x\<rceil>) in if in_i64 n then n else - (2 ^ 63))"

lemma round_even_int [simp]: "round_even (of_int n) = n"
  by (simp add: round_even_def)

lemma log2_floor_int: "0 < n \<Longrightarrow> n < 2 ^ 53 \<Longrightarrow> log2_floor (of_int n) \<le> 52"
proof -
  assume n: "0 < n" "n < 2 ^ 53"
  have "nat n < 2 ^ 53" using n by (simp add: nat_less_iff)
  then have "floorlog 2 (nat n) \<le> 53" by (simp add: floorlog_leI)
  moreover have "floorlog 2 (1 :: nat) = 1" by (simp add: floorlog_def)
  ultimately show ?thesis by (simp add: log2_floor_def Let_def)
qed

lemma f64_int [simp]: "\<bar>n\<bar> < 2 ^ 53 \<Longrightarrow> f64 (of_int n) = of_int n"
proof (cases "n = 0")
  case False
  assume "\<bar>n\<bar> < 2 ^ 53"
  with False have "log2_floor \<bar>of_int n\<bar> \<le> 52" using log2_floor_int [of "\<bar>n\<bar>"] by simp
  then obtain k where k: "log2_floor \<bar>of_int n\<bar> - 52 = - int k"
    by (metis nonneg_int_cases diff_le_0_iff_le minus_minus neg_0_le_iff_le)
  have p: "pow2 (- int k) = 1 / 2 ^ k" by (cases "k = 0") (simp_all add: pow2_def)
  then have "round_even (of_int n / pow2 (- int k)) = n * 2 ^ k" using round_even_int [of "n * 2 ^ k"] by simp
  with p show ?thesis using False by (simp add: f64_def Let_def k)
qed (simp add: f64_def)

lemma f64_to_int64_int [simp]: "in_i64 n \<Longrightarrow> f64_to_int64 (of_int n) = n"
  by (simp add: f64_to_int64_def Let_def)

subsection \<open>Decimal numbers\<close>

fun dec_digits :: "nat \<Rightarrow> string" where
  "dec_digits n = (if n < 10 then [char_of (48 + n)] else dec_digits (n div 10) @ [char_of (48 + n mod 10)])"

declare dec_digits.simps [simp del]

definition Itoa :: "int \<Rightarrow> string" where
  "Itoa n = (if n < 0 then CHR ''-'' # dec_digits (nat (- n)) else dec_digits (nat n))"

text \<open>\<open>time.Duration.String\<close>: hours, minutes and seconds, or a smaller unit below one second.\<close>

definition frac_text :: "nat \<Rightarrow> nat \<Rightarrow> string" where
  "frac_text v prec =
     (let ds = map (\<lambda>i. char_of (48 + v div 10 ^ i mod 10)) (rev [0..<prec]);
          ds = rev (dropWhile (\<lambda>c. c = CHR ''0'') (rev ds))
      in if ds = [] then [] else CHR ''.'' # ds)"

definition with_unit :: "nat \<Rightarrow> nat \<Rightarrow> string \<Rightarrow> string" where
  "with_unit v prec u = dec_digits (v div 10 ^ prec) @ frac_text v prec @ u"

definition Duration_String :: "int \<Rightarrow> string" where
  "Duration_String d =
     (let u = nat \<bar>d\<bar>;
          s = (if u = 0 then ''0s''
               else if u < 10 ^ 3 then with_unit u 0 ''ns''
               else if u < 10 ^ 6 then with_unit u 3 [CHR 0xC2, CHR 0xB5, CHR ''s'']
               else if u < 10 ^ 9 then with_unit u 6 ''ms''
               else
                 let secs = u div 10 ^ 9 in
                 (if secs \<ge> 3600 then dec_digits (secs div 3600) @ ''h'' else []) @
                 (if secs \<ge> 60 then dec_digits (secs div 60 mod 60) @ ''m'' else []) @
                 dec_digits (secs mod 60) @ frac_text u 9 @ ''s'')
      in if d < 0 then CHR ''-'' # s else s)"

text \<open>\<open>strconv.ParseUint(s, 10, 32)\<close>; \<open>None\<close> is an error.\<close>

definition ParseUint32 :: "string \<Rightarrow> 64 word option" where
  "ParseUint32 s =
     (if s = [] then None
      else case ParseUint 0 s of Inl _ \<Rightarrow> None | Inr n \<Rightarrow> if n < 2 ^ 32 then Some (word_of_int n) else None)"

subsection \<open>Counting up to a bound\<close>

text \<open>
  \<open>for i := begin; i <= end; i++\<close> over \<open>uint64\<close>, collecting the values of \<open>i\<close>. With the largest bound the condition never
  fails and the loop does not end, which is \<open>None\<close>.
\<close>

partial_function (option) count_up :: "64 word \<Rightarrow> 64 word \<Rightarrow> 64 word list option" where
  "count_up i e = (if i \<le> e then do { is \<leftarrow> count_up (i + 1) e; Some (i # is) } else Some [])"

declare count_up.simps [code]

lemma count_up_max: "count_up i (- 1) = None"
proof -
  have "e \<noteq> - 1" if "count_up i e = Some r" for i e r
    using _ that
  proof (rule count_up.raw_induct [where P = "\<lambda>i e r. e \<noteq> - 1"])
    fix rec and i e :: "64 word" and r
    assume "\<And>i e r. rec i e = Some r \<Longrightarrow> e \<noteq> - 1"
      and "(if i \<le> e then do { is \<leftarrow> rec (i + 1) e; Some (i # is) } else Some []) = Some r"
    then show "e \<noteq> - 1" using word_order.extremum [of i] by (auto simp: bind_eq_Some_conv split: if_splits)
  qed
  then show ?thesis by force
qed

lemma count_up_ends:
  assumes "e \<noteq> - 1"
  shows "count_up i e = Some (map word_of_nat [unat i ..< Suc (unat e)])"
proof (induction "Suc (unat e) - unat i" arbitrary: i)
  case 0
  then have "\<not> i \<le> e" by (simp add: word_le_nat_alt)
  with 0 show ?case by (simp add: count_up.simps [of i e])
next
  case (Suc n)
  then have le: "i \<le> e" by (simp add: word_le_nat_alt)
  with assms have "i \<noteq> - 1" by (metis word_order.extremum_uniqueI)
  then have inc: "unat (i + 1) = Suc (unat i)" by (metis Suc_eq_plus1 add.commute unatSuc add_eq_0_iff add.inverse_inverse)
  with Suc(2) have "count_up (i + 1) e = Some (map word_of_nat [unat (i + 1) ..< Suc (unat e)])"
    by (intro Suc(1)) simp
  moreover have "[unat i ..< Suc (unat e)] = unat i # [Suc (unat i) ..< Suc (unat e)]"
    using le by (intro upt_conv_Cons) (simp add: word_le_nat_alt)
  ultimately show ?case using le by (simp add: count_up.simps [of i e] inc del: upt_Suc)
qed

end
