(* ===== verification/Mesos_Tasks.thy ===== *)
theory Mesos_Tasks
  imports Swarm_Invariants Go_Float
begin

section \<open>Mesos tasks, offers and agents (\<open>cluster/mesos/task\<close>, \<open>agent.go\<close>, \<open>utils.go\<close>)\<close>

text \<open>
  On Mesos the manager does not place containers on engines itself: the Mesos master offers resources of its agents, and
  the manager turns the configuration of a container into a task that it launches against offers. This theory
  has the data of the protocol that the code reads and writes, the building of a task (\<open>task.go\<close>), its status
  messages, the book-keeping of an agent (\<open>agent.go\<close>) and the queue of tasks that wait for an
  offer (\<open>tasks.go\<close>). The fields of the docker configuration that only the building of tasks reads are in
  \<open>TaskConfig\<close>; Go's iteration over the labels is the list \<open>cfg_labels\<close>.
\<close>

subsection \<open>Data of the protocol\<close>

datatype Value_Type = SCALAR | RANGES | SET | TEXT

record Resource =
  r_Name :: string
  r_Type :: Value_Type
  r_Scalar :: "rat option"
  r_Ranges :: "(64 word \<times> 64 word) list"

record Attribute =
  at_Name :: string
  at_Type :: Value_Type
  at_Scalar :: rat
  at_Text :: string

record Offer =
  o_Id :: string
  o_SlaveId :: string
  o_Hostname :: string
  o_Resources :: "Resource list"
  o_Attributes :: "Attribute list"

datatype Network_Mode = NONE | HOST | BRIDGE

record PortMapping =
  pm_HostPort :: "32 word"
  pm_ContainerPort :: "32 word"
  pm_Protocol :: string

record TaskInfo =
  ti_SlaveId :: "string option"
  ti_Image :: string
  ti_Hostname :: "string option"
  ti_Network :: "Network_Mode option"
  ti_PortMappings :: "PortMapping list"
  ti_Resources :: "Resource list"
  ti_Value :: "string option"
  ti_Arguments :: "string list"
  ti_Parameters :: "(string \<times> string) list"

record TaskConfig =
  cfg_Hostname :: string
  cfg_Domainname :: string
  cfg_Cmd :: "string list"
  cfg_attached :: bool
  cfg_labels :: "string list"

text \<open>
  A task object. The source hands out pointers to it: the queue, the agent and the goroutines of a
  creation see the same \<open>t_done\<close> and the same \<open>t_info\<close>.
\<close>

record MTask =
  t_ID :: string
  t_Name :: string
  t_config :: ContainerConfig
  t_more :: TaskConfig
  t_info :: TaskInfo
  t_done :: bool

datatype TaskState = TASK_STAGING | TASK_STARTING | TASK_RUNNING | TASK_FINISHED | TASK_FAILED | TASK_KILLED | TASK_LOST | TASK_ERROR

text \<open>\<open>ts_Data\<close>: the identifiers of the containers in the data, when there is data and it decodes.\<close>

record TaskStatus =
  ts_State :: TaskState
  ts_Message :: string
  ts_Data :: "string list option"

subsection \<open>Offers\<close>

text \<open>
  \<open>append(acc, f(x)...)\<close> over a list; \<open>None\<close> when some \<open>f(x)\<close> does not return, here because a range of ports ends at the
  largest number.
\<close>

definition collect :: "('a \<Rightarrow> 'b list option) \<Rightarrow> 'a list \<Rightarrow> 'b list option" where
  "collect f xs = map_option concat (those (map f xs))"

definition getPorts :: "Offer \<Rightarrow> 64 word list option" where
  "getPorts offer =
     collect (\<lambda>r. collect (\<lambda>(b, e). count_up b e) (r_Ranges r)) (filter (\<lambda>r. r_Name r = ''ports'') (o_Resources offer))"

text \<open>A resource with the name but without a scalar is a nil dereference.\<close>

definition sumScalarResourceValue :: "Offer list \<Rightarrow> string \<Rightarrow> rat option" where
  "sumScalarResourceValue os name =
     fold (\<lambda>offer acc.
       fold (\<lambda>r acc. if r_Name r = name then do { v \<leftarrow> acc; x \<leftarrow> r_Scalar r; Some (f64 (v + x)) } else acc)
         (o_Resources offer) acc) os (Some 0)"

subsection \<open>Building a task\<close>

definition NewScalarResource :: "string \<Rightarrow> rat \<Rightarrow> Resource" where
  "NewScalarResource name v = \<lparr>r_Name = name, r_Type = SCALAR, r_Scalar = Some v, r_Ranges = []\<rparr>"

definition NewPortResource :: "64 word \<Rightarrow> Resource" where
  "NewPortResource p = \<lparr>r_Name = ''ports'', r_Type = RANGES, r_Scalar = None, r_Ranges = [(p, p)]\<rparr>"

text \<open>The host port of a binding, with the offered ports that are left; \<open>None\<close> when the requested port does not parse.\<close>

definition host_port :: "PortBinding \<Rightarrow> 64 word list \<Rightarrow> (64 word \<times> 64 word list) option" where
  "host_port b ports =
     (if HostPort b \<noteq> [] then map_option (\<lambda>p. (p, ports)) (ParseUint32 (HostPort b))
      else Some (case ports of [] \<Rightarrow> (0, []) | p # rest \<Rightarrow> (p, rest)))"

definition bind_port ::
    "string \<Rightarrow> PortBinding \<Rightarrow> 64 word list \<times> PortMapping list \<times> Resource list \<Rightarrow> 64 word list \<times> PortMapping list \<times> Resource list" where
  "bind_port containerProtoPort b = (\<lambda>(ports, mappings, res).
     let containerInfo = SplitN2 containerProtoPort ''/'' in
     case ParseUint32 (containerInfo ! 0) of
       None \<Rightarrow> (ports, mappings, res)
     | Some containerPort \<Rightarrow>
         (case host_port b ports of
            None \<Rightarrow> (ports, mappings, res)
          | Some (hostPort, ports) \<Rightarrow>
              if hostPort = 0 then (ports, mappings, res)
              else (ports,
                mappings @ [\<lparr>pm_HostPort = ucast hostPort, pm_ContainerPort = ucast containerPort,
                  pm_Protocol = (if length containerInfo = 2 then containerInfo ! 1 else ''tcp'')\<rparr>],
                res @ [NewPortResource hostPort])))"

definition bind_ports ::
    "PortMap \<Rightarrow> 64 word list \<Rightarrow> 64 word list \<times> PortMapping list \<times> Resource list" where
  "bind_ports m ports = fold (\<lambda>(cp, bs). fold (bind_port cp) bs) m (ports, [], [])"

definition bridged :: "string \<Rightarrow> bool" where
  "bridged mode \<longleftrightarrow> mode = ''default'' \<or> mode = ''bridge'' \<or> mode = []"

definition task_network :: "string \<Rightarrow> Network_Mode" where
  "task_network mode = (if mode = ''none'' then NONE else if mode = ''host'' then HOST else BRIDGE)"

definition mesos_key :: "string \<Rightarrow> string" where
  "mesos_key k = SwarmLabelNamespace @ ''.mesos.'' @ k"

definition task_parameters :: "ContainerConfig \<Rightarrow> TaskConfig \<Rightarrow> (string \<times> string) list" where
  "task_parameters config extra =
     map (\<lambda>k. (''label'', k @ ''='' @ (case Labels config k of None \<Rightarrow> [] | Some v \<Rightarrow> v))) (cfg_labels extra) @
     map (\<lambda>v. (''env'', v)) (Env config) @
     (if \<not> cfg_attached extra then [(''label'', mesos_key ''detach'' @ ''=true'')] else [])"

definition task_amounts :: "ContainerConfig \<Rightarrow> Resource list" where
  "task_amounts config =
     (if CPUShares (HostConfig config) > 0 then [NewScalarResource ''cpus'' (f64 (of_int (CPUShares (HostConfig config))))] else []) @
     (if Memory (HostConfig config) > 0
      then [NewScalarResource ''mem'' (f64 (of_int (Memory (HostConfig config) div 1024 div 1024)))] else [])"

definition Build :: "string \<Rightarrow> Offer list \<Rightarrow> MTask \<Rightarrow> MTask option" where
  "Build slaveID os t =
     (let config = t_config t; extra = t_more t; info = t_info t; mode = NetworkMode (HostConfig config) in do {
        (mappings, ports) \<leftarrow>
          (if bridged mode
           then do { ports \<leftarrow> collect getPorts os; Some (snd (bind_ports (PortBindings (HostConfig config)) ports)) }
           else Some ([], []));
        Some (t\<lparr>t_info := info\<lparr>
          ti_Image := Image config,
          ti_Hostname := (if cfg_Hostname extra = [] then None
             else Some (if cfg_Domainname extra = [] then cfg_Hostname extra
               else cfg_Hostname extra @ ''.'' @ cfg_Domainname extra)),
          ti_Network := Some (task_network mode),
          ti_PortMappings := mappings,
          ti_Resources := ti_Resources info @ ports @ task_amounts config,
          ti_Value := (if cfg_Cmd extra \<noteq> [] \<and> hd (cfg_Cmd extra) \<noteq> [] then Some (hd (cfg_Cmd extra)) else None),
          ti_Arguments := (if length (cfg_Cmd extra) > 1 then tl (cfg_Cmd extra) else []),
          ti_Parameters := task_parameters config extra,
          ti_SlaveId := Some slaveID\<rparr>\<rparr>) })"

text \<open>
  \<open>random\<close> is the identifier that \<open>stringid.GenerateRandomID\<close> returns. The labels of a configuration that
  the manager built are never nil.
\<close>

definition empty_task_info :: TaskInfo where
  "empty_task_info = \<lparr>ti_SlaveId = None, ti_Image = [], ti_Hostname = None, ti_Network = None, ti_PortMappings = [],
     ti_Resources = [], ti_Value = None, ti_Arguments = [], ti_Parameters = []\<rparr>"

definition NewTask :: "string \<Rightarrow> ContainerConfig \<Rightarrow> TaskConfig \<Rightarrow> string \<Rightarrow> MTask" where
  "NewTask random config extra name =
     (let i = TruncateID random; i = (if name \<noteq> [] then name @ ''.'' @ i else i)
      in \<lparr>t_ID = i, t_Name = name,
          t_config = config\<lparr>Labels := (Labels config)(mesos_key ''name'' \<mapsto> name, mesos_key ''task'' \<mapsto> i)\<rparr>,
          t_more = extra\<lparr>cfg_labels := List.insert (mesos_key ''task'') (List.insert (mesos_key ''name'') (cfg_labels extra))\<rparr>,
          t_info = empty_task_info, t_done = False\<rparr>)"

definition Stopped :: "MTask \<Rightarrow> bool" where
  "Stopped t = t_done t"

definition Stop :: "MTask \<Rightarrow> MTask" where
  "Stop t = t\<lparr>t_done := True\<rparr>"

text \<open>What the timer of a task sends when it fires, if anything.\<close>

definition suicide :: "int \<Rightarrow> MTask \<Rightarrow> go_error option" where
  "suicide timeout t =
     (if \<not> Stopped t \<and> ti_SlaveId (t_info t) = None then Some (errorf (''container failed to start after '' @ Duration_String timeout)) else None)"

text \<open>Whether the task is over, the data, and the error.\<close>

definition Monitor :: "TaskStatus \<Rightarrow> bool \<times> string list option \<times> go_error option" where
  "Monitor s =
     (case ts_State s of
        TASK_FINISHED \<Rightarrow> (True, ts_Data s, None)
      | TASK_FAILED \<Rightarrow>
          (True, None, Some (errorf (if Contains (ts_Message s) ''Abnormal executor termination''
             then ts_Message s @ '' : please verify your SWARM_MESOS_USER is correctly set'' else ts_Message s)))
      | TASK_KILLED \<Rightarrow> (True, ts_Data s, None)
      | TASK_LOST \<Rightarrow> (True, None, Some (errorf (ts_Message s)))
      | TASK_ERROR \<Rightarrow> (True, None, Some (errorf (ts_Message s)))
      | _ \<Rightarrow> (False, ts_Data s, None))"

subsection \<open>Agents\<close>

text \<open>The tasks are pointers, named by their identifiers.\<close>

record agent =
  a_id :: string
  offers :: "(string \<times> Offer) list"
  tasks :: "string list"
  a_engine :: Engine

definition newAgent :: "string \<Rightarrow> Engine \<Rightarrow> agent" where
  "newAgent sid e = \<lparr>a_id = sid, offers = [], tasks = [], a_engine = e\<rparr>"

definition agent_addOffer :: "Offer \<Rightarrow> agent \<Rightarrow> agent" where
  "agent_addOffer offer s = s\<lparr>offers := AList.update (o_Id offer) offer (offers s)\<rparr>"

definition agent_addTask :: "string \<Rightarrow> agent \<Rightarrow> agent" where
  "agent_addTask tid s = s\<lparr>tasks := List.insert tid (tasks s)\<rparr>"

definition agent_removeOffer :: "string \<Rightarrow> agent \<Rightarrow> bool \<times> agent" where
  "agent_removeOffer offerID s =
     (map_of (offers s) offerID \<noteq> None, s\<lparr>offers := AList.delete offerID (offers s)\<rparr>)"

definition agent_removeTask :: "string \<Rightarrow> agent \<Rightarrow> bool \<times> agent" where
  "agent_removeTask tid s = (tid \<in> set (tasks s), s\<lparr>tasks := removeAll tid (tasks s)\<rparr>)"

definition agent_empty :: "agent \<Rightarrow> bool" where
  "agent_empty s \<longleftrightarrow> length (offers s) = 0 \<and> length (tasks s) = 0"

subsection \<open>The ports of a task\<close>

lemma collect_simps [simp]:
  "collect f [] = Some []"
  "collect f (x # xs) = (case f x of None \<Rightarrow> None | Some y \<Rightarrow> map_option ((@) y) (collect f xs))"
  by (simp_all add: collect_def option.map_comp o_def split: option.split)

lemma collect_total: "(\<And>x. x \<in> set xs \<Longrightarrow> f x = Some (g x)) \<Longrightarrow> collect f xs = Some (concat (map g xs))"
  by (induction xs) auto

lemma collect_None: "collect f xs = None \<longleftrightarrow> (\<exists>x \<in> set xs. f x = None)"
  by (induction xs) (auto split: option.splits)

lemma count_up_None: "count_up b e = None \<longleftrightarrow> e = - 1"
  by (metis count_up_ends count_up_max option.distinct(1))

text \<open>
  Collecting the ports of an offer ends unless some range of ports ends at the largest \<open>uint64\<close>; then the loop counter wraps
  around and the loop never ends. When it ends, the ports are the numbers of all the ranges, bounds included, in order.
\<close>

lemma offered_ports:
  "getPorts offer =
     (if \<exists>r \<in> set (o_Resources offer). r_Name r = ''ports'' \<and> - 1 \<in> snd ` set (r_Ranges r) then None
      else Some (concat (map (\<lambda>r. concat (map (\<lambda>(b, e). map word_of_nat [unat b ..< Suc (unat e)]) (r_Ranges r)))
        (filter (\<lambda>r. r_Name r = ''ports'') (o_Resources offer)))))"
proof (cases "\<exists>r \<in> set (o_Resources offer). r_Name r = ''ports'' \<and> - 1 \<in> snd ` set (r_Ranges r)")
  case True
  then obtain r b where "r \<in> set (o_Resources offer)" "r_Name r = ''ports''" "(b, - 1) \<in> set (r_Ranges r)" by auto
  then have "getPorts offer = None"
    unfolding getPorts_def collect_None by (intro bexI [of _ r]) (auto simp: collect_None count_up_None intro!: bexI [of _ "(b, - 1)"])
  with True show ?thesis by simp
next
  case False
  have "collect (\<lambda>(b, e). count_up b e) (r_Ranges r) =
      Some (concat (map (\<lambda>(b, e). map word_of_nat [unat b ..< Suc (unat e)]) (r_Ranges r)))"
    if "r \<in> set (filter (\<lambda>r. r_Name r = ''ports'') (o_Resources offer))" for r
  proof (rule collect_total)
    fix x assume "x \<in> set (r_Ranges r)"
    moreover from False that have "- 1 \<notin> snd ` set (r_Ranges r)" by simp
    ultimately have "snd x \<noteq> - 1" by (metis imageI)
    then show "(case x of (b, e) \<Rightarrow> count_up b e) = Some (case x of (b, e) \<Rightarrow> map word_of_nat [unat b ..< Suc (unat e)])"
      by (simp add: split_beta count_up_ends)
  qed
  then have "getPorts offer = Some (concat (map (\<lambda>r. concat (map (\<lambda>(b, e). map word_of_nat [unat b ..< Suc (unat e)]) (r_Ranges r)))
        (filter (\<lambda>r. r_Name r = ''ports'') (o_Resources offer))))"
    unfolding getPorts_def by (rule collect_total)
  with False show ?thesis by simp
qed

definition binding_list :: "PortMap \<Rightarrow> (string \<times> PortBinding) list" where
  "binding_list m = concat (map (\<lambda>(cp, bs). map (Pair cp) bs) m)"

text \<open>The host ports that bindings with a readable container port ask for by number.\<close>

definition fixed_port :: "string \<times> PortBinding \<Rightarrow> 64 word option" where
  "fixed_port = (\<lambda>(cp, b).
     if ParseUint32 (SplitN2 cp ''/'' ! 0) = None \<or> HostPort b = [] then None
     else case ParseUint32 (HostPort b) of None \<Rightarrow> None | Some p \<Rightarrow> if p = 0 then None else Some p)"

lemma bind_ports_flat: "bind_ports m ports = fold (\<lambda>(cp, b). bind_port cp b) (binding_list m) (ports, [], [])"
proof -
  have "fold (\<lambda>(cp, bs). fold (bind_port cp) bs) m s = fold (\<lambda>(cp, b). bind_port cp b) (binding_list m) s" for s
    by (induction m arbitrary: s) (auto simp: binding_list_def fold_map o_def)
  then show ?thesis by (simp add: bind_ports_def)
qed

text \<open>What a run over some bindings has done: \<open>hs\<close> are the host ports bound, \<open>used\<close> the offered ports used up.\<close>

definition bound ::
    "(string \<times> PortBinding) list \<Rightarrow> 64 word list \<times> PortMapping list \<times> Resource list \<Rightarrow>
     64 word list \<times> PortMapping list \<times> Resource list \<Rightarrow> bool" where
  "bound bs = (\<lambda>(ports, mappings, res) (rest, mappings', res').
     \<exists>hs used ms. ports = used @ rest \<and> mappings' = mappings @ ms \<and> res' = res @ map NewPortResource hs \<and>
       map pm_HostPort ms = map ucast hs \<and>
       mset hs = mset (List.map_filter fixed_port bs) + mset (filter (\<lambda>p. p \<noteq> 0) used))"

lemma bound_step: "bound [(cp, b)] s (bind_port cp b s)"
proof -
  obtain ports mappings res where s: "s = (ports, mappings, res)" by (cases s)
  consider "ParseUint32 (SplitN2 cp ''/'' ! 0) = None" | "HostPort b \<noteq> []" "ParseUint32 (SplitN2 cp ''/'' ! 0) \<noteq> None"
    | "HostPort b = []" "ParseUint32 (SplitN2 cp ''/'' ! 0) \<noteq> None" by blast
  then show ?thesis
  proof cases
    case 1
    then show ?thesis by (simp add: s bound_def bind_port_def fixed_port_def map_filter_def)
  next
    case 2
    then show ?thesis
      by (cases "ParseUint32 (HostPort b)")
        (auto simp: s bound_def bind_port_def fixed_port_def host_port_def map_filter_def Let_def)
  next
    case 3
    then obtain c where c: "ParseUint32 (SplitN2 cp ''/'' ! 0) = Some c" by blast
    show ?thesis
    proof (cases ports)
      case Nil
      with 3 c show ?thesis by (simp add: s bound_def bind_port_def fixed_port_def host_port_def map_filter_def Let_def)
    next
      case (Cons p rest)
      show ?thesis
      proof (cases "p = 0")
        case True
        with 3 c Cons show ?thesis
          by (auto simp: s bound_def bind_port_def fixed_port_def host_port_def map_filter_def Let_def intro!: exI [of _ "[0]"])
      next
        case False
        with 3 c Cons show ?thesis
          by (auto simp: s bound_def bind_port_def fixed_port_def host_port_def map_filter_def Let_def
              intro!: exI [of _ "[p]"])
      qed
    qed
  qed
qed

lemma bound_append: "bound bs s t \<Longrightarrow> bound cs t u \<Longrightarrow> bound (bs @ cs) s u"
proof -
  assume "bound bs s t" "bound cs t u"
  moreover obtain p m r p' m' r' p'' m'' r'' where "s = (p, m, r)" "t = (p', m', r')" "u = (p'', m'', r'')"
    by (cases s, cases t, cases u) auto
  ultimately obtain hs used ms hs' used' ms' where
    "p = used @ p'" "m' = m @ ms" "r' = r @ map NewPortResource hs" "map pm_HostPort ms = map ucast hs"
    "mset hs = mset (List.map_filter fixed_port bs) + mset (filter (\<lambda>p. p \<noteq> 0) used)"
    "p' = used' @ p''" "m'' = m' @ ms'" "r'' = r' @ map NewPortResource hs'" "map pm_HostPort ms' = map ucast hs'"
    "mset hs' = mset (List.map_filter fixed_port cs) + mset (filter (\<lambda>p. p \<noteq> 0) used')"
    unfolding bound_def by auto
  then have "bound (bs @ cs) (p, m, r) (p'', m'', r'')"
    unfolding bound_def by (simp add: map_filter_def) (intro exI [of _ "hs @ hs'"], simp)
  with \<open>s = (p, m, r)\<close> \<open>u = (p'', m'', r'')\<close> show ?thesis by simp
qed

lemma bound_fold: "bound bs s (fold (\<lambda>(cp, b). bind_port cp b) bs s)"
proof (induction bs arbitrary: s)
  case Nil
  then show ?case by (cases s) (simp add: bound_def map_filter_def)
next
  case (Cons x bs)
  show ?case
    using bound_append [OF bound_step Cons.IH, of "fst x" "snd x" s] by (simp add: split_beta)
qed

text \<open>
  The ports of a task on a bridge network are accounted for exactly: besides the ports that bindings ask for by
  number, the task uses a prefix of the offered ports, each of them once, in order, and asks Mesos for a resource for
  every port that it maps and for no other. Port number 0 is never mapped.
\<close>

lemma build_ports:
  assumes "Build slaveID os t = Some t'" "bridged (NetworkMode (HostConfig (t_config t)))"
  shows "\<exists>ports used rest hs. collect getPorts os = Some ports \<and> ports = used @ rest \<and>
    map pm_HostPort (ti_PortMappings (t_info t')) = map ucast hs \<and>
    ti_Resources (t_info t') = ti_Resources (t_info t) @ map NewPortResource hs @ task_amounts (t_config t) \<and>
    mset hs = mset (List.map_filter fixed_port (binding_list (PortBindings (HostConfig (t_config t))))) +
      mset (filter (\<lambda>p. p \<noteq> 0) used) \<and> 0 \<notin> set hs"
proof -
  from assms obtain ports where ports: "collect getPorts os = Some ports"
    and t': "ti_PortMappings (t_info t') = fst (snd (bind_ports (PortBindings (HostConfig (t_config t))) ports))"
      "ti_Resources (t_info t') = ti_Resources (t_info t) @
         snd (snd (bind_ports (PortBindings (HostConfig (t_config t))) ports)) @ task_amounts (t_config t)"
    by (auto simp: Build_def Let_def bind_eq_Some_conv split_beta)
  let ?bs = "binding_list (PortBindings (HostConfig (t_config t)))"
  obtain rest ms res where run: "bind_ports (PortBindings (HostConfig (t_config t))) ports = (rest, ms, res)" by (cases "bind_ports (PortBindings (HostConfig (t_config t))) ports")
  with bound_fold [of ?bs "(ports, [], [])"] obtain hs used where
    hs: "ports = used @ rest" "res = map NewPortResource hs" "map pm_HostPort ms = map ucast hs"
      "mset hs = mset (List.map_filter fixed_port ?bs) + mset (filter (\<lambda>p. p \<noteq> 0) used)"
    by (auto simp: bind_ports_flat bound_def)
  have "0 \<notin> set (List.map_filter fixed_port ?bs)" by (auto simp: map_filter_def fixed_port_def split: if_splits option.splits)
  with arg_cong [OF hs(4), of set_mset] have "0 \<notin> set hs" by simp
  with ports t' run hs show ?thesis
    by (intro exI [of _ ports] exI [of _ used] exI [of _ rest] exI [of _ hs] conjI) simp_all
qed

subsection \<open>A task with two ports\<close>

text \<open>
  One binding asks for host port 31000 and one for any port, and the offer starts at 31000: both get the
  same port, because the ports that are asked for by number are not taken out of the offered ones.
\<close>

definition demo_offer :: Offer where
  "demo_offer = \<lparr>o_Id = ''O1'', o_SlaveId = ''S1'', o_Hostname = ''10.0.0.1'',
     o_Resources = [NewScalarResource ''cpus'' 4, NewScalarResource ''mem'' 512,
       \<lparr>r_Name = ''ports'', r_Type = RANGES, r_Scalar = None, r_Ranges = [(31000, 31003)]\<rparr>], o_Attributes = []\<rparr>"

definition demo_mesos_config :: ContainerConfig where
  "demo_mesos_config = zero_config\<lparr>HostConfig := zero_host\<lparr>CPUShares := 2, Memory := 67108864,
     PortBindings := [(''80/tcp'', [\<lparr>HostIP = [], HostPort = ''31000''\<rparr>]), (''81/udp'', [\<lparr>HostIP = [], HostPort = []\<rparr>])]\<rparr>\<rparr>"

definition demo_task :: MTask where
  "demo_task = NewTask ''0123456789abcdef'' demo_mesos_config
     \<lparr>cfg_Hostname = ''h'', cfg_Domainname = ''d'', cfg_Cmd = [''run'', ''-x''], cfg_attached = False, cfg_labels = []\<rparr> ''web''"

lemma demo_task_built:
  "map_option (\<lambda>t. map (\<lambda>m. (pm_HostPort m, pm_ContainerPort m, pm_Protocol m)) (ti_PortMappings (t_info t)))
     (Build ''S1'' [demo_offer] demo_task) = Some [(31000, 80, ''tcp''), (31000, 81, ''udp'')]"
  "t_ID demo_task = ''web.0123456789ab''"
  by code_simp+

lemma build_ports_witness:
  "\<exists>t' ports used rest hs. Build ''S1'' [demo_offer] demo_task = Some t' \<and>
     collect getPorts [demo_offer] = Some ports \<and> ports = used @ rest \<and>
     map pm_HostPort (ti_PortMappings (t_info t')) = map ucast hs \<and>
     ti_Resources (t_info t') = ti_Resources (t_info demo_task) @ map NewPortResource hs @ task_amounts (t_config demo_task) \<and> 0 \<notin> set hs"
proof -
  from demo_task_built(1) obtain t' where "Build ''S1'' [demo_offer] demo_task = Some t'" by auto
  moreover have "bridged (NetworkMode (HostConfig (t_config demo_task)))" by code_simp
  ultimately show ?thesis using build_ports by blast
qed

end
