(* ===== verification/Mesos_Cluster.thy ===== *)
theory Mesos_Cluster
  imports Mesos_Tasks Swarm_Watchdog
begin

section \<open>The Mesos cluster (\<open>cluster/mesos/cluster.go\<close>, \<open>scheduler.go\<close>)\<close>

text \<open>
  The agents with their offers, tasks and engines; the callbacks of the Mesos scheduler driver; the
  launching of tasks against offers; and the operations that the API calls. The driver and the docker daemons are
  parameters over one state \<open>'d\<close>: \<open>drv\<close> launches tasks, declines offers and yields the status messages of a task.

  A task object is a pointer: \<open>heap\<close> holds the objects under their identifiers, and the queue and the
  agents hold identifiers. A message that is sent on the channels of a task to the goroutine that waits for
  its container is recorded in \<open>sent\<close>; that goroutine takes the first one. The blocking of
  a channel without a receiver is the subject of \<open>Mesos_Queue\<close>.
\<close>

subsection \<open>Data\<close>

record 'd Driver =
  LaunchTasks :: "string list \<Rightarrow> MTask \<Rightarrow> int \<Rightarrow> ('d, unit) call"
  DeclineOffer :: "string \<Rightarrow> ('d, unit) call"
  next_status :: "string \<Rightarrow> 'd \<Rightarrow> TaskStatus \<times> 'd"

record MesosCluster =
  dockerEnginePort :: string
  agents :: "(string \<times> agent) list"
  m_scheduler :: Scheduler
  offerTimeout :: int
  refuseTimeout :: int
  taskCreationTimeout :: int
  m_FailureRetry :: int
  pendingTasks :: "string list"
  heap :: "(string \<times> MTask) list"
  sent :: "(string \<times> Container option result) list"
  m_ids :: "nat \<Rightarrow> string"
  m_drawn :: nat

type_synonym 'd mstate = "MesosCluster \<times> 'd"

text \<open>
  \<open>options\<close> are the driver options and \<open>getenv\<close> the environment; \<open>parseDuration\<close> is \<open>time.ParseDuration\<close>; \<open>started\<close> is the outcome of
  creating and starting the driver, which gets the user, the address and the port.
\<close>

definition and_try :: "'a result option \<Rightarrow> ('a \<Rightarrow> 'b result option) \<Rightarrow> 'b result option" where
  "and_try x f = (case x of None \<Rightarrow> None | Some (Inl err) \<Rightarrow> Some (Inl err) | Some (Inr v) \<Rightarrow> f v)"

definition timeout_option ::
    "(string \<Rightarrow> string) \<Rightarrow> (string \<Rightarrow> int result) \<Rightarrow> string list \<Rightarrow> string \<Rightarrow> string \<Rightarrow> int \<Rightarrow> int result option" where
  "timeout_option getenv parseDuration options key var standard = do {
     (v, ok) \<leftarrow> opts_String getenv options key var;
     Some (if ok then parseDuration v else Inr standard) }"

definition binding_address :: "(string \<Rightarrow> string) \<Rightarrow> string list \<Rightarrow> unit result option" where
  "binding_address getenv options = do {
     (address, ok) \<leftarrow> opts_IP getenv options ''mesos.address'' ''SWARM_MESOS_ADDRESS'';
     if ok \<and> address = None then do {
       (v, _) \<leftarrow> opts_String getenv options ''mesos.address'' ''SWARM_MESOS_ADDRESS'';
       Some (Inl (errorf (''invalid IP address for cluster-opt mesos.address: \"'' @ v @ ''\"''))) }
     else Some (Inr ()) }"

definition Mesos_NewCluster ::
    "(string \<Rightarrow> string) \<Rightarrow> (string \<Rightarrow> int result) \<Rightarrow> unit result \<Rightarrow> Scheduler \<Rightarrow> bool \<Rightarrow> string list \<Rightarrow> int \<Rightarrow> (nat \<Rightarrow> string) \<Rightarrow>
     MesosCluster result option" where
  "Mesos_NewCluster getenv parseDuration started sch tls options retry rs =
     (let opt = opts_String getenv options; timeout = timeout_option getenv parseDuration options in
      if opt ''mesos.user'' ''SWARM_MESOS_USER'' = None then None
      else and_try (timeout ''mesos.tasktimeout'' ''SWARM_MESOS_TASK_TIMEOUT'' 5000000000) (\<lambda>ctime.
      if opt ''mesos.port'' ''SWARM_MESOS_PORT'' = None then None
      else and_try (binding_address getenv options) (\<lambda>_.
      if opts_Bool getenv options ''mesos.checkpointfailover'' ''SWARM_MESOS_CHECKPOINT_FAILOVER'' = None then None
      else and_try (timeout ''mesos.offertimeout'' ''SWARM_MESOS_OFFER_TIMEOUT'' 30000000000) (\<lambda>otime.
      and_try (timeout ''mesos.offerrefusetimeout'' ''SWARM_MESOS_OFFER_REFUSE_TIMEOUT'' 5000000000) (\<lambda>rtime.
      and_try (Some started) (\<lambda>_.
      Some (Inr \<lparr>dockerEnginePort = (if tls then ''2376'' else ''2375''), agents = [], m_scheduler = sch,
        offerTimeout = otime, refuseTimeout = rtime, taskCreationTimeout = ctime, m_FailureRetry = retry,
        pendingTasks = [], heap = [], sent = [], m_ids = rs, m_drawn = 0\<rparr>)))))))"

definition the_mesos :: "('d mstate, MesosCluster) op" where
  "the_mesos = read fst"

definition on_mesos :: "(MesosCluster \<Rightarrow> MesosCluster) \<Rightarrow> ('d mstate, unit) op" where
  "on_mesos f = modify (\<lambda>(m, d). (f m, d))"

definition driver_call :: "('d, 'a) call \<Rightarrow> ('d mstate, 'a result) op" where
  "driver_call f = (\<lambda>(m, d). let (r, d') = f d in Some (r, m, d'))"

text \<open>\<open>s.engine.op(...)\<close> for the agent \<open>s\<close> under an identifier; an agent that is gone has a disconnected engine.\<close>

definition at_agent ::
    "(string \<Rightarrow> 'd Api) \<Rightarrow> string \<Rightarrow> ('d Api \<Rightarrow> (Engine \<times> 'd, 'a) op) \<Rightarrow> ('d mstate, 'a) op" where
  "at_agent apis aid f = (\<lambda>(m, d).
     case map_of (agents m) aid of
       None \<Rightarrow> None
     | Some s \<Rightarrow>
         (case f (apis (e_Addr (a_engine s))) (a_engine s, d) of
            None \<Rightarrow> None
          | Some (x, e', d') \<Rightarrow> Some (x, m\<lparr>agents := AList.update aid (s\<lparr>a_engine := e'\<rparr>) (agents m)\<rparr>, d')))"

definition of_agent ::
    "(string \<Rightarrow> 'd Api) \<Rightarrow> string \<Rightarrow> ('d Api \<Rightarrow> (Engine \<times> 'd, 'a result) op) \<Rightarrow> ('d mstate, 'a result) op" where
  "of_agent apis aid f = (\<lambda>(m, d).
     case map_of (agents m) aid of None \<Rightarrow> Some (Inl no_engine, m, d) | Some _ \<Rightarrow> at_agent apis aid f (m, d))"

text \<open>The agent whose engine an object points at.\<close>

definition owner_agent :: "EngineSpec \<Rightarrow> MesosCluster \<Rightarrow> string" where
  "owner_agent spec m =
     (case first_such (\<lambda>(_, s). e_ID (a_engine s) = e_ID spec \<and> e_Addr (a_engine s) = e_Addr spec) (agents m) of
        None \<Rightarrow> [] | Some (aid, _) \<Rightarrow> aid)"

definition owned ::
    "(string \<Rightarrow> 'd Api) \<Rightarrow> EngineSpec \<Rightarrow> ('d Api \<Rightarrow> (Engine \<times> 'd, 'a result) op) \<Rightarrow> ('d mstate, 'a result) op" where
  "owned apis spec f = and_then the_mesos (\<lambda>m. of_agent apis (owner_agent spec m) f)"

definition send :: "string \<Rightarrow> Container option result \<Rightarrow> MesosCluster \<Rightarrow> MesosCluster" where
  "send tid msg m = m\<lparr>sent := sent m @ [(tid, msg)]\<rparr>"

definition at_task :: "string \<Rightarrow> (MTask \<Rightarrow> MTask) \<Rightarrow> MesosCluster \<Rightarrow> MesosCluster" where
  "at_task tid f m = m\<lparr>heap := map_ran (\<lambda>i t. if i = tid then f t else t) (heap m)\<rparr>"

definition at_agents :: "string \<Rightarrow> (agent \<Rightarrow> agent) \<Rightarrow> MesosCluster \<Rightarrow> MesosCluster" where
  "at_agents aid f m = m\<lparr>agents := map_ran (\<lambda>i s. if i = aid then f s else s) (agents m)\<rparr>"

subsection \<open>Offers\<close>

definition Mesos_addOffer :: "Offer \<Rightarrow> MesosCluster \<Rightarrow> MesosCluster" where
  "Mesos_addOffer offer = at_agents (o_SlaveId offer) (agent_addOffer offer)"

text \<open>An agent without offers and tasks is disconnected and forgotten.\<close>

definition Mesos_removeOffer :: "Offer \<Rightarrow> MesosCluster \<Rightarrow> (bool \<times> MesosCluster) option" where
  "Mesos_removeOffer offer m =
     (case map_of (agents m) (o_SlaveId offer) of
        None \<Rightarrow> Some (False, m)
      | Some s \<Rightarrow>
          (let (found, s') = agent_removeOffer (o_Id offer) s in
           if agent_empty s' then
             (case Disconnect (a_engine s') of
                None \<Rightarrow> None
              | Some _ \<Rightarrow> Some (found, m\<lparr>agents := AList.delete (o_SlaveId offer) (agents m)\<rparr>))
           else Some (found, m\<lparr>agents := AList.update (o_SlaveId offer) s' (agents m)\<rparr>)))"

text \<open>The goroutine that \<open>addOffer\<close> starts, when the time of the offer is up.\<close>

definition offer_expired :: "'d Driver \<Rightarrow> Offer \<Rightarrow> ('d mstate, unit) op" where
  "offer_expired drv offer = (\<lambda>(m, d).
     case Mesos_removeOffer offer m of
       None \<Rightarrow> None
     | Some (found, m') \<Rightarrow> Some ((), m', if found then snd (DeclineOffer drv (o_Id offer) d) else d))"

primrec remove_offers :: "Offer list \<Rightarrow> MesosCluster \<Rightarrow> MesosCluster option" where
  "remove_offers [] m = Some m"
| "remove_offers (offer # os) m = do { (_, m') \<leftarrow> Mesos_removeOffer offer m; remove_offers os m' }"

definition remove_all_offers :: "Offer list \<Rightarrow> ('d mstate, unit) op" where
  "remove_all_offers os = (\<lambda>(m, d). map_option (\<lambda>m'. ((), m', d)) (remove_offers os m))"

subsection \<open>What the cluster lists\<close>

definition Mesos_Images :: "MesosCluster \<Rightarrow> Image list" where
  "Mesos_Images m = concat (map (\<lambda>(_, s). Engine_Images (a_engine s)) (agents m))"

definition Mesos_Image :: "MesosCluster \<Rightarrow> string \<Rightarrow> Image option" where
  "Mesos_Image m q =
     (if length q = 0 then None
      else fold (\<lambda>(_, s) r. case r of Some i \<Rightarrow> Some i | None \<Rightarrow> Engine_Image (a_engine s) q) (agents m) None)"

definition Mesos_Networks :: "MesosCluster \<Rightarrow> Network list" where
  "Mesos_Networks m = concat (map (\<lambda>(_, s). Engine_Networks (a_engine s)) (agents m))"

text \<open>The name that the user gave goes in front; the Mesos containerizer overrides it. No names at all is a panic.\<close>

definition formatContainer :: "Container \<Rightarrow> Container option" where
  "formatContainer k =
     (case Labels (c_Config k) (mesos_key ''name'') of
        None \<Rightarrow> Some k
      | Some name \<Rightarrow>
          if name = [] then Some k
          else do { first \<leftarrow> index (Names k) 0;
                    Some (if first \<noteq> CHR ''/'' # name then k\<lparr>Names := (CHR ''/'' # name) # Names k\<rparr> else k) })"

text \<open>
  \<open>formatContainer\<close> changes the container that the engine lists, so listing the containers changes the
  engines; the next refresh of an engine undoes it.
\<close>

definition has_task_label :: "Container \<Rightarrow> bool" where
  "has_task_label k \<longleftrightarrow> Labels (c_Config k) (mesos_key ''task'') \<noteq> None"

definition format_engine :: "Engine \<Rightarrow> Engine option" where
  "format_engine e = do {
     cs \<leftarrow> those (map (\<lambda>(i, k). map_option (Pair i) (if has_task_label k then formatContainer k else Some k)) (containers e));
     Some (e\<lparr>containers := cs\<rparr>) }"

definition format_agents :: "MesosCluster \<Rightarrow> MesosCluster option" where
  "format_agents m = do {
     as \<leftarrow> those (map (\<lambda>(i, s). map_option (\<lambda>e. (i, s\<lparr>a_engine := e\<rparr>)) (format_engine (a_engine s))) (agents m));
     Some (m\<lparr>agents := as\<rparr>) }"

definition Mesos_Containers :: "MesosCluster \<Rightarrow> (Containers \<times> MesosCluster) option" where
  "Mesos_Containers m = do {
     m' \<leftarrow> format_agents m;
     Some (filter has_task_label (concat (map (\<lambda>(_, s). Engine_Containers (a_engine s)) (agents m'))), m') }"

definition Mesos_Container :: "MesosCluster \<Rightarrow> string \<Rightarrow> (Container option \<times> MesosCluster) option" where
  "Mesos_Container m q =
     (if length q = 0 then Some (None, m)
      else do { (ks, m') \<leftarrow> Mesos_Containers m;
                (case Containers_Get ks q of
                   None \<Rightarrow> Some (None, m')
                 | Some k \<Rightarrow> do { k' \<leftarrow> formatContainer k; Some (Some k', m') }) })"

definition Mesos_checkNameUniqueness :: "MesosCluster \<Rightarrow> string \<Rightarrow> bool" where
  "Mesos_checkNameUniqueness m name \<longleftrightarrow>
     length name = 0 \<or>
     (\<not> list_ex (\<lambda>(_, s). list_ex (\<lambda>k. list_ex (\<lambda>cname. cname = name \<or> cname = CHR ''/'' # name) (Names k))
          (Engine_Containers (a_engine s))) (agents m) \<and>
      \<not> list_ex (\<lambda>tid. case map_of (heap m) tid of
            None \<Rightarrow> False
          | Some t \<Rightarrow> (case Labels (t_config t) (mesos_key ''name'') of
                None \<Rightarrow> False | Some tname \<Rightarrow> tname = name \<or> tname = CHR ''/'' # name)) (pendingTasks m))"

definition offered_cpus :: "agent \<Rightarrow> int option" where
  "offered_cpus s = map_option f64_to_int64 (sumScalarResourceValue (map snd (offers s)) ''cpus'')"

definition offered_memory :: "agent \<Rightarrow> int option" where
  "offered_memory s =
     map_option (\<lambda>x. i64 (i64 (f64_to_int64 x * 1024) * 1024)) (sumScalarResourceValue (map snd (offers s)) ''mem'')"

text \<open>A node has the resources that its agent offers at the moment, none of them in use.\<close>

definition agent_node :: "agent \<Rightarrow> Node option" where
  "agent_node s = do {
     cpus \<leftarrow> offered_cpus s;
     mem \<leftarrow> offered_memory s;
     Some ((NewNode (a_engine s))\<lparr>nd_ID := a_id s, TotalCpus := cpus, UsedCpus := 0, TotalMemory := mem, UsedMemory := 0\<rparr>) }"

definition Mesos_listNodes :: "MesosCluster \<Rightarrow> Node list option" where
  "Mesos_listNodes m = those (map (\<lambda>(_, s). agent_node s) (agents m))"

definition listOffers :: "MesosCluster \<Rightarrow> Offer list" where
  "listOffers m = concat (map (\<lambda>(_, s). map snd (offers s)) (agents m))"

definition Mesos_TotalMemory :: "MesosCluster \<Rightarrow> int option" where
  "Mesos_TotalMemory m =
     fold (\<lambda>(_, s) acc. do { t \<leftarrow> acc; n \<leftarrow> offered_memory s; Some (i64 (t + n)) }) (agents m) (Some 0)"

definition Mesos_TotalCpus :: "MesosCluster \<Rightarrow> int option" where
  "Mesos_TotalCpus m =
     fold (\<lambda>(_, s) acc. do { t \<leftarrow> acc; n \<leftarrow> offered_cpus s; Some (i64 (t + n)) }) (agents m) (Some 0)"

subsection \<open>The queue of waiting tasks (\<open>task/tasks.go\<close>)\<close>

text \<open>\<open>launch\<close> is the interface \<open>launcher\<close>: whether the task is dealt with, be it that it failed.\<close>

definition Tasks_remove :: "string list \<Rightarrow> MesosCluster \<Rightarrow> MesosCluster" where
  "Tasks_remove tids m =
     fold (\<lambda>tid m. (at_task tid Stop m)\<lparr>pendingTasks := removeAll tid (pendingTasks m)\<rparr>) tids m"

text \<open>The part of \<open>Add\<close> under the lock of the queue.\<close>

definition Tasks_enqueue :: "string \<Rightarrow> ('d mstate, unit) op" where
  "Tasks_enqueue tid = on_mesos (\<lambda>m. m\<lparr>pendingTasks := List.insert tid (pendingTasks m)\<rparr>)"

definition Tasks_Add :: "(string \<Rightarrow> ('d mstate, bool) op) \<Rightarrow> string \<Rightarrow> ('d mstate, unit) op" where
  "Tasks_Add launch tid = and_then (launch tid) (\<lambda>b. if \<not> b then Tasks_enqueue tid else ret ())"

text \<open>
  \<open>Process\<close>, under the lock: the body of its loop, what follows the loop, and the whole. The queue is a Go map, which
  is ranged over in an arbitrary order; \<open>order\<close> is that order, some arrangement of the waiting tasks.
\<close>

definition process_one :: "(string \<Rightarrow> ('s, bool) op) \<Rightarrow> string \<Rightarrow> string list \<Rightarrow> ('s, string list) op" where
  "process_one launch tid toRemove = and_then (launch tid) (\<lambda>b. ret (if b then toRemove @ [tid] else toRemove))"

definition process_end :: "string list \<Rightarrow> ('d mstate, unit) op" where
  "process_end toRemove = on_mesos (Tasks_remove toRemove)"

definition Tasks_Process :: "string list \<Rightarrow> (string \<Rightarrow> ('d mstate, bool) op) \<Rightarrow> ('d mstate, unit) op" where
  "Tasks_Process order launch = and_then (fold_op (process_one launch) order []) process_end"

subsection \<open>Launching a task\<close>

text \<open>
  \<open>LaunchTask\<close> up to the first status message: the choice of the agent, the call of the driver
  and the removal of the offers. It is one step here; in the source the nodes are chosen under the lock of the
  scheduler and the task is built under that of the cluster, and offers that come or go between the two are not
  represented. The result is \<open>None\<close> when no node can take the task, which then
  waits; \<open>Some None\<close> when the launch failed and the error was sent; otherwise the agent.
\<close>

definition launch_on ::
    "'d Driver \<Rightarrow> string \<Rightarrow> MTask \<Rightarrow> agent \<Rightarrow> ('d mstate, string option option) op" where
  "launch_on drv aid t s =
     or_panic (Build aid (map snd (offers s)) t) (\<lambda>t'.
     and_then (on_mesos (at_task (t_ID t) (\<lambda>_. t'))) (\<lambda>_.
     and_then the_mesos (\<lambda>m.
     and_then (driver_call (LaunchTasks drv (map o_Id (map snd (offers s))) t' (refuseTimeout m))) (\<lambda>r. case r of
       Inl err \<Rightarrow>
         and_then (remove_all_offers (map snd (offers s))) (\<lambda>_.
         and_then (on_mesos (send (t_ID t) (Inl err))) (\<lambda>_. ret (Some None)))
     | Inr _ \<Rightarrow>
         and_then (on_mesos (at_agents aid (agent_addTask (t_ID t)))) (\<lambda>_.
         and_then (remove_all_offers (map snd (offers s))) (\<lambda>_. ret (Some (Some aid))))))))"

definition no_agent_error :: "string \<Rightarrow> go_error" where
  "no_agent_error aid = errorf (''Unable to create on agent '' @ quoted aid)"

definition launch_section :: "'d Driver \<Rightarrow> string \<Rightarrow> ('d mstate, string option option) op" where
  "launch_section drv tid =
     and_then the_mesos (\<lambda>m.
     or_panic (map_of (heap m) tid) (\<lambda>t.
     or_panic (Mesos_listNodes m) (\<lambda>nodes.
     or_panic (SelectNodesForContainer (m_scheduler m) nodes (t_config t)) (\<lambda>r. case r of
       Inl _ \<Rightarrow> ret None
     | Inr chosen \<Rightarrow>
         or_panic (index chosen 0) (\<lambda>n.
         case map_of (agents m) (nd_ID n) of
           None \<Rightarrow> and_then (on_mesos (send tid (Inl (no_agent_error (nd_ID n))))) (\<lambda>_. ret (Some None))
         | Some s \<Rightarrow> launch_on drv (nd_ID n) t s)))))"

text \<open>A message to a goroutine that gave up is not sent.\<close>

definition answer :: "string \<Rightarrow> Container option result \<Rightarrow> MesosCluster \<Rightarrow> MesosCluster" where
  "answer tid msg m =
     (case map_of (heap m) tid of
        None \<Rightarrow> m
      | Some t \<Rightarrow> if \<not> Stopped t then send tid msg m else m)"

definition found_by_label :: "string \<Rightarrow> string \<Rightarrow> MesosCluster \<Rightarrow> Container option result" where
  "found_by_label aid tid m =
     (case map_of (agents m) aid of
        None \<Rightarrow> Inl (errorf ''Container failed to create'')
      | Some s \<Rightarrow>
          (case first_such (\<lambda>k. Labels (c_Config k) (mesos_key ''task'') = Some tid) (Engine_Containers (a_engine s)) of
             Some k \<Rightarrow> Inr (Some k)
           | None \<Rightarrow> Inl (errorf ''Container failed to create'')))"

definition find_by_label ::
    "(string \<Rightarrow> 'd Api) \<Rightarrow> string \<Rightarrow> string \<Rightarrow> ('d mstate, unit) op" where
  "find_by_label apis aid tid =
     and_then (of_agent apis aid (\<lambda>api. RefreshContainers api True)) (\<lambda>_.
     on_mesos (\<lambda>m. answer tid (found_by_label aid tid m) m))"

text \<open>The rest of \<open>LaunchTask\<close>, after a status message.\<close>

definition after_status ::
    "(string \<Rightarrow> 'd Api) \<Rightarrow> string \<Rightarrow> string \<Rightarrow> TaskStatus \<Rightarrow> ('d mstate, unit) op" where
  "after_status apis aid tid status =
     (case Monitor status of
        (_, _, Some err) \<Rightarrow>
          on_mesos (\<lambda>m. send tid (Inl err) (at_agents aid (\<lambda>s. snd (agent_removeTask tid s)) m))
      | (_, data, None) \<Rightarrow>
          (case data of
             Some [cid] \<Rightarrow>
               and_then (of_agent apis aid (\<lambda>api. refreshContainer api cid True)) (\<lambda>r. case r of
                 Inr k \<Rightarrow> on_mesos (answer tid (Inr k))
               | Inl _ \<Rightarrow> find_by_label apis aid tid)
           | _ \<Rightarrow> find_by_label apis aid tid))"

definition LaunchTask :: "(string \<Rightarrow> 'd Api) \<Rightarrow> 'd Driver \<Rightarrow> string \<Rightarrow> ('d mstate, bool) op" where
  "LaunchTask apis drv tid =
     and_then (launch_section drv tid) (\<lambda>r. case r of
       None \<Rightarrow> ret False
     | Some None \<Rightarrow> ret True
     | Some (Some aid) \<Rightarrow>
         and_then (\<lambda>(m, d). let (status, d') = next_status drv tid d in Some (status, m, d')) (\<lambda>status.
         and_then (after_status apis aid tid status) (\<lambda>_. ret True)))"

subsection \<open>Callbacks of the driver\<close>

definition docker_port :: "string \<Rightarrow> Attribute list \<Rightarrow> string" where
  "docker_port port ats =
     fold (\<lambda>a p. if at_Name a = ''docker_port'' then
          (case at_Type a of SCALAR \<Rightarrow> Itoa (f64_to_int64 (at_Scalar a)) | TEXT \<Rightarrow> at_Text a | _ \<Rightarrow> p) else p) ats port"

text \<open>One offer; the engine of a new agent is connected first, and an offer without an agent is dropped.\<close>

definition resource_offer ::
    "(string \<Rightarrow> 'd Api) \<Rightarrow> (string \<Rightarrow> ('d, string) call) \<Rightarrow> (string \<Rightarrow> ('d, unit) call) \<Rightarrow> Offer \<Rightarrow> ('d mstate, unit) op" where
  "resource_offer apis resolve new_client offer = (\<lambda>(m, d).
     case map_of (agents m) (o_SlaveId offer) of
       Some _ \<Rightarrow> Some ((), Mesos_addOffer offer m, d)
     | None \<Rightarrow>
         (let addr = o_Hostname offer @ '':'' @ docker_port (dockerEnginePort m) (o_Attributes offer);
              e0 = NewEngine (clock (apis addr) d) addr 0 (m_FailureRetry m)
          in case Connect (apis addr) resolve new_client (e0, d) of
               None \<Rightarrow> None
             | Some (Inl _, _, d') \<Rightarrow> Some ((), Mesos_addOffer offer m, d')
             | Some (Inr _, e, d') \<Rightarrow>
                 Some ((), Mesos_addOffer offer (m\<lparr>agents := AList.update (o_SlaveId offer)
                   (newAgent (o_SlaveId offer) (snd (RegisterEventHandler (ValidationComplete e)))) (agents m)\<rparr>), d')))"

text \<open>The processing of the queue that the callback starts is a step of its own.\<close>

definition ResourceOffers ::
    "(string \<Rightarrow> 'd Api) \<Rightarrow> (string \<Rightarrow> ('d, string) call) \<Rightarrow> (string \<Rightarrow> ('d, unit) call) \<Rightarrow> Offer list \<Rightarrow> ('d mstate, unit) op" where
  "ResourceOffers apis resolve new_client os = fold_op (\<lambda>offer _. resource_offer apis resolve new_client offer) os ()"

definition OfferRescinded :: "string \<Rightarrow> ('d mstate, unit) op" where
  "OfferRescinded offerID = (\<lambda>(m, d).
     case first_such (\<lambda>(_, s). map_of (offers s) offerID \<noteq> None) (agents m) of
       None \<Rightarrow> Some ((), m, d)
     | Some (_, s) \<Rightarrow>
         (case map_of (offers s) offerID of
            None \<Rightarrow> Some ((), m, d)
          | Some offer \<Rightarrow> map_option (\<lambda>(_, m'). ((), m', d)) (Mesos_removeOffer offer m)))"

subsection \<open>Containers\<close>

definition errResourcesNeeded :: go_error where
  "errResourcesNeeded = errorf ''resources constraints (-c and/or -m) are required by mesos''"

definition errNotSupported :: go_error where
  "errNotSupported = errorf ''not supported with mesos''"

text \<open>The two texts differ by a comma.\<close>

definition mesos_conflict :: "string \<Rightarrow> string \<Rightarrow> go_error" where
  "mesos_conflict comma name = errorf (''Conflict: The name '' @ name @ '' is already assigned'' @ comma @ '' or in pending tasks. You have to delete (or rename) that container to be able to assign '' @ name @ '' to a container again.'')"

text \<open>\<open>CreateContainer\<close> up to the start of the goroutine that adds the task.\<close>

definition create_task :: "ContainerConfig \<Rightarrow> TaskConfig \<Rightarrow> string \<Rightarrow> ('d mstate, string result) op" where
  "create_task config extra name = (\<lambda>(m, d).
     if Memory (HostConfig config) = 0 \<and> CPUShares (HostConfig config) = 0 then Some (Inl errResourcesNeeded, m, d)
     else if \<not> Mesos_checkNameUniqueness m name then Some (Inl (mesos_conflict [] name), m, d)
     else
       let t = NewTask (m_ids m (m_drawn m)) config extra name
       in Some (Inr (t_ID t), m\<lparr>m_drawn := Suc (m_drawn m), heap := AList.update (t_ID t) t (heap m)\<rparr>, d))"

text \<open>The timer of a task fires.\<close>

definition timer_fires :: "string \<Rightarrow> ('d mstate, unit) op" where
  "timer_fires tid = on_mesos (\<lambda>m.
     case map_of (heap m) tid of
       None \<Rightarrow> m
     | Some t \<Rightarrow> (case suicide (taskCreationTimeout m) t of None \<Rightarrow> m | Some err \<Rightarrow> send tid (Inl err) m))"

definition change_container :: "Container \<Rightarrow> (Container \<Rightarrow> Container) \<Rightarrow> MesosCluster \<Rightarrow> MesosCluster" where
  "change_container k f m =
     at_agents (owner_agent (c_Engine k) m) (\<lambda>s. s\<lparr>a_engine := (a_engine s)\<lparr>containers :=
       map_ran (\<lambda>i k'. if i = c_ID k then f k' else k') (containers (a_engine s))\<rparr>\<rparr>) m"

text \<open>The rest of \<open>CreateContainer\<close>; \<open>None\<close> while there is no answer.\<close>

definition take_answer :: "string \<Rightarrow> ('d mstate, Container option result option) op" where
  "take_answer tid =
     and_then the_mesos (\<lambda>m.
     case first_such (\<lambda>(i, _). i = tid) (sent m) of
       None \<Rightarrow> ret None
     | Some (_, Inl err) \<Rightarrow> and_then (on_mesos (Tasks_remove [tid])) (\<lambda>_. ret (Some (Inl err)))
     | Some (_, Inr None) \<Rightarrow> ret (Some (Inr None))
     | Some (_, Inr (Some k)) \<Rightarrow>
         or_panic (formatContainer k) (\<lambda>k'.
         and_then (on_mesos (change_container k (\<lambda>c. c\<lparr>Names := Names k'\<rparr>))) (\<lambda>_. ret (Some (Inr (Some k'))))))"

text \<open>A creation during which nothing else happens: an unanswered task waits for its timer.\<close>

definition Mesos_CreateContainer ::
    "(string \<Rightarrow> 'd Api) \<Rightarrow> 'd Driver \<Rightarrow> ContainerConfig \<Rightarrow> TaskConfig \<Rightarrow> string \<Rightarrow> ('d mstate, Container option result option) op" where
  "Mesos_CreateContainer apis drv config extra name =
     and_then (create_task config extra name) (\<lambda>r. case r of
       Inl err \<Rightarrow> ret (Some (Inl err))
     | Inr tid \<Rightarrow>
         and_then (Tasks_Add (LaunchTask apis drv) tid) (\<lambda>_.
         and_then (take_answer tid) (\<lambda>a. case a of
           Some x \<Rightarrow> ret (Some x)
         | None \<Rightarrow> and_then (timer_fires tid) (\<lambda>_. take_answer tid))))"

definition Mesos_StartContainer ::
    "(string \<Rightarrow> 'd Api) \<Rightarrow> Container \<Rightarrow> HostConfig option \<Rightarrow> ('d mstate, unit result) op" where
  "Mesos_StartContainer apis k h = (\<lambda>(m, d).
     if i64 (clock (apis (e_Addr (c_Engine k))) d div 1000000000 - Created k) > 1 \<or>
        Labels (c_Config k) (mesos_key ''detach'') \<noteq> Some ''true''
     then owned apis (c_Engine k) (\<lambda>api. StartContainer api (c_ID k) h) (m, d)
     else Some (Inr (), m, d))"

definition Mesos_RemoveContainer :: "(string \<Rightarrow> 'd Api) \<Rightarrow> Container \<Rightarrow> bool \<Rightarrow> bool \<Rightarrow> ('d mstate, unit result) op" where
  "Mesos_RemoveContainer apis k force vols = owned apis (c_Engine k) (\<lambda>api. RemoveContainer api k force vols)"

text \<open>The new name is kept in a label of the container in memory.\<close>

definition Mesos_RenameContainer :: "Container \<Rightarrow> string \<Rightarrow> ('d mstate, unit result) op" where
  "Mesos_RenameContainer k newName =
     and_then the_mesos (\<lambda>m.
     if \<not> Mesos_checkNameUniqueness m newName then ret (Inl (mesos_conflict '','' newName))
     else and_then (on_mesos (change_container k (\<lambda>c. c\<lparr>c_Config := (c_Config c)\<lparr>Labels :=
            (Labels (c_Config c))(mesos_key ''name'' \<mapsto> newName)\<rparr>\<rparr>))) (\<lambda>_. ret (Inr ())))"

subsection \<open>Networks and images\<close>

definition refreshNetworks :: "(string \<Rightarrow> 'd Api) \<Rightarrow> ('d mstate, unit) op" where
  "refreshNetworks apis =
     and_then the_mesos (\<lambda>m. fold_op (\<lambda>aid _. quiet (at_agent apis aid RefreshNetworks)) (map fst (agents m)) ())"

definition Mesos_CreateNetwork :: "(string \<Rightarrow> 'd Api) \<Rightarrow> string \<Rightarrow> string \<Rightarrow> ('d mstate, string result) op" where
  "Mesos_CreateNetwork apis name request =
     (let parts = SplitN2 name ''/'';
          name = (if length parts = 2 then parts ! 1 else name);
          config = (if length parts = 2 then node_config (parts ! 0) else zero_config)
      in and_then the_mesos (\<lambda>m.
         or_panic (Mesos_listNodes m) (\<lambda>nodes.
         or_panic (SelectNodesForContainer (m_scheduler m) nodes config) (\<lambda>r. case r of
           Inl err \<Rightarrow> ret (Inl err)
         | Inr chosen \<Rightarrow>
             or_panic (index chosen 0) (\<lambda>n.
             if map_of (agents m) (nd_ID n) = None
             then ret (Inl (errorf (''Unable to create network on agent '' @ quoted (nd_ID n))))
             else and_then (at_agent apis (nd_ID n) (\<lambda>api. CreateNetwork api name request)) (\<lambda>resp.
                  and_then (refreshNetworks apis) (\<lambda>_. ret resp)))))))"

definition Mesos_RemoveNetwork :: "(string \<Rightarrow> 'd Api) \<Rightarrow> Network \<Rightarrow> ('d mstate, unit result) op" where
  "Mesos_RemoveNetwork apis n =
     and_then (owned apis (n_Engine n) (\<lambda>api. RemoveNetwork api n)) (\<lambda>r.
     and_then (refreshNetworks apis) (\<lambda>_. ret r))"

definition Mesos_RANDOMENGINE :: "MesosCluster \<Rightarrow> Engine result option" where
  "Mesos_RANDOMENGINE m = do {
     nodes \<leftarrow> Mesos_listNodes m;
     r \<leftarrow> SelectNodesForContainer (m_scheduler m) nodes zero_config;
     (case r of
        Inl err \<Rightarrow> Some (Inl err)
      | Inr chosen \<Rightarrow> do {
          n \<leftarrow> index chosen 0;
          s \<leftarrow> map_of (agents m) (nd_ID n);
          Some (Inr (a_engine s)) }) }"

text \<open>The output that is copied to the client, and the error. An error of the copy leaves what was copied before.\<close>

definition Mesos_BuildImage ::
    "(string \<Rightarrow> 'd Api) \<Rightarrow> string \<Rightarrow> ImageBuildOptions \<Rightarrow> ('d mstate, string \<times> go_error option) op" where
  "Mesos_BuildImage apis buildContext buildImage =
     and_then the_mesos (\<lambda>m.
     or_panic (Mesos_listNodes m) (\<lambda>nodes.
     or_panic (SelectNodesForContainer (m_scheduler m) nodes
         (zero_config\<lparr>HostConfig := zero_host\<lparr>CPUShares := bo_CPUShares buildImage, Memory := bo_Memory buildImage\<rparr>\<rparr>)) (\<lambda>r. case r of
       Inl err \<Rightarrow> ret ([], Some err)
     | Inr chosen \<Rightarrow>
         or_panic (index chosen 0) (\<lambda>n.
         and_then (at_agent apis (nd_ID n) (\<lambda>api. BuildImage api buildContext buildImage)) (\<lambda>reader. case reader of
           Inl err \<Rightarrow> ret ([], Some err)
         | Inr (out, copy_err) \<Rightarrow>
             (case copy_err of
                Some err \<Rightarrow> ret (out, Some err)
              | None \<Rightarrow> and_then (at_agent apis (nd_ID n) RefreshImages) (\<lambda>_. ret (out, None))))))))"

end
