(* ===== verification/Mesos_Invariants.thy ===== *)
theory Mesos_Invariants
  imports Mesos_Cluster
begin

section \<open>What the Mesos cluster guarantees\<close>

text \<open>
  The invariant of the agents, the task objects and the queue; what a launch does, end to end from the offers through the
  scheduler to the driver; and the transition system of the manager on Mesos. The contract of the interface
  \<open>launcher\<close> that the queue uses is the locale \<open>launcher\<close>.
\<close>

subsection \<open>The invariant\<close>

text \<open>
  An agent is stored under its identifier, offers under theirs and with the agent they come from; every task that an agent
  runs was built for that agent, so that no task runs on two agents.
\<close>

definition agent_ok :: "(string \<times> MTask) list \<Rightarrow> string \<Rightarrow> agent \<Rightarrow> bool" where
  "agent_ok h i s \<longleftrightarrow>
     a_id s = i \<and> engine_ok (a_engine s) \<and> distinct (map fst (offers s)) \<and>
     (\<forall>(k, offer) \<in> set (offers s). o_Id offer = k \<and> o_SlaveId offer = i) \<and>
     distinct (tasks s) \<and> (\<forall>tid \<in> set (tasks s). \<exists>t. map_of h tid = Some t \<and> ti_SlaveId (t_info t) = Some i)"

definition mesos_ok :: "MesosCluster \<Rightarrow> bool" where
  "mesos_ok m \<longleftrightarrow>
     distinct (map fst (agents m)) \<and> (\<forall>(i, s) \<in> set (agents m). agent_ok (heap m) i s) \<and>
     distinct (map fst (heap m)) \<and> (\<forall>(tid, t) \<in> set (heap m). t_ID t = tid) \<and>
     distinct (pendingTasks m) \<and> set (pendingTasks m) \<subseteq> fst ` set (heap m) \<and> 0 < m_FailureRetry m \<and> m_FailureRetry m < 2 ^ 63"

definition mesos_inv :: "'d mstate \<Rightarrow> bool" where
  "mesos_inv s \<longleftrightarrow> mesos_ok (fst s)"

lemma agent_lookup: "mesos_ok m \<Longrightarrow> map_of (agents m) i = Some s \<Longrightarrow> agent_ok (heap m) i s"
  by (auto simp: mesos_ok_def dest: map_of_SomeD)

lemma task_lookup: "mesos_ok m \<Longrightarrow> map_of (heap m) tid = Some t \<Longrightarrow> t_ID t = tid"
  by (auto simp: mesos_ok_def dest: map_of_SomeD)

lemma mesos_ok_agents:
  assumes "mesos_ok m" "distinct (map fst as)" "\<And>i s. (i, s) \<in> set as \<Longrightarrow> agent_ok (heap m) i s"
  shows "mesos_ok (m\<lparr>agents := as\<rparr>)"
  using assms by (auto simp: mesos_ok_def)

lemma mesos_ok_update:
  assumes "mesos_ok m" "agent_ok (heap m) i s"
  shows "mesos_ok (m\<lparr>agents := AList.update i s (agents m)\<rparr>)"
proof (rule mesos_ok_agents [OF assms(1)])
  show "agent_ok (heap m) j s'" if "(j, s') \<in> set (AList.update i s (agents m))" for j s'
    using alist_mem_update [OF _ that] assms by (auto simp: mesos_ok_def)
qed (use assms(1) in \<open>simp add: mesos_ok_def\<close>)

lemma mesos_ok_delete: "mesos_ok m \<Longrightarrow> mesos_ok (m\<lparr>agents := AList.delete i (agents m)\<rparr>)"
  by (rule mesos_ok_agents) (auto simp: mesos_ok_def)

lemma map_ran_keys [simp]: "map fst (AList.map_ran f al) = map fst al"
  by (induction al) auto

lemma mem_map_ran: "(k, v) \<in> set (AList.map_ran f al) \<longleftrightarrow> (\<exists>w. (k, w) \<in> set al \<and> v = f k w)"
  by (induction al) auto

lemma at_agents_ok:
  assumes "mesos_ok m" "\<And>s. map_of (agents m) i = Some s \<Longrightarrow> agent_ok (heap m) i s \<Longrightarrow> agent_ok (heap m) i (f s)"
  shows "mesos_ok (at_agents i f m)"
  unfolding at_agents_def
proof (rule mesos_ok_agents [OF assms(1)])
  show "agent_ok (heap m) j s'" if "(j, s') \<in> set (AList.map_ran (\<lambda>k s. if k = i then f s else s) (agents m))" for j s'
  proof -
    from that obtain w where w: "(j, w) \<in> set (agents m)" "s' = (if j = i then f w else w)" by (auto simp: mem_map_ran)
    with assms(1) have look: "map_of (agents m) j = Some w" by (simp add: mesos_ok_def)
    from agent_lookup [OF assms(1) look] assms(2) look w(2) show ?thesis by (cases "j = i") simp_all
  qed
qed (use assms(1) in \<open>simp add: mesos_ok_def\<close>)

lemma agent_ok_engine: "agent_ok h i s \<Longrightarrow> engine_ok e \<Longrightarrow> agent_ok h i (s\<lparr>a_engine := e\<rparr>)"
  by (simp add: agent_ok_def)

lemma agent_ok_heap:
  assumes "agent_ok h i s" "\<And>tid t. tid \<in> set (tasks s) \<Longrightarrow> map_of h tid = Some t \<Longrightarrow>
    \<exists>t'. map_of h' tid = Some t' \<and> ti_SlaveId (t_info t') = ti_SlaveId (t_info t)"
  shows "agent_ok h' i s"
proof -
  have "\<exists>t. map_of h' tid = Some t \<and> ti_SlaveId (t_info t) = Some i" if tid: "tid \<in> set (tasks s)" for tid
  proof -
    from assms(1) tid obtain t where t: "map_of h tid = Some t" "ti_SlaveId (t_info t) = Some i"
      by (auto simp: agent_ok_def)
    from assms(2) [OF tid t(1)] t(2) show ?thesis by auto
  qed
  with assms(1) show ?thesis by (simp add: agent_ok_def)
qed

subsection \<open>Changes of task objects, queue and messages\<close>

lemma map_of_map_ran [simp]: "map_of (AList.map_ran f al) k = map_option (f k) (map_of al k)"
  by (induction al) auto

lemma at_task_ok:
  assumes "mesos_ok m" "\<And>t. map_of (heap m) tid = Some t \<Longrightarrow> t_ID (f t) = tid"
    and "\<And>t i s. map_of (heap m) tid = Some t \<Longrightarrow> (i, s) \<in> set (agents m) \<Longrightarrow> tid \<in> set (tasks s) \<Longrightarrow>
      ti_SlaveId (t_info (f t)) = ti_SlaveId (t_info t)"
  shows "mesos_ok (at_task tid f m)"
proof -
  have "agent_ok (AList.map_ran (\<lambda>i t. if i = tid then f t else t) (heap m)) i s" if s: "(i, s) \<in> set (agents m)" for i s
  proof (rule agent_ok_heap)
    show "agent_ok (heap m) i s" using assms(1) s by (auto simp: mesos_ok_def)
    show "\<exists>t'. map_of (AList.map_ran (\<lambda>i t. if i = tid then f t else t) (heap m)) j = Some t' \<and>
        ti_SlaveId (t_info t') = ti_SlaveId (t_info t)" if "j \<in> set (tasks s)" "map_of (heap m) j = Some t" for j t
      using assms(3) [OF _ s] that by (cases "j = tid") simp_all
  qed
  moreover have "t_ID t = j" if "(j, t) \<in> set (AList.map_ran (\<lambda>i t. if i = tid then f t else t) (heap m))" for j t
  proof -
    from that obtain w where w: "(j, w) \<in> set (heap m)" "t = (if j = tid then f w else w)" by (auto simp: mem_map_ran)
    with assms(1) have "map_of (heap m) j = Some w" by (simp add: mesos_ok_def)
    with task_lookup [OF assms(1) this] assms(2) w(2) show ?thesis by (cases "j = tid") simp_all
  qed
  moreover have "fst ` set (AList.map_ran (\<lambda>i t. if i = tid then f t else t) (heap m)) = fst ` set (heap m)"
    using map_ran_keys by (metis list.set_map)
  ultimately show ?thesis using assms(1) unfolding mesos_ok_def by (simp add: at_task_def split_beta)
qed

lemma send_ok [simp]: "mesos_ok (send tid msg m) = mesos_ok m"
  by (simp add: send_def mesos_ok_def)

lemma answer_ok [simp]: "mesos_ok (answer tid msg m) = mesos_ok m"
  by (simp add: answer_def split: option.split)

lemma pending_ok_change:
  "mesos_ok m \<Longrightarrow> distinct q \<Longrightarrow> set q \<subseteq> fst ` set (heap m) \<Longrightarrow> mesos_ok (m\<lparr>pendingTasks := q\<rparr>)"
  by (simp add: mesos_ok_def)

lemma Tasks_remove_ok: "mesos_ok m \<Longrightarrow> mesos_ok (Tasks_remove tids m)"
proof (induction tids arbitrary: m)
  case (Cons tid tids)
  have stopped: "mesos_ok (at_task tid Stop m)"
    using Cons.prems by (intro at_task_ok) (auto simp: Stop_def dest: task_lookup)
  have "mesos_ok ((at_task tid Stop m)\<lparr>pendingTasks := removeAll tid (pendingTasks m)\<rparr>)"
  proof (rule pending_ok_change [OF stopped])
    show "set (removeAll tid (pendingTasks m)) \<subseteq> fst ` set (heap (at_task tid Stop m))"
      using stopped by (auto simp: mesos_ok_def at_task_def)
  qed (use Cons.prems in \<open>simp add: mesos_ok_def distinct_removeAll\<close>)
  from Cons.IH [OF this] show ?case by (simp add: Tasks_remove_def)
qed (simp add: Tasks_remove_def)

subsection \<open>Offers\<close>

lemma agent_ok_removeOffer: "agent_ok h i s \<Longrightarrow> agent_ok h i (snd (agent_removeOffer k s))"
  by (auto simp: agent_ok_def agent_removeOffer_def)

lemma Mesos_removeOffer_ok:
  assumes "mesos_ok m" "Mesos_removeOffer offer m = Some (b, m')"
  shows "mesos_ok m'"
proof (cases "map_of (agents m) (o_SlaveId offer)")
  case (Some s)
  have "agent_ok (heap m) (o_SlaveId offer) (snd (agent_removeOffer (o_Id offer) s))"
    by (rule agent_ok_removeOffer [OF agent_lookup [OF assms(1) Some]])
  with assms Some mesos_ok_update mesos_ok_delete show ?thesis
    by (auto simp: Mesos_removeOffer_def Let_def split_beta split: if_split_asm option.split_asm)
qed (use assms in \<open>simp add: Mesos_removeOffer_def\<close>)

lemma remove_offers_ok: "mesos_ok m \<Longrightarrow> remove_offers os m = Some m' \<Longrightarrow> mesos_ok m'"
  by (induction os arbitrary: m) (auto simp: bind_eq_Some_conv dest: Mesos_removeOffer_ok)

lemma Mesos_addOffer_ok: "mesos_ok m \<Longrightarrow> mesos_ok (Mesos_addOffer offer m)"
  unfolding Mesos_addOffer_def
proof (rule at_agents_ok)
  fix s assume s: "agent_ok (heap m) (o_SlaveId offer) s"
  have "o_Id x = k \<and> o_SlaveId x = o_SlaveId offer" if "(k, x) \<in> set (AList.update (o_Id offer) offer (offers s))" for k x
    using alist_mem_update [OF _ that] s by (auto simp: agent_ok_def)
  with s show "agent_ok (heap m) (o_SlaveId offer) (agent_addOffer offer s)"
    by (auto simp: agent_ok_def agent_addOffer_def)
qed

text \<open>An agent that runs a task keeps its place when its offers are taken away.\<close>

lemma remove_offers_agent:
  assumes "remove_offers os m = Some m'" "\<And>x. x \<in> set os \<Longrightarrow> o_SlaveId x = aid" "map_of (agents m) aid = Some s" "tasks s \<noteq> []"
  shows "map_of (agents m') = (map_of (agents m))(aid \<mapsto> s\<lparr>offers := fold AList.delete (map o_Id os) (offers s)\<rparr>)"
  using assms
proof (induction os arbitrary: m s)
  case Nil
  then show ?case by (auto simp: fun_upd_idem)
next
  case (Cons x os)
  let ?s = "s\<lparr>offers := AList.delete (o_Id x) (offers s)\<rparr>"
  let ?m = "m\<lparr>agents := AList.update aid ?s (agents m)\<rparr>"
  have "Mesos_removeOffer x m = Some (map_of (offers s) (o_Id x) \<noteq> None, ?m)"
    using Cons.prems by (auto simp: Mesos_removeOffer_def agent_removeOffer_def agent_empty_def)
  with Cons.prems(1) have "remove_offers os ?m = Some m'" by simp
  from Cons.IH [OF this, of ?s] Cons.prems show ?case by (simp add: update_conv' fun_eq_iff)
qed

lemma remove_offers_rest:
  "remove_offers os m = Some m' \<Longrightarrow>
     heap m' = heap m \<and> sent m' = sent m \<and> pendingTasks m' = pendingTasks m \<and> m_scheduler m' = m_scheduler m"
  by (induction os arbitrary: m)
    (auto simp: bind_eq_Some_conv Mesos_removeOffer_def Let_def split: option.split_asm if_split_asm prod.split_asm)

lemma delete_all_keys: "fold AList.delete (map fst xs) xs = []"
proof -
  have "fold AList.delete ks al = filter (\<lambda>(k, _). k \<notin> set ks) al" for ks and al :: "('a \<times> 'b) list"
    by (induction ks arbitrary: al) (auto simp: AList.delete_eq intro: filter_cong)
  then show ?thesis by (auto simp: filter_empty_conv image_iff)
qed

subsection \<open>Operations that keep the invariant\<close>

lemma keeps_the_mesos [keeps_rules]: "keeps P the_mesos"
  by (simp add: the_mesos_def keeps_read)

lemma keeps_on_mesos [keeps_rules]: "(\<And>m. mesos_ok m \<Longrightarrow> mesos_ok (f m)) \<Longrightarrow> keeps mesos_inv (on_mesos f)"
  by (auto simp: on_mesos_def keeps_def modify_def mesos_inv_def)

lemma keeps_driver_call [keeps_rules]: "keeps mesos_inv (driver_call f)"
  by (auto simp: keeps_def driver_call_def mesos_inv_def Let_def split: prod.splits)

lemma keeps_remove_all_offers [keeps_rules]: "keeps mesos_inv (remove_all_offers os)"
  by (auto simp: keeps_def remove_all_offers_def mesos_inv_def dest: remove_offers_ok)

lemma keeps_at_agent [keeps_rules]:
  assumes "\<And>api a i. keeps (engine_inv a i) (f api)"
  shows "keeps mesos_inv (at_agent apis aid f)"
proof (rule keepsI)
  fix st x st' assume inv: "mesos_inv st" and run: "at_agent apis aid f st = Some (x, st')"
  obtain m d where st: "st = (m, d)" by force
  from run obtain s e' d' where s: "map_of (agents m) aid = Some s"
    and f: "f (apis (e_Addr (a_engine s))) (a_engine s, d) = Some (x, e', d')"
    and st': "st' = (m\<lparr>agents := AList.update aid (s\<lparr>a_engine := e'\<rparr>) (agents m)\<rparr>, d')"
    by (auto simp: st at_agent_def split: option.split_asm)
  from inv have ok: "mesos_ok m" by (simp add: mesos_inv_def st)
  have "engine_inv (e_Addr (a_engine s)) [] (a_engine s, d)"
    using agent_lookup [OF ok s] by (simp add: engine_inv_def agent_ok_def)
  from keepsD [OF assms this f] have "engine_ok e'" by (simp add: engine_inv_def)
  with mesos_ok_update [OF ok agent_ok_engine [OF agent_lookup [OF ok s]]] show "mesos_inv st'" by (simp add: st' mesos_inv_def)
qed

lemma keeps_of_agent [keeps_rules]:
  assumes "\<And>api a i. keeps (engine_inv a i) (f api)"
  shows "keeps mesos_inv (of_agent apis aid f)"
proof (rule keepsI)
  fix s x s' assume "mesos_inv s" "of_agent apis aid f s = Some (x, s')"
  then show "mesos_inv s'"
    using keepsD [OF keeps_at_agent [of f apis aid] _, OF assms]
    by (cases s) (auto simp: of_agent_def split: option.split_asm)
qed

lemma keeps_owned [keeps_rules]:
  "(\<And>api a i. keeps (engine_inv a i) (f api)) \<Longrightarrow> keeps mesos_inv (owned apis spec f)"
  unfolding owned_def by (intro keeps_rules)

lemma keeps_mesos_networks [keeps_rules]:
  "keeps mesos_inv (refreshNetworks apis)" "keeps mesos_inv (Mesos_CreateNetwork apis name request)"
  "keeps mesos_inv (Mesos_RemoveNetwork apis n)" "keeps mesos_inv (Mesos_BuildImage apis ctx opts)"
  "keeps mesos_inv (Mesos_RemoveContainer apis k force vols)"
  unfolding refreshNetworks_def Mesos_CreateNetwork_def Mesos_RemoveNetwork_def Mesos_BuildImage_def
    Mesos_RemoveContainer_def Let_def
  by (intro keeps_rules)+

lemma keeps_find_by_label [keeps_rules]: "keeps mesos_inv (find_by_label apis aid tid)"
  unfolding find_by_label_def by (intro keeps_rules) simp

lemma keeps_case_single [keeps_rules]:
  "keeps P g \<Longrightarrow> (\<And>x. keeps P (f x)) \<Longrightarrow> keeps P (case xs of [] \<Rightarrow> g | [x] \<Rightarrow> f x | x # y # zs \<Rightarrow> g)"
  by (auto split: list.split)

lemma keeps_after_status [keeps_rules]: "keeps mesos_inv (after_status apis aid tid status)"
proof -
  have "mesos_ok (send tid msg (at_agents aid (\<lambda>s. snd (agent_removeTask tid s)) m))" if "mesos_ok m" for m msg
    unfolding send_ok using that by (intro at_agents_ok) (auto simp: agent_ok_def agent_removeTask_def distinct_removeAll)
  then show ?thesis unfolding after_status_def by (intro keeps_rules) simp_all
qed

text \<open>A launch keeps the invariant when the task was not launched before.\<close>

lemma unbuilt_not_running:
  assumes "mesos_ok m" "map_of (heap m) tid = Some t" "ti_SlaveId (t_info t) = None" "(i, s) \<in> set (agents m)"
  shows "tid \<notin> set (tasks s)"
  using assms by (force simp: mesos_ok_def agent_ok_def)

lemma Build_fields: "Build aid os t = Some t' \<Longrightarrow> t_ID t' = t_ID t \<and> ti_SlaveId (t_info t') = Some aid \<and> t_done t' = t_done t"
  by (auto simp: Build_def Let_def bind_eq_Some_conv split_beta)

lemma built_ok:
  assumes "mesos_ok m" "map_of (heap m) tid = Some t" "ti_SlaveId (t_info t) = None" "Build aid os t = Some t'"
  shows "mesos_ok (at_task tid (\<lambda>_. t') m)"
  using assms unbuilt_not_running [OF assms(1-3)] task_lookup [OF assms(1,2)] Build_fields [OF assms(4)]
  by (intro at_task_ok) auto

lemma add_task_ok:
  assumes "mesos_ok m" "map_of (heap m) tid = Some t" "ti_SlaveId (t_info t) = Some aid"
  shows "mesos_ok (at_agents aid (agent_addTask tid) m)"
  using assms by (intro at_agents_ok) (auto simp: agent_ok_def agent_addTask_def)

lemma mesos_steps:
  "and_then the_mesos f (m, d) = f m (m, d)"
  "and_then (on_mesos g) h (m, d) = h () (g m, d)"
  "and_then (driver_call c) k (m, d) = k (fst (c d)) (m, snd (c d))"
  "and_then (remove_all_offers os) h (m, d) = (case remove_offers os m of None \<Rightarrow> None | Some m' \<Rightarrow> h () (m', d))"
  by (simp_all add: and_then_def the_mesos_def on_mesos_def driver_call_def remove_all_offers_def read_def modify_def
      Let_def split_beta split: option.split)

text \<open>The three ways in which the critical section of a launch ends.\<close>

lemma launch_cases:
  assumes "launch_section drv tid (m, d) = Some (r, m', d')" "map_of (heap m) tid = Some t" "t_ID t = tid"
  obtains (refused) nodes err where "Mesos_listNodes m = Some nodes"
      "SelectNodesForContainer (m_scheduler m) nodes (t_config t) = Some (Inl err)" "r = None" "m' = m" "d' = d"
    | (no_agent) aid where "r = Some None" "m' = send tid (Inl (no_agent_error aid)) m" "d' = d"
    | (driver_error) aid s t' err m1 where "map_of (agents m) aid = Some s" "Build aid (map snd (offers s)) t = Some t'"
        "LaunchTasks drv (map o_Id (map snd (offers s))) t' (refuseTimeout m) d = (Inl err, d')"
        "remove_offers (map snd (offers s)) (at_task tid (\<lambda>_. t') m) = Some m1" "m' = send tid (Inl err) m1" "r = Some None"
    | (launched) nodes chosen n s t' where "Mesos_listNodes m = Some nodes"
        "SelectNodesForContainer (m_scheduler m) nodes (t_config t) = Some (Inr chosen)" "index chosen 0 = Some n"
        "map_of (agents m) (nd_ID n) = Some s" "Build (nd_ID n) (map snd (offers s)) t = Some t'"
        "LaunchTasks drv (map o_Id (map snd (offers s))) t' (refuseTimeout m) d = (Inr (), d')"
        "remove_offers (map snd (offers s)) (at_agents (nd_ID n) (agent_addTask tid) (at_task tid (\<lambda>_. t') m)) = Some m'"
        "r = Some (Some (nd_ID n))"
proof -
  note run = assms(1) [unfolded launch_section_def launch_on_def mesos_steps or_panic_def assms(2), simplified, unfolded assms(3)]
  from run obtain nodes res where nodes: "Mesos_listNodes m = Some nodes"
    and res: "SelectNodesForContainer (m_scheduler m) nodes (t_config t) = Some res"
    by (auto simp: panic_def split: option.split_asm)
  show ?thesis
  proof (cases res)
    case (Inl err)
    with run nodes res show ?thesis by (intro refused [of nodes err]) (simp_all add: ret_def)
  next
    case (Inr chosen)
    with run nodes res obtain n where n: "index chosen 0 = Some n" by (auto simp: panic_def split: option.split_asm)
    show ?thesis
    proof (cases "map_of (agents m) (nd_ID n)")
      case None
      with run nodes res Inr n show ?thesis by (intro no_agent [of "nd_ID n"]) (simp_all add: mesos_steps ret_def)
    next
      case (Some s)
      with run nodes res Inr n obtain t' where t': "Build (nd_ID n) (map snd (offers s)) t = Some t'"
        by (auto simp: panic_def split: option.split_asm)
      let ?call = "LaunchTasks drv (map o_Id (map snd (offers s))) t' (refuseTimeout m) d"
      show ?thesis
      proof (cases "fst ?call")
        case (Inl err)
        with run nodes res Inr n Some t' obtain m1 where
          "remove_offers (map snd (offers s)) (at_task tid (\<lambda>_. t') m) = Some m1" "r = Some None" "m' = send tid (Inl err) m1"
          "d' = snd ?call"
          by (auto simp: mesos_steps ret_def at_task_def split: option.split_asm)
        with Inl Some t' show ?thesis by (intro driver_error [of "nd_ID n" s t' err m1]) (simp_all add: prod_eq_iff)
      next
        case (Inr u)
        with run nodes res \<open>res = Inr chosen\<close> n Some t' show ?thesis
          by (intro launched [of nodes chosen n s t']) (auto simp: mesos_steps ret_def prod_eq_iff at_task_def split: option.split_asm)
      qed
    qed
  qed
qed

lemma heap_at_task: "map_of (heap m) tid = Some t \<Longrightarrow> map_of (heap (at_task tid (\<lambda>_. t') m)) tid = Some t'"
  by (simp add: at_task_def)

lemma launch_section_ok:
  assumes "mesos_ok m" "map_of (heap m) tid = Some t" "ti_SlaveId (t_info t) = None"
    and "launch_section drv tid (m, d) = Some (r, m', d')"
  shows "mesos_ok m'"
  using assms(4,2) task_lookup [OF assms(1,2)]
proof (cases rule: launch_cases)
  case (driver_error aid s t' err m1)
  from built_ok [OF assms(1-3) driver_error(2)] driver_error(4,5) show ?thesis by (auto dest: remove_offers_ok)
next
  case (launched nodes chosen n s t')
  from built_ok [OF assms(1-3) launched(5)] have "mesos_ok (at_task tid (\<lambda>_. t') m)" .
  from add_task_ok [OF this heap_at_task [OF assms(2)]] Build_fields [OF launched(5)]
  have "mesos_ok (at_agents (nd_ID n) (agent_addTask tid) (at_task tid (\<lambda>_. t') m))" by simp
  with launched(7) show ?thesis by (rule remove_offers_ok [rotated])
qed (use assms(1) in simp_all)

subsection \<open>A launch is sound\<close>

lemma those_nodes: "those (map f xs) = Some ys \<Longrightarrow> y \<in> set ys \<Longrightarrow> \<exists>x \<in> set xs. f x = Some y"
  by (induction xs arbitrary: ys) (auto split: option.split_asm)

lemma agent_node_ID: "agent_node s = Some n \<Longrightarrow> nd_ID n = a_id s"
  by (auto simp: agent_node_def bind_eq_Some_conv)

lemma listNodes_agent:
  assumes "mesos_ok m" "Mesos_listNodes m = Some nodes" "n \<in> set nodes"
  shows "\<exists>s. map_of (agents m) (nd_ID n) = Some s \<and> agent_node s = Some n"
proof -
  from those_nodes [OF assms(2) [unfolded Mesos_listNodes_def] assms(3)] obtain i s where
    s: "(i, s) \<in> set (agents m)" "agent_node s = Some n" by auto
  with assms(1) have "map_of (agents m) i = Some s" by (simp add: mesos_ok_def)
  with agent_lookup [OF assms(1) this] s agent_node_ID [OF s(2)] show ?thesis by (auto simp: agent_ok_def)
qed

lemma offer_keys: "agent_ok h i s \<Longrightarrow> map o_Id (map snd (offers s)) = map fst (offers s)"
  by (auto simp: agent_ok_def)

lemma offer_slave: "agent_ok h i s \<Longrightarrow> x \<in> set (map snd (offers s)) \<Longrightarrow> o_SlaveId x = i"
  by (auto simp: agent_ok_def)

lemma launched_agent:
  assumes "mesos_ok m" "map_of (agents m) aid = Some s"
    and "remove_offers (map snd (offers s)) (at_agents aid (agent_addTask tid) (at_task tid (\<lambda>_. t') m)) = Some m'"
  shows "map_of (agents m') = (map_of (agents m))(aid \<mapsto> s\<lparr>offers := [], tasks := List.insert tid (tasks s)\<rparr>)"
proof -
  let ?m = "at_agents aid (agent_addTask tid) (at_task tid (\<lambda>_. t') m)"
  have ok: "agent_ok (heap m) aid s" by (rule agent_lookup [OF assms(1,2)])
  have look: "map_of (agents ?m) = (map_of (agents m))(aid \<mapsto> agent_addTask tid s)"
    using assms(2) by (auto simp: at_agents_def at_task_def fun_eq_iff option.map_ident)
  have "map_of (agents m') = (map_of (agents ?m))(aid \<mapsto>
      (agent_addTask tid s)\<lparr>offers := fold AList.delete (map o_Id (map snd (offers s))) (offers (agent_addTask tid s))\<rparr>)"
  proof (rule remove_offers_agent [OF assms(3)])
    show "o_SlaveId x = aid" if "x \<in> set (map snd (offers s))" for x using offer_slave [OF ok that] .
    show "map_of (agents ?m) aid = Some (agent_addTask tid s)" by (simp add: look)
    show "tasks (agent_addTask tid s) \<noteq> []" by (auto simp: agent_addTask_def List.insert_def)
  qed
  moreover have "s\<lparr>tasks := ts, offers := []\<rparr> = s\<lparr>offers := [], tasks := ts\<rparr>" for ts by (cases s) simp
  ultimately show ?thesis
    unfolding offer_keys [OF ok] by (simp add: look agent_addTask_def delete_all_keys)
qed

text \<open>
  C35. A launch on Mesos is sound: the task goes to an agent whose node satisfies every configured filter and, under spread and
  binpack, offers at least the processor shares and the memory that the container asks for; the driver is given the task
  built for that agent together with all offers of the agent and of no other; afterwards those offers are used up, the
  agent runs the task, and the other agents are as before.
\<close>

theorem mesos_launch_sound:
  assumes "node_sort srt" "\<forall>i. rnd i \<le> i" "strategy_New srt rnd sname = Inr st" "filter_New re names = Inr fs"
    and "m_scheduler m = scheduler_New st fs" "mesos_ok m" "map_of (heap m) tid = Some t"
    and "launch_section drv tid (m, d) = Some (Some (Some aid), m', d')"
  shows "\<exists>s n t'. map_of (agents m) aid = Some s \<and> agent_node s = Some n \<and>
    (\<forall>name \<in> set names. policy re name (t_config t) False n) \<and>
    (sname = ''random'' \<or> offered_cpus s = Some (TotalCpus n) \<and> CPUShares (HostConfig (t_config t)) \<le> TotalCpus n \<and>
       offered_memory s = Some (TotalMemory n) \<and> Memory (HostConfig (t_config t)) \<le> TotalMemory n) \<and>
    Build aid (map snd (offers s)) t = Some t' \<and>
    LaunchTasks drv (map fst (offers s)) t' (refuseTimeout m) d = (Inr (), d') \<and>
    map_of (agents m') = (map_of (agents m))(aid \<mapsto> s\<lparr>offers := [], tasks := List.insert tid (tasks s)\<rparr>)"
  using assms(8,7) task_lookup [OF assms(6,7)]
proof (cases rule: launch_cases)
  case (launched nodes chosen n s t')
  then have aid: "nd_ID n = aid" by simp
  from select_nodes_mset [OF assms(1-4) launched(2) [unfolded assms(5)]] obtain soft where
    eq: "mset chosen = mset (filter (\<lambda>n. strategy_fit sname (t_config t) n \<and> satisfies re names (t_config t) soft n) nodes)" by blast
  have "n \<in> set chosen" using launched(3) by (auto simp: index_def split: if_splits)
  then have n: "n \<in> set nodes" "strategy_fit sname (t_config t) n" "satisfies re names (t_config t) False n"
    using mset_eq_setD [OF eq] satisfies_hard by auto
  from listNodes_agent [OF assms(6) launched(1) n(1)] launched(4) have node: "agent_node s = Some n" by simp
  then have "offered_cpus s = Some (TotalCpus n)" "offered_memory s = Some (TotalMemory n)"
    by (auto simp: agent_node_def bind_eq_Some_conv)
  moreover have "sname = ''random'' \<or> CPUShares (HostConfig (t_config t)) \<le> TotalCpus n \<and> Memory (HostConfig (t_config t)) \<le> TotalMemory n"
    using n(2) by (auto simp: strategy_fit_def node_fits_def)
  ultimately have fits: "sname = ''random'' \<or> offered_cpus s = Some (TotalCpus n) \<and> CPUShares (HostConfig (t_config t)) \<le> TotalCpus n \<and>
       offered_memory s = Some (TotalMemory n) \<and> Memory (HostConfig (t_config t)) \<le> TotalMemory n" by blast
  have "\<forall>name \<in> set names. policy re name (t_config t) False n" using n(3) by (simp add: satisfies_def)
  moreover have "map_of (agents m) aid = Some s" using launched(4) aid by simp
  ultimately show ?thesis
    using node fits launched(5) launched(6) [unfolded offer_keys [OF agent_lookup [OF assms(6) launched(4)]]]
      launched_agent [OF assms(6) launched(4,7)]
    by (intro exI [of _ s] exI [of _ n] exI [of _ t'] conjI) (simp_all add: aid)
qed simp_all

subsection \<open>Every launch is answered\<close>

text \<open>What happens on an engine changes neither the task objects nor the messages.\<close>

definition told :: "(string \<times> Container option result) list \<Rightarrow> string list \<Rightarrow> (string \<times> MTask) list \<Rightarrow> 'd mstate \<Rightarrow> bool" where
  "told msgs q h s \<longleftrightarrow> sent (fst s) = msgs \<and> pendingTasks (fst s) = q \<and> heap (fst s) = h"

lemma told_at_agent: "keeps (told msgs q h) (at_agent apis aid f)"
  by (auto simp: keeps_def told_def at_agent_def split: option.split_asm)

lemma told_of_agent: "keeps (told msgs q h) (of_agent apis aid f)"
  by (auto simp: keeps_def told_def of_agent_def at_agent_def split: option.split_asm)

text \<open>\<open>answered tid t m m'\<close>: exactly one message went to the goroutine waiting for the task, or none if it had given up.\<close>

definition answered :: "string \<Rightarrow> MTask \<Rightarrow> MesosCluster \<Rightarrow> MesosCluster \<Rightarrow> bool" where
  "answered tid t m m' \<longleftrightarrow> (\<exists>msg. sent m' = sent m @ [(tid, msg)]) \<or> sent m' = sent m \<and> Stopped t"

lemma answer_answered: "map_of (heap m) tid = Some t \<Longrightarrow> answered tid t m (answer tid msg m)"
  by (simp add: answer_def answered_def send_def)

lemma find_by_label_answers:
  assumes "find_by_label apis aid tid (m, d) = Some (u, m', d')" "map_of (heap m) tid = Some t"
  shows "answered tid t m m'"
proof -
  from assms(1) obtain r m1 d1 where refresh: "of_agent apis aid (\<lambda>api. RefreshContainers api True) (m, d) = Some (r, m1, d1)"
    and m': "\<exists>msg. m' = answer tid msg m1"
    by (auto simp: find_by_label_def and_then_Some on_mesos_def modify_def)
  from keepsD [OF told_of_agent _ refresh, of "sent m" "pendingTasks m" "heap m"] have "sent m1 = sent m" "heap m1 = heap m"
    by (simp_all add: told_def)
  moreover from this m' assms(2) have "answered tid t m1 m'" using answer_answered [of m1 tid t] by auto
  ultimately show ?thesis by (simp add: answered_def)
qed

lemma after_status_answers:
  assumes "after_status apis aid tid status (m, d) = Some (u, m', d')" "map_of (heap m) tid = Some t"
  shows "answered tid t m m'"
proof -
  obtain fin data err where mon: "Monitor status = (fin, data, err)" by (cases "Monitor status")
  show ?thesis
  proof (cases err)
    case (Some e)
    with assms mon show ?thesis by (auto simp: after_status_def on_mesos_def modify_def answered_def send_def at_agents_def)
  next
    case None
    consider cid where "data = Some [cid]" | "data = None" | "data = Some []" | x y zs where "data = Some (x # y # zs)"
      by (metis neq_Nil_conv option.exhaust)
    then consider cid where "data = Some [cid]" | "after_status apis aid tid status = find_by_label apis aid tid"
      using mon None by cases (auto simp: after_status_def)
    then show ?thesis
    proof cases
      case 2
      with assms find_by_label_answers show ?thesis by metis
    next
      case 1
      with assms mon None obtain r m1 d1 where refresh: "of_agent apis aid (\<lambda>api. refreshContainer api cid True) (m, d) = Some (r, m1, d1)"
        and rest: "(case r of Inr k \<Rightarrow> on_mesos (answer tid (Inr k)) | Inl _ \<Rightarrow> find_by_label apis aid tid) (m1, d1) = Some (u, m', d')"
        by (auto simp: after_status_def and_then_Some)
      from keepsD [OF told_of_agent _ refresh, of "sent m" "pendingTasks m" "heap m"]
      have m1: "sent m1 = sent m" "heap m1 = heap m" by (simp_all add: told_def)
      have "answered tid t m1 m'"
        using rest find_by_label_answers [of apis aid tid m1 d1 u m' d' t] answer_answered [of m1 tid t] assms(2) m1(2)
        by (auto simp: on_mesos_def modify_def split: sum.split_asm)
      with m1(1) show ?thesis by (simp add: answered_def)
    qed
  qed
qed

lemma launch_section_told:
  assumes "launch_section drv tid (m, d) = Some (r, m', d')" "map_of (heap m) tid = Some t" "t_ID t = tid"
  shows "(case r of None \<Rightarrow> sent m' = sent m | Some None \<Rightarrow> \<exists>msg. sent m' = sent m @ [(tid, msg)]
     | Some (Some _) \<Rightarrow> sent m' = sent m) \<and> pendingTasks m' = pendingTasks m \<and>
     (\<exists>t'. map_of (heap m') tid = Some t' \<and> t_done t' = t_done t)"
  using assms
proof (cases rule: launch_cases)
  case (driver_error aid s t' err m1)
  with remove_offers_rest [OF driver_error(4)] Build_fields [OF driver_error(2)] assms(2) show ?thesis
    by (simp add: send_def at_task_def)
next
  case (launched nodes chosen n s t')
  with remove_offers_rest [OF launched(7)] Build_fields [OF launched(5)] assms(2) show ?thesis
    by (simp add: at_agents_def at_task_def)
qed (use assms(2) in \<open>simp_all add: send_def\<close>)

text \<open>
  C37. A launch that reports that the task is dealt with has answered the request: exactly one message, a container or an
  error, went to the goroutine that waits for the task, and none only if that goroutine had given up before. A launch that is refused
  sends nothing and leaves the task to the queue.
\<close>

theorem launch_answers:
  assumes "mesos_ok m" "map_of (heap m) tid = Some t" "LaunchTask apis drv tid (m, d) = Some (b, m', d')"
  shows "if b then answered tid t m m' else sent m' = sent m"
proof -
  from assms(3) obtain r m1 d1 where sec: "launch_section drv tid (m, d) = Some (r, m1, d1)"
    and rest: "(case r of None \<Rightarrow> ret False | Some None \<Rightarrow> ret True
      | Some (Some aid) \<Rightarrow> and_then (\<lambda>(m, d). let (status, d') = next_status drv tid d in Some (status, m, d'))
          (\<lambda>status. and_then (after_status apis aid tid status) (\<lambda>_. ret True))) (m1, d1) = Some (b, m', d')"
    by (auto simp: LaunchTask_def and_then_Some)
  note told = launch_section_told [OF sec assms(2) task_lookup [OF assms(1,2)]]
  show ?thesis
  proof (cases "\<exists>aid. r = Some (Some aid)")
    case False
    with rest told show ?thesis by (auto simp: ret_def answered_def split: option.split_asm)
  next
    case True
    then obtain aid where r: "r = Some (Some aid)" by blast
    from told r obtain t' where t': "map_of (heap m1) tid = Some t'" "t_done t' = t_done t" and m1: "sent m1 = sent m" by auto
    from rest r obtain status u d2 where "after_status apis aid tid status (m1, d2) = Some (u, m', d')" and "b"
      by (auto simp: and_then_Some ret_def Let_def split: prod.split_asm)
    with after_status_answers [OF _ t'(1)] have "answered tid t' m1 m'" by metis
    with \<open>b\<close> m1 t'(2) show ?thesis by (simp add: answered_def Stopped_def)
  qed
qed

subsection \<open>The queue\<close>

text \<open>The attempts of one pass over the queue, with what each returned.\<close>

primrec attempts_of :: "(string \<Rightarrow> ('s, bool) op) \<Rightarrow> string list \<Rightarrow> ('s, bool list) op" where
  "attempts_of launch [] = ret []"
| "attempts_of launch (tid # tids) =
     and_then (launch tid) (\<lambda>b. and_then (attempts_of launch tids) (\<lambda>bs. ret (b # bs)))"

definition taken :: "string list \<Rightarrow> bool list \<Rightarrow> string list" where
  "taken tids bs = map fst (filter snd (zip tids bs))"

definition left_over :: "string list \<Rightarrow> bool list \<Rightarrow> string list" where
  "left_over tids bs = map fst (filter (\<lambda>x. \<not> snd x) (zip tids bs))"

lemma attempts_length: "attempts_of launch tids s = Some (bs, s') \<Longrightarrow> length bs = length tids"
  by (induction tids arbitrary: s bs) (auto simp: ret_def and_then_Some)

lemma filter_taken:
  "distinct tids \<Longrightarrow> length bs = length tids \<Longrightarrow> filter (\<lambda>t. t \<notin> set (taken tids bs)) tids = left_over tids bs"
proof (induction tids arbitrary: bs)
  case (Cons t tids)
  then obtain b bs' where bs: "bs = b # bs'" "length bs' = length tids" by (cases bs) auto
  have "t \<notin> set (taken tids bs')" using Cons.prems(1) by (auto simp: taken_def dest: set_zip_leftD)
  moreover have "filter (\<lambda>x. x \<notin> insert t (set (taken tids bs'))) tids = filter (\<lambda>x. x \<notin> set (taken tids bs')) tids"
    using Cons.prems(1) by (intro filter_cong) auto
  ultimately show ?case using Cons.IH [of bs'] Cons.prems bs by (cases b) (simp_all add: taken_def left_over_def)
qed (simp add: taken_def left_over_def)

lemma pass_attempts:
  "fold_op (process_one launch) tids acc s = Some (out, s') \<longleftrightarrow>
     (\<exists>bs. attempts_of launch tids s = Some (bs, s') \<and> out = acc @ taken tids bs)"
proof (induction tids arbitrary: acc s)
  case Nil
  then show ?case by (auto simp: ret_def taken_def)
next
  case (Cons t tids)
  let ?f = "process_one launch"
  have "fold_op ?f (t # tids) acc s = Some (out, s') \<longleftrightarrow>
      (\<exists>b s1. launch t s = Some (b, s1) \<and> fold_op ?f tids (if b then acc @ [t] else acc) s1 = Some (out, s'))"
    unfolding fold_op.simps and_then_Some process_one_def by (auto simp: ret_def simp del: split_paired_Ex)
  also have "\<dots> \<longleftrightarrow> (\<exists>b s1 bs. launch t s = Some (b, s1) \<and> attempts_of launch tids s1 = Some (bs, s') \<and>
      out = acc @ taken (t # tids) (b # bs))"
    unfolding Cons.IH by (simp add: taken_def if_distrib [of "\<lambda>x. x @ y" for y] cong: if_cong)
  also have "\<dots> \<longleftrightarrow> (\<exists>bs. attempts_of launch (t # tids) s = Some (bs, s') \<and> out = acc @ taken (t # tids) bs)"
    by (auto simp: and_then_Some ret_def)
  finally show ?case .
qed

lemma Tasks_remove_pending: "pendingTasks (Tasks_remove tids m) = filter (\<lambda>t. t \<notin> set tids) (pendingTasks m)"
proof (induction tids arbitrary: m)
  case (Cons t tids)
  have "pendingTasks (Tasks_remove (t # tids) m) = filter (\<lambda>x. x \<notin> set tids) (removeAll t (pendingTasks m))"
    using Cons.IH by (simp add: Tasks_remove_def at_task_def)
  then show ?case by (simp add: removeAll_filter_not_eq conj_commute neq_commute)
qed (simp add: Tasks_remove_def)

lemma Tasks_remove_heap:
  "map_of (heap (Tasks_remove tids m)) t = map_option (\<lambda>x. if t \<in> set tids then Stop x else x) (map_of (heap m) t)"
proof (induction tids arbitrary: m)
  case (Cons x tids)
  have "Tasks_remove (x # tids) m = Tasks_remove tids ((at_task x Stop m)\<lparr>pendingTasks := removeAll x (pendingTasks m)\<rparr>)"
    by (simp add: Tasks_remove_def)
  with Cons.IH show ?case by (cases "map_of (heap m) t") (auto simp: at_task_def Stop_def)
qed (simp add: Tasks_remove_def option.map_ident)

text \<open>
  The contract of \<open>launcher\<close>: launching a task does not touch the queue. The source relies on it when it
  ranges over the queue and removes the launched tasks afterwards.
\<close>

locale launcher =
  fixes launch :: "string \<Rightarrow> ('d mstate, bool) op"
  assumes queue_kept: "launch tid (m, d) = Some (b, m', d') \<Longrightarrow> pendingTasks m' = pendingTasks m"
begin

lemma attempts_keep_queue: "attempts_of launch tids (m, d) = Some (bs, m', d') \<Longrightarrow> pendingTasks m' = pendingTasks m"
proof (induction tids arbitrary: m d bs)
  case Nil
  then show ?case by (simp add: ret_def)
next
  case (Cons t tids)
  then obtain b m1 d1 bs' where "launch t (m, d) = Some (b, m1, d1)" "attempts_of launch tids (m1, d1) = Some (bs', m', d')"
    by (auto simp: and_then_Some ret_def)
  with queue_kept Cons.IH show ?case by metis
qed

lemma process_pass:
  assumes "Tasks_Process order launch (m, d) = Some (u, m', d')" "mset order = mset (pendingTasks m)" "distinct (pendingTasks m)"
  shows "\<exists>bs m1. attempts_of launch order (m, d) = Some (bs, m1, d') \<and> distinct (pendingTasks m') \<and>
    set (pendingTasks m') = set (left_over order bs) \<and> m' = Tasks_remove (taken order bs) m1"
proof -
  from assms(1) obtain bs m1 where run: "attempts_of launch order (m, d) = Some (bs, m1, d')"
    and m': "m' = Tasks_remove (taken order bs) m1"
    by (auto simp: Tasks_Process_def process_end_def and_then_Some pass_attempts on_mesos_def modify_def)
  have "pendingTasks m' = filter (\<lambda>t. t \<notin> set (taken order bs)) (pendingTasks m)"
    by (simp add: m' Tasks_remove_pending attempts_keep_queue [OF run])
  moreover have order: "set order = set (pendingTasks m)" "distinct order"
    using mset_eq_setD [OF assms(2)] mset_eq_imp_distinct_iff [OF assms(2)] assms(3) by simp_all
  ultimately have "set (pendingTasks m') = set (filter (\<lambda>t. t \<notin> set (taken order bs)) order)" "distinct (pendingTasks m')"
    using assms(3) by simp_all
  then have "distinct (pendingTasks m') \<and> set (pendingTasks m') = set (left_over order bs)"
    using filter_taken [OF order(2) attempts_length [OF run]] by simp
  with run m' show ?thesis by blast
qed

end

definition queue_is :: "string list \<Rightarrow> 'd mstate \<Rightarrow> bool" where
  "queue_is q s \<longleftrightarrow> pendingTasks (fst s) = q"

lemma queue_on_mesos: "(\<And>m. pendingTasks (g m) = pendingTasks m) \<Longrightarrow> keeps (queue_is q) (on_mesos g)"
  by (auto simp: keeps_def on_mesos_def modify_def queue_is_def)

lemma queue_calls:
  "keeps (queue_is q) (of_agent apis aid f)" "keeps (queue_is q) (driver_call c)" "keeps (queue_is q) (remove_all_offers os)"
  by (auto simp: keeps_def queue_is_def of_agent_def at_agent_def driver_call_def remove_all_offers_def Let_def
      dest: remove_offers_rest split: option.split_asm prod.split_asm)

lemma queue_changes [simp]:
  "pendingTasks (send tid msg m) = pendingTasks m" "pendingTasks (answer tid msg m) = pendingTasks m"
  "pendingTasks (at_task tid f m) = pendingTasks m" "pendingTasks (at_agents aid g m) = pendingTasks m"
  by (simp_all add: send_def answer_def at_task_def at_agents_def split: option.split)

lemma queue_launch: "keeps (queue_is q) (launch_section drv tid)"
  unfolding launch_section_def launch_on_def by (intro keeps_rules queue_calls queue_on_mesos) simp_all

lemma queue_after_status: "keeps (queue_is q) (after_status apis aid tid status)"
  unfolding after_status_def find_by_label_def by (intro keeps_rules queue_calls queue_on_mesos) simp_all

lemma queue_status: "keeps (queue_is q) (\<lambda>(m, d). let (status, d') = next_status drv tid d in Some (status, m, d'))"
  by (auto simp: keeps_def queue_is_def Let_def split: prod.split_asm)

lemma queue_LaunchTask: "keeps (queue_is q) (LaunchTask apis drv tid)"
  unfolding LaunchTask_def by (intro keeps_rules queue_launch queue_after_status queue_status)

interpretation mesos_launcher: launcher "LaunchTask apis drv"
  using keepsD [OF queue_LaunchTask] by unfold_locales (fastforce simp: queue_is_def)

text \<open>
  C39. One pass over the queue tries every waiting task exactly once, in whatever order the map yields them: afterwards the
  tasks whose launch was refused are in the queue, each of them once, and all others have left it and are marked as stopped.
\<close>

theorem process_queue:
  assumes "mesos_ok m" "mset order = mset (pendingTasks m)"
    and "Tasks_Process order (LaunchTask apis drv) (m, d) = Some (u, m', d')"
  shows "\<exists>bs m1. attempts_of (LaunchTask apis drv) order (m, d) = Some (bs, m1, d') \<and> length bs = length (pendingTasks m) \<and>
    distinct (pendingTasks m') \<and> set (pendingTasks m') = set (left_over order bs) \<and>
    (\<forall>tid \<in> set (taken order bs). \<forall>t. map_of (heap m') tid = Some t \<longrightarrow> Stopped t)"
proof -
  have "distinct (pendingTasks m)" using assms(1) by (simp add: mesos_ok_def)
  from mesos_launcher.process_pass [OF assms(3,2) this] obtain bs m1 where
    run: "attempts_of (LaunchTask apis drv) order (m, d) = Some (bs, m1, d')"
    and m': "distinct (pendingTasks m')" "set (pendingTasks m') = set (left_over order bs)" "m' = Tasks_remove (taken order bs) m1"
    by blast
  have "length order = length (pendingTasks m)" using assms(2) by (metis size_mset)
  moreover have "Stopped t" if "tid \<in> set (taken order bs)" "map_of (heap m') tid = Some t" for tid t
    using that by (auto simp: m'(3) Tasks_remove_heap Stopped_def Stop_def)
  ultimately show ?thesis using attempts_length [OF run] run m'(1,2) by metis
qed

subsection \<open>Further operations that keep the invariant\<close>

lemma those_list: "those (map f xs) = Some ys \<Longrightarrow> list_all2 (\<lambda>x y. f x = Some y) xs ys"
  by (induction xs arbitrary: ys) (auto split: option.split_asm)

lemma list_all2_keys: "list_all2 (\<lambda>x y. f x = Some y) xs ys \<Longrightarrow> (\<And>x y. f x = Some y \<Longrightarrow> fst y = fst x) \<Longrightarrow> map fst ys = map fst xs"
  by (induction rule: list_all2_induct) auto

lemma formatContainer_ID: "formatContainer k = Some k' \<Longrightarrow> c_ID k' = c_ID k"
  by (auto simp: formatContainer_def bind_eq_Some_conv split: option.split_asm if_split_asm)

lemma format_engine_ok:
  assumes "engine_ok e" "format_engine e = Some e'"
  shows "engine_ok e'"
proof -
  let ?f = "\<lambda>(i, k). map_option (Pair i) (if has_task_label k then formatContainer k else Some k)"
  from assms(2) obtain cs where cs: "those (map ?f (containers e)) = Some cs" and e': "e' = e\<lparr>containers := cs\<rparr>"
    by (auto simp: format_engine_def bind_eq_Some_conv)
  note all2 = those_list [OF cs]
  have "map fst cs = map fst (containers e)" by (rule list_all2_keys [OF all2]) auto
  moreover have "c_ID k = i" if ik: "(i, k) \<in> set cs" for i k
  proof -
    from those_nodes [OF cs ik] obtain j k0 where "(j, k0) \<in> set (containers e)" "?f (j, k0) = Some (i, k)" by auto
    with assms(1) show ?thesis by (auto simp: engine_ok_def keyed_def dest: formatContainer_ID split: if_split_asm)
  qed
  ultimately show ?thesis using assms(1) by (auto simp: e' engine_ok_def keyed_def health_ok_def)
qed

lemma format_agents_ok:
  assumes "mesos_ok m" "format_agents m = Some m'"
  shows "mesos_ok m'"
proof -
  let ?f = "\<lambda>(i, s). map_option (\<lambda>e. (i, s\<lparr>a_engine := e\<rparr>)) (format_engine (a_engine s))"
  from assms(2) obtain as where as: "those (map ?f (agents m)) = Some as" and m': "m' = m\<lparr>agents := as\<rparr>"
    by (auto simp: format_agents_def bind_eq_Some_conv)
  have "map fst as = map fst (agents m)" by (rule list_all2_keys [OF those_list [OF as]]) auto
  moreover have "agent_ok (heap m) i s" if "(i, s) \<in> set as" for i s
  proof -
    from those_nodes [OF as that] obtain s0 e where "(i, s0) \<in> set (agents m)" "format_engine (a_engine s0) = Some e"
      "s = s0\<lparr>a_engine := e\<rparr>" by auto
    moreover from this(1) assms(1) have "agent_ok (heap m) i s0" by (auto simp: mesos_ok_def)
    ultimately show ?thesis using format_engine_ok by (auto simp: agent_ok_def)
  qed
  ultimately show ?thesis unfolding m' using assms(1) by (intro mesos_ok_agents) (simp_all add: mesos_ok_def)
qed

lemma keyed_map_ran:
  assumes "keyed h al" "\<And>k v. h (g k v) = h v"
  shows "keyed h (AList.map_ran g al)"
proof -
  have "h v = k" if "(k, v) \<in> set (AList.map_ran g al)" for k v
    using that assms by (auto simp: keyed_def mem_map_ran)
  with assms(1) show ?thesis by (auto simp: keyed_def)
qed

lemma change_container_ok:
  assumes "mesos_ok m" "\<And>c. c_ID (f c) = c_ID c"
  shows "mesos_ok (change_container k f m)"
  unfolding change_container_def
proof (rule at_agents_ok [OF assms(1)])
  fix s assume s: "agent_ok (heap m) (owner_agent (c_Engine k) m) s"
  have "keyed c_ID (AList.map_ran (\<lambda>i k'. if i = c_ID k then f k' else k') (containers (a_engine s)))"
    using s assms(2) by (intro keyed_map_ran) (simp_all add: agent_ok_def engine_ok_def)
  with s show "agent_ok (heap m) (owner_agent (c_Engine k) m) (s\<lparr>a_engine := (a_engine s)\<lparr>containers :=
      AList.map_ran (\<lambda>i k'. if i = c_ID k then f k' else k') (containers (a_engine s))\<rparr>\<rparr>)"
    by (simp add: agent_ok_def engine_ok_def health_ok_def)
qed

lemma keeps_small [keeps_rules]:
  "keeps mesos_inv (timer_fires tid)" "keeps mesos_inv (take_answer tid)" "keeps mesos_inv (Mesos_RenameContainer k name)"
  "keeps mesos_inv (Mesos_StartContainer apis k h)"
proof -
  show "keeps mesos_inv (timer_fires tid)"
    unfolding timer_fires_def by (intro keeps_rules) (simp split: option.split)
  show "keeps mesos_inv (take_answer tid)"
    unfolding take_answer_def by (intro keeps_rules Tasks_remove_ok change_container_ok) simp_all
  show "keeps mesos_inv (Mesos_RenameContainer k name)"
    unfolding Mesos_RenameContainer_def by (intro keeps_rules change_container_ok) simp_all
  have "keeps mesos_inv (owned apis (c_Engine k) (\<lambda>api. StartContainer api (c_ID k) h))" by (intro keeps_rules)
  then show "keeps mesos_inv (Mesos_StartContainer apis k h)"
    unfolding keeps_def Mesos_StartContainer_def by (auto split: if_split_asm)
qed

lemma NewEngine_inv: "0 < retry \<Longrightarrow> retry < 2 ^ 63 \<Longrightarrow> engine_inv addr [] (NewEngine now addr ratio retry, d)"
  by (simp add: engine_inv_def) (simp add: NewEngine_def)

lemma keeps_resource_offer [keeps_rules]: "keeps mesos_inv (resource_offer apis resolve new_client offer)"
proof (rule keepsI)
  fix st u st' assume inv: "mesos_inv st" and run: "resource_offer apis resolve new_client offer st = Some (u, st')"
  obtain m d where st: "st = (m, d)" by force
  have ok: "mesos_ok m" using inv by (simp add: st mesos_inv_def)
  let ?addr = "o_Hostname offer @ '':'' @ docker_port (dockerEnginePort m) (o_Attributes offer)"
  let ?e0 = "NewEngine (clock (apis ?addr) d) ?addr 0 (m_FailureRetry m)"
  consider d' where "st' = (Mesos_addOffer offer m, d')"
    | e d' v where "Connect (apis ?addr) resolve new_client (?e0, d) = Some (v, e, d')"
        "st' = (Mesos_addOffer offer (m\<lparr>agents := AList.update (o_SlaveId offer)
           (newAgent (o_SlaveId offer) (snd (RegisterEventHandler (ValidationComplete e)))) (agents m)\<rparr>), d')"
    using run by (auto simp: st resource_offer_def Let_def split: option.split_asm sum.split_asm prod.split_asm)
  then show "mesos_inv st'"
  proof cases
    case 2
    have "engine_inv ?addr [] (?e0, d)" using ok by (intro NewEngine_inv) (simp_all add: mesos_ok_def)
    from keepsD [OF keeps_Connect this 2(1)] have "engine_inv ?addr [] (e, d')" .
    from direct_changes_inv(4) [OF direct_changes_inv(1) [OF this] surjective_pairing]
    have "engine_ok (snd (RegisterEventHandler (ValidationComplete e)))" by (simp add: engine_inv_def)
    then have "agent_ok (heap m) (o_SlaveId offer) (newAgent (o_SlaveId offer) (snd (RegisterEventHandler (ValidationComplete e))))"
      by (simp add: agent_ok_def newAgent_def)
    from Mesos_addOffer_ok [OF mesos_ok_update [OF ok this]] show ?thesis by (simp add: 2(2) mesos_inv_def)
  qed (use ok Mesos_addOffer_ok in \<open>simp add: mesos_inv_def\<close>)
qed

lemma keeps_callbacks [keeps_rules]:
  "keeps mesos_inv (ResourceOffers apis resolve new_client os)" "keeps mesos_inv (OfferRescinded offerID)"
  "keeps mesos_inv (offer_expired drv offer)"
proof -
  show "keeps mesos_inv (ResourceOffers apis resolve new_client os)" unfolding ResourceOffers_def by (intro keeps_rules)
  show "keeps mesos_inv (OfferRescinded offerID)"
    by (auto simp: keeps_def OfferRescinded_def mesos_inv_def split: option.split_asm) (rule Mesos_removeOffer_ok)
  show "keeps mesos_inv (offer_expired drv offer)"
    by (auto simp: keeps_def offer_expired_def mesos_inv_def split: option.split_asm) (rule Mesos_removeOffer_ok)
qed

lemma create_task_ok:
  assumes "mesos_ok m" "create_task config extra name (m, d) = Some (r, m', d')"
    and "\<And>tid. r = Inr tid \<Longrightarrow> tid \<notin> fst ` set (heap m)"
  shows "mesos_ok m'"
proof (cases r)
  case (Inl err)
  with assms(1,2) show ?thesis by (auto simp: create_task_def Let_def split: if_split_asm)
next
  case (Inr tid)
  let ?t = "NewTask (m_ids m (m_drawn m)) config extra name"
  from assms(2) Inr have tid: "tid = t_ID ?t" and m': "m' = m\<lparr>m_drawn := Suc (m_drawn m), heap := AList.update tid ?t (heap m)\<rparr>"
    by (auto simp: create_task_def Let_def split: if_split_asm)
  from assms(3) [OF Inr] have new: "tid \<notin> fst ` set (heap m)" .
  have "agent_ok (AList.update tid ?t (heap m)) i s" if "(i, s) \<in> set (agents m)" for i s
  proof (rule agent_ok_heap [of "heap m"])
    show "agent_ok (heap m) i s" using that assms(1) by (auto simp: mesos_ok_def)
    show "\<exists>t'. map_of (AList.update tid ?t (heap m)) j = Some t' \<and> ti_SlaveId (t_info t') = ti_SlaveId (t_info t)"
      if "map_of (heap m) j = Some t" for j t
      using that new map_of_key [OF that] by (cases "j = tid") auto
  qed
  moreover have "t_ID t = j" if "(j, t) \<in> set (AList.update tid ?t (heap m))" for j t
    using alist_mem_update [OF _ that] assms(1) tid by (auto simp: mesos_ok_def)
  ultimately show ?thesis using assms(1) unfolding mesos_ok_def by (auto simp: m')
qed

subsection \<open>The manager on Mesos as a transition system\<close>

text \<open>
  The goroutines of the manager interleave at their critical sections. First what happens beside the queue: callbacks of
  the driver, events of the engines, status messages, timers and requests. \<open>failing\<close> are the tasks that may report a
  failure.
\<close>

inductive mesos_event :: "(string \<Rightarrow> 'd Api) \<Rightarrow> 'd Driver \<Rightarrow> (string \<Rightarrow> bool) \<Rightarrow> 'd mstate \<Rightarrow> 'd mstate \<Rightarrow> bool"
  for apis drv failing where
  m_world: "mesos_event apis drv failing (m, d) (m, d')"
| m_engine: "map_of (agents m) aid = Some s \<Longrightarrow> engine_step (apis (e_Addr (a_engine s))) (a_engine s, d) (e', d') \<Longrightarrow>
    mesos_event apis drv failing (m, d) (m\<lparr>agents := AList.update aid (s\<lparr>a_engine := e'\<rparr>) (agents m)\<rparr>, d')"
| m_offers: "ResourceOffers apis resolve new_client os st = Some (u, st') \<Longrightarrow> mesos_event apis drv failing st st'"
| m_rescinded: "OfferRescinded oid st = Some (u, st') \<Longrightarrow> mesos_event apis drv failing st st'"
| m_expired: "offer_expired drv offer st = Some (u, st') \<Longrightarrow> mesos_event apis drv failing st st'"
| m_status: "after_status apis aid tid status st = Some (u, st') \<Longrightarrow> snd (snd (Monitor status)) = None \<or> failing tid \<Longrightarrow>
    mesos_event apis drv failing st st'"
| m_timer: "timer_fires tid st = Some (u, st') \<Longrightarrow> mesos_event apis drv failing st st'"
| m_list: "Mesos_Containers m = Some (ks, m') \<Longrightarrow> mesos_event apis drv failing (m, d) (m', d)"
| m_rename: "Mesos_RenameContainer k name st = Some (r, st') \<Longrightarrow> mesos_event apis drv failing st st'"
| m_start: "Mesos_StartContainer apis k h st = Some (r, st') \<Longrightarrow> mesos_event apis drv failing st st'"
| m_remove: "Mesos_RemoveContainer apis k force vols st = Some (r, st') \<Longrightarrow> mesos_event apis drv failing st st'"
| m_create_network: "Mesos_CreateNetwork apis name request st = Some (n, st') \<Longrightarrow> mesos_event apis drv failing st st'"
| m_remove_network: "Mesos_RemoveNetwork apis nw st = Some (r, st') \<Longrightarrow> mesos_event apis drv failing st st'"
| m_build: "Mesos_BuildImage apis ctx opts st = Some (r, st') \<Longrightarrow> mesos_event apis drv failing st st'"

text \<open>
  Where the goroutines are that launch: the new tasks whose \<open>Add\<close> has not called \<open>LaunchTask\<close> yet, those whose \<open>Add\<close> was
  refused and waits for the lock of the queue, and the pass that holds this lock, if any, with the tasks it has still
  to try and those it will remove.
\<close>

record launches =
  added :: "string list"
  declined :: "string list"
  passing :: "(string list \<times> string list) option"

definition no_launches :: launches where
  "no_launches = \<lparr>added = [], declined = [], passing = None\<rparr>"

text \<open>\<open>LaunchTask\<close> as far as the queue is concerned: its critical section, and whether it was refused.\<close>

definition try_launch :: "'d Driver \<Rightarrow> string \<Rightarrow> ('d mstate, bool) op" where
  "try_launch drv tid = and_then (launch_section drv tid) (\<lambda>r. ret (r \<noteq> None))"

text \<open>
  The steps of the launching goroutines, made of the parts of \<open>Add\<close> and \<open>Process\<close>. The next task of a pass is any that is
  left, as the queue is a map. An error makes \<open>CreateContainer\<close> remove the task, which takes the lock. The identifier of a
  new task, a random text, is taken to be fresh.
\<close>

inductive mesos_step ::
    "(string \<Rightarrow> 'd Api) \<Rightarrow> 'd Driver \<Rightarrow> (string \<Rightarrow> bool) \<Rightarrow> launches \<times> 'd mstate \<Rightarrow> launches \<times> 'd mstate \<Rightarrow> bool"
  for apis drv failing where
  m_event: "mesos_event apis drv failing st st' \<Longrightarrow> mesos_step apis drv failing (q, st) (q, st')"
| m_create: "create_task config extra name (m, d) = Some (Inr tid, st') \<Longrightarrow> tid \<notin> fst ` set (heap m) \<Longrightarrow>
    mesos_step apis drv failing (q, m, d) (q\<lparr>added := tid # added q\<rparr>, st')"
| m_add: "tid \<in> set (added q) \<Longrightarrow> try_launch drv tid st = Some (b, st') \<Longrightarrow>
    mesos_step apis drv failing (q, st)
      (q\<lparr>added := remove1 tid (added q), declined := (if b then declined q else tid # declined q)\<rparr>, st')"
| m_enqueue: "tid \<in> set (declined q) \<Longrightarrow> passing q = None \<Longrightarrow> Tasks_enqueue tid st = Some (u, st') \<Longrightarrow>
    mesos_step apis drv failing (q, st) (q\<lparr>declined := remove1 tid (declined q)\<rparr>, st')"
| m_process: "passing q = None \<Longrightarrow>
    mesos_step apis drv failing (q, m, d) (q\<lparr>passing := Some (pendingTasks m, [])\<rparr>, m, d)"
| m_try: "passing q = Some (todo, toRemove) \<Longrightarrow> tid \<in> set todo \<Longrightarrow>
    process_one (try_launch drv) tid toRemove st = Some (toRemove', st') \<Longrightarrow>
    mesos_step apis drv failing (q, st) (q\<lparr>passing := Some (remove1 tid todo, toRemove')\<rparr>, st')"
| m_processed: "passing q = Some ([], toRemove) \<Longrightarrow> process_end toRemove st = Some (u, st') \<Longrightarrow>
    mesos_step apis drv failing (q, st) (q\<lparr>passing := None\<rparr>, st')"
| m_answer: "take_answer tid st = Some (a, st') \<Longrightarrow> (\<And>err. a = Some (Inl err) \<Longrightarrow> passing q = None) \<Longrightarrow>
    mesos_step apis drv failing (q, st) (q, st')"

subsection \<open>The invariant of the transition system\<close>

lemma mesos_engine_step_ok:
  assumes "mesos_ok m" "map_of (agents m) aid = Some s" "engine_step api (a_engine s, d) (e', d')"
  shows "mesos_ok (m\<lparr>agents := AList.update aid (s\<lparr>a_engine := e'\<rparr>) (agents m)\<rparr>)"
proof -
  note ok = agent_lookup [OF assms(1,2)]
  have "engine_inv (e_Addr (a_engine s)) [] (a_engine s, d)" using ok by (simp add: engine_inv_def agent_ok_def)
  from engine_step_inv [OF assms(3) this] have "engine_ok e'" by (simp add: engine_inv_def)
  from mesos_ok_update [OF assms(1) agent_ok_engine [OF ok this]] show ?thesis .
qed

lemmas mesos_op_inv = keeps_callbacks [THEN keepsD] keeps_after_status [THEN keepsD] keeps_small [THEN keepsD]
  keeps_mesos_networks [THEN keepsD]

lemma mesos_event_inv: "mesos_event apis drv failing st st' \<Longrightarrow> mesos_inv st \<Longrightarrow> mesos_inv st'"
proof (induction rule: mesos_event.induct)
  case (m_engine m aid s d e' d')
  then show ?case by (auto simp: mesos_inv_def intro: mesos_engine_step_ok)
next
  case (m_list m ks m' d)
  then show ?case by (auto simp: mesos_inv_def Mesos_Containers_def bind_eq_Some_conv intro: format_agents_ok)
next
  case (m_world m d d')
  then show ?case by (simp add: mesos_inv_def)
qed (rule mesos_op_inv, assumption, assumption)+

text \<open>Events change neither the queue nor the task objects.\<close>

definition still :: "string list \<Rightarrow> (string \<times> MTask) list \<Rightarrow> 'd mstate \<Rightarrow> bool" where
  "still q h st \<longleftrightarrow> pendingTasks (fst st) = q \<and> heap (fst st) = h"

lemma still_on_mesos: "(\<And>m. pendingTasks (g m) = pendingTasks m \<and> heap (g m) = heap m) \<Longrightarrow> keeps (still q h) (on_mesos g)"
  by (auto simp: keeps_def on_mesos_def modify_def still_def)

lemma still_calls:
  "keeps (still q h) (at_agent apis aid f)" "keeps (still q h) (of_agent apis aid f)" "keeps (still q h) (owned apis spec f)"
proof -
  show at: "keeps (still q h) (at_agent apis aid f)" for aid
    by (auto simp: keeps_def still_def at_agent_def split: option.split_asm)
  show "keeps (still q h) (of_agent apis aid f)" for aid
    by (auto simp: keeps_def still_def of_agent_def at_agent_def split: option.split_asm)
  then show "keeps (still q h) (owned apis spec f)" unfolding owned_def by (intro keeps_rules)
qed

lemma still_changes [simp]:
  "heap (send tid msg m) = heap m" "heap (answer tid msg m) = heap m" "heap (at_agents aid g m) = heap m"
  "heap (change_container k f m) = heap m" "pendingTasks (change_container k f m) = pendingTasks m"
  by (simp_all add: send_def answer_def at_agents_def change_container_def split: option.split)

lemma still_status: "keeps (still q h) (after_status apis aid tid status)"
  unfolding after_status_def find_by_label_def by (intro keeps_rules still_calls still_on_mesos) simp_all

lemma still_small:
  "keeps (still q h) (timer_fires tid)" "keeps (still q h) (Mesos_RenameContainer k name)"
  "keeps (still q h) (Mesos_StartContainer apis k cfg)"
proof -
  show "keeps (still q h) (timer_fires tid)"
    unfolding timer_fires_def by (intro still_on_mesos) (simp split: option.split)
  show "keeps (still q h) (Mesos_RenameContainer k name)"
    unfolding Mesos_RenameContainer_def by (intro keeps_rules still_on_mesos) simp_all
  have "keeps (still q h) (owned apis (c_Engine k) (\<lambda>api. StartContainer api (c_ID k) cfg))" by (rule still_calls)
  then show "keeps (still q h) (Mesos_StartContainer apis k cfg)"
    unfolding keeps_def Mesos_StartContainer_def by (auto split: if_split_asm)
qed

lemma still_networks:
  "keeps (still q h) (Mesos_CreateNetwork apis name request)" "keeps (still q h) (Mesos_RemoveNetwork apis n)"
  "keeps (still q h) (Mesos_BuildImage apis ctx opts)" "keeps (still q h) (Mesos_RemoveContainer apis k force vols)"
  unfolding refreshNetworks_def Mesos_CreateNetwork_def Mesos_RemoveNetwork_def Mesos_BuildImage_def
    Mesos_RemoveContainer_def Let_def
  by (intro keeps_rules still_calls)+

lemma still_addOffer [simp]: "pendingTasks (Mesos_addOffer x m) = pendingTasks m" "heap (Mesos_addOffer x m) = heap m"
  by (simp_all add: Mesos_addOffer_def split: option.split)

lemma still_removeOffer: "Mesos_removeOffer x m = Some (b, m') \<Longrightarrow> pendingTasks m' = pendingTasks m \<and> heap m' = heap m"
  by (auto simp: Mesos_removeOffer_def Let_def split: option.split_asm if_split_asm prod.split_asm)

lemma still_callbacks:
  "keeps (still q h) (ResourceOffers apis resolve new_client os)" "keeps (still q h) (OfferRescinded oid)"
  "keeps (still q h) (offer_expired drv offer)"
proof -
  have "keeps (still q h) (resource_offer apis resolve new_client x)" for x
    by (auto simp: keeps_def resource_offer_def Let_def still_def split: option.split_asm sum.split_asm prod.split_asm)
  then show "keeps (still q h) (ResourceOffers apis resolve new_client os)"
    unfolding ResourceOffers_def by (intro keeps_rules)
  show "keeps (still q h) (OfferRescinded oid)"
    by (auto simp: keeps_def OfferRescinded_def still_def split: option.split_asm) (metis still_removeOffer)+
  show "keeps (still q h) (offer_expired drv offer)"
    by (auto simp: keeps_def offer_expired_def still_def split: option.split_asm) (metis still_removeOffer)+
qed

lemmas still_op = still_callbacks [THEN keepsD] still_status [THEN keepsD] still_small [THEN keepsD] still_networks [THEN keepsD]

lemma mesos_event_still: "mesos_event apis drv failing st st' \<Longrightarrow> still q h st \<Longrightarrow> still q h st'"
proof (induction rule: mesos_event.induct)
  case (m_list m ks m' d)
  then show ?case by (auto simp: still_def Mesos_Containers_def format_agents_def bind_eq_Some_conv)
qed ((rule still_op, assumption, assumption) | simp add: still_def)+

text \<open>
  Nothing is launched twice: a task that may still be launched, because it is new, was refused or waits in the queue, has
  not been built; only the tasks that the current pass will remove may have been.
\<close>

definition unbuilt :: "MesosCluster \<Rightarrow> string \<Rightarrow> bool" where
  "unbuilt m tid \<longleftrightarrow> (\<exists>t. map_of (heap m) tid = Some t \<and> ti_SlaveId (t_info t) = None)"

definition leaving :: "launches \<Rightarrow> string set" where
  "leaving q = (case passing q of None \<Rightarrow> {} | Some (_, toRemove) \<Rightarrow> set toRemove)"

definition launches_ok :: "launches \<Rightarrow> MesosCluster \<Rightarrow> bool" where
  "launches_ok q m \<longleftrightarrow>
     distinct (added q @ declined q @ pendingTasks m) \<and>
     (\<forall>tid \<in> set (added q) \<union> set (declined q) \<union> (set (pendingTasks m) - leaving q). unbuilt m tid) \<and>
     (case passing q of None \<Rightarrow> True
      | Some (todo, toRemove) \<Rightarrow> distinct todo \<and> set todo \<subseteq> set (pendingTasks m) \<and> set todo \<inter> set toRemove = {})"

definition launch_inv :: "launches \<times> 'd mstate \<Rightarrow> bool" where
  "launch_inv x \<longleftrightarrow> (case x of (q, m, d) \<Rightarrow> mesos_ok m \<and> launches_ok q m)"

lemma launches_ok_same:
  "launches_ok q m \<Longrightarrow> pendingTasks m' = pendingTasks m \<Longrightarrow> heap m' = heap m \<Longrightarrow> launches_ok q m'"
  by (auto simp: launches_ok_def unbuilt_def split: option.splits)

lemma removeOffers_same: "remove_offers os m = Some m' \<Longrightarrow> pendingTasks m' = pendingTasks m \<and> heap m' = heap m"
  by (auto dest: remove_offers_rest)

lemma try_launch_effect:
  assumes "mesos_ok m" "unbuilt m tid" "try_launch drv tid (m, d) = Some (b, m', d')"
  shows "mesos_ok m' \<and> pendingTasks m' = pendingTasks m \<and> (\<forall>i. i \<noteq> tid \<longrightarrow> map_of (heap m') i = map_of (heap m) i) \<and>
    (\<not> b \<longrightarrow> m' = m)"
proof -
  from assms(2) obtain t where t: "map_of (heap m) tid = Some t" "ti_SlaveId (t_info t) = None" by (auto simp: unbuilt_def)
  from assms(3) obtain r where run: "launch_section drv tid (m, d) = Some (r, m', d')" and b: "b \<longleftrightarrow> r \<noteq> None"
    by (auto simp: try_launch_def and_then_Some ret_def)
  have at: "pendingTasks (at_task tid g m) = pendingTasks m" "i \<noteq> tid \<Longrightarrow> map_of (heap (at_task tid g m)) i = map_of (heap m) i"
    for g i by (simp_all add: at_task_def option.map_ident)
  from run t(1) task_lookup [OF assms(1) t(1)]
  have "pendingTasks m' = pendingTasks m \<and> (\<forall>i. i \<noteq> tid \<longrightarrow> map_of (heap m') i = map_of (heap m) i) \<and> (\<not> b \<longrightarrow> m' = m)"
  proof (cases rule: launch_cases)
    case (driver_error aid s t' err m1)
    from removeOffers_same [OF driver_error(4)] at driver_error(5,6) b show ?thesis by simp
  next
    case (launched nodes chosen n s t')
    from removeOffers_same [OF launched(7)] at launched(8) b show ?thesis by simp
  qed (use b in simp_all)
  with launch_section_ok [OF assms(1) t run] show ?thesis by blast
qed

lemma unbuilt_key: "unbuilt m i \<Longrightarrow> i \<in> fst ` set (heap m)"
  unfolding unbuilt_def by (elim exE conjE) (rule map_of_key)

lemma unbuilt_other: "unbuilt m i \<Longrightarrow> map_of (heap m') i = map_of (heap m) i \<Longrightarrow> unbuilt m' i"
  by (simp add: unbuilt_def)

lemma Tasks_remove_unbuilt: "unbuilt m i \<Longrightarrow> unbuilt (Tasks_remove tids m) i"
  unfolding unbuilt_def Tasks_remove_heap by (cases "i \<in> set tids") (auto simp: Stop_def)

lemma launches_ok_remove:
  assumes "launches_ok q m" "\<And>todo toRemove. passing q = Some (todo, toRemove) \<Longrightarrow> todo = [] \<and> set toRemove \<subseteq> set tids"
  shows "launches_ok (q\<lparr>passing := None\<rparr>) (Tasks_remove tids m)"
proof -
  have lv: "leaving q \<subseteq> set tids" using assms(2) by (auto simp: leaving_def split: option.split)
  have "unbuilt m i" if "i \<in> set (added q) \<union> set (declined q) \<union> (set (pendingTasks m) - set tids)" for i
    using assms(1) lv that unfolding launches_ok_def by blast
  then show ?thesis
    using assms(1) by (auto simp: launches_ok_def leaving_def Tasks_remove_pending Tasks_remove_unbuilt)
qed

lemma create_task_new:
  assumes "create_task config extra name (m, d) = Some (Inr tid, m', d')"
  shows "pendingTasks m' = pendingTasks m \<and> unbuilt m' tid \<and> (\<forall>i. i \<noteq> tid \<longrightarrow> map_of (heap m') i = map_of (heap m) i)"
  using assms by (auto simp: create_task_def Let_def unbuilt_def NewTask_def empty_task_info_def split: if_split_asm)

lemma take_answer_effect:
  assumes "take_answer tid (m, d) = Some (a, m', d')"
  shows "if \<exists>err. a = Some (Inl err) then m' = Tasks_remove [tid] m else pendingTasks m' = pendingTasks m \<and> heap m' = heap m"
  using assms by (auto simp: take_answer_def mesos_steps ret_def or_panic_def panic_def split: option.split_asm sum.split_asm)

text \<open>A launch that is not refused leaves all other tasks as they are.\<close>

lemma launches_ok_added:
  assumes "launches_ok q m" "tid \<in> set (added q)" "pendingTasks m' = pendingTasks m"
    and "\<And>i. unbuilt m i \<Longrightarrow> i \<noteq> tid \<Longrightarrow> unbuilt m' i" "\<not> b \<Longrightarrow> m' = m"
  shows "launches_ok (q\<lparr>added := remove1 tid (added q), declined := (if b then declined q else tid # declined q)\<rparr>) m'"
proof -
  have q: "distinct (added q)" "distinct (declined q)" "distinct (pendingTasks m)" "set (added q) \<inter> set (declined q) = {}"
    "set (added q) \<inter> set (pendingTasks m) = {}" "set (declined q) \<inter> set (pendingTasks m) = {}"
    using assms(1) by (auto simp: launches_ok_def)
  have un: "unbuilt m i" if "i \<in> set (added q) \<union> set (declined q) \<union> (set (pendingTasks m) - leaving q)" for i
    using assms(1) that unfolding launches_ok_def by blast
  have tid: "tid \<notin> set (declined q)" "tid \<notin> set (pendingTasks m)" using q assms(2) by auto
  have "unbuilt m' i" if "i \<in> set (remove1 tid (added q)) \<union> set (declined q) \<union> (set (pendingTasks m) - leaving q)" for i
    using that un [of i] assms(4) [of i] tid q(1) by (auto simp: set_remove1_eq)
  moreover have "unbuilt m' tid" if "\<not> b" using that un [of tid] assms(2,5) by simp
  moreover have "distinct (remove1 tid (added q) @ (if b then declined q else tid # declined q) @ pendingTasks m)"
    using q tid by (auto simp: set_remove1_eq distinct_remove1)
  moreover have "case passing q of None \<Rightarrow> True
      | Some (todo, toRemove) \<Rightarrow> distinct todo \<and> set todo \<subseteq> set (pendingTasks m) \<and> set todo \<inter> set toRemove = {}"
    using assms(1) by (simp add: launches_ok_def)
  ultimately show ?thesis by (auto simp: launches_ok_def leaving_def assms(3) split: option.splits)
qed

lemma launches_ok_tried:
  assumes "launches_ok q m" "passing q = Some (todo, toRemove)" "tid \<in> set todo" "pendingTasks m' = pendingTasks m"
    and "\<And>i. unbuilt m i \<Longrightarrow> i \<noteq> tid \<Longrightarrow> unbuilt m' i" "\<not> b \<Longrightarrow> m' = m"
  shows "launches_ok (q\<lparr>passing := Some (remove1 tid todo, if b then toRemove @ [tid] else toRemove)\<rparr>) m'"
proof -
  have q: "distinct (added q @ declined q @ pendingTasks m)" "distinct todo" "set todo \<subseteq> set (pendingTasks m)" "set todo \<inter> set toRemove = {}"
    using assms(1,2) by (auto simp: launches_ok_def)
  have un: "unbuilt m i" if "i \<in> set (added q) \<union> set (declined q) \<union> (set (pendingTasks m) - set toRemove)" for i
    using assms(1,2) that unfolding launches_ok_def leaving_def by simp
  have tid: "tid \<in> set (pendingTasks m)" "tid \<notin> set (added q)" "tid \<notin> set (declined q)" using q assms(3) by auto
  have "unbuilt m' i" if "i \<in> set (added q) \<union> set (declined q) \<union> (set (pendingTasks m) - set (if b then toRemove @ [tid] else toRemove))" for i
    using that un [of i] assms(5) [of i] assms(6) tid by (cases b) auto
  moreover have "distinct (remove1 tid todo)" "set (remove1 tid todo) \<subseteq> set (pendingTasks m)"
    "set (remove1 tid todo) \<inter> set (if b then toRemove @ [tid] else toRemove) = {}"
    using q by (auto simp: set_remove1_eq distinct_remove1)
  ultimately show ?thesis using q(1) unfolding launches_ok_def leaving_def assms(4) by simp
qed

lemma launches_ok_created:
  assumes "launches_ok q m" "mesos_ok m" "tid \<notin> fst ` set (heap m)" "pendingTasks m' = pendingTasks m" "unbuilt m' tid"
    and "\<And>i. i \<noteq> tid \<Longrightarrow> map_of (heap m') i = map_of (heap m) i"
  shows "launches_ok (q\<lparr>added := tid # added q\<rparr>) m'"
proof -
  have gone: "i \<noteq> tid" if "unbuilt m i" for i using unbuilt_key [OF that] assms(3) by blast
  have queued: "tid \<notin> set (pendingTasks m)" using assms(2,3) by (auto simp: mesos_ok_def)
  have un: "unbuilt m i" if "i \<in> set (added q) \<union> set (declined q) \<union> (set (pendingTasks m) - leaving q)" for i
    using assms(1) that unfolding launches_ok_def by blast
  then have "unbuilt m' i" if "i \<in> set (added q) \<union> set (declined q) \<union> (set (pendingTasks m) - leaving q)" for i
    using that gone assms(6) unbuilt_other by blast
  moreover have "tid \<notin> set (added q)" "tid \<notin> set (declined q)" using un gone by blast+
  moreover have "leaving (q\<lparr>added := tid # added q\<rparr>) = leaving q" by (simp add: leaving_def)
  ultimately show ?thesis using assms(1,5) queued unfolding launches_ok_def assms(4) by simp
qed

lemma launches_ok_enqueued:
  assumes "launches_ok q m" "tid \<in> set (declined q)" "passing q = None"
  shows "launches_ok (q\<lparr>declined := remove1 tid (declined q)\<rparr>) (m\<lparr>pendingTasks := List.insert tid (pendingTasks m)\<rparr>)"
proof -
  have q: "distinct (added q @ declined q @ pendingTasks m)" using assms(1) by (simp add: launches_ok_def)
  have un: "unbuilt m i" if "i \<in> set (added q) \<union> set (declined q) \<union> set (pendingTasks m)" for i
    using assms(1,3) that unfolding launches_ok_def leaving_def by simp
  have "unbuilt (m\<lparr>pendingTasks := List.insert tid (pendingTasks m)\<rparr>) i"
    if "i \<in> set (added q) \<union> set (remove1 tid (declined q)) \<union> set (List.insert tid (pendingTasks m))" for i
    using that un [of i] assms(2) q by (auto simp: unbuilt_def set_remove1_eq)
  moreover have "distinct (added q @ remove1 tid (declined q) @ List.insert tid (pendingTasks m))"
    using q assms(2) by (auto simp: set_remove1_eq distinct_remove1)
  ultimately show ?thesis using assms(3) by (simp add: launches_ok_def leaving_def)
qed

lemma mesos_step_inv: "mesos_step apis drv failing x y \<Longrightarrow> launch_inv x \<Longrightarrow> launch_inv y"
proof (induction rule: mesos_step.induct)
  case (m_event st st' q)
  obtain m d m' d' where st: "st = (m, d)" "st' = (m', d')" by (cases st, cases st')
  have "still (pendingTasks m) (heap m) st" by (simp add: still_def st)
  from mesos_event_still [OF m_event(1) this] have same: "pendingTasks m' = pendingTasks m" "heap m' = heap m"
    by (simp_all add: still_def st)
  have ok: "mesos_inv st" "launches_ok q m" using m_event(2) by (simp_all add: launch_inv_def mesos_inv_def st)
  from mesos_event_inv [OF m_event(1) ok(1)] launches_ok_same [OF ok(2) same] show ?case
    by (simp add: launch_inv_def mesos_inv_def st)
next
  case (m_create config extra name m d tid st' q)
  obtain m' d' where st': "st' = (m', d')" by (cases st')
  note run = m_create(1) [unfolded st'] and new = create_task_new [OF m_create(1) [unfolded st']]
  have ok: "mesos_ok m" "launches_ok q m" using m_create(3) by (simp_all add: launch_inv_def)
  have "mesos_ok m'" by (rule create_task_ok [OF ok(1) run]) (use m_create(2) in simp)
  moreover have "launches_ok (q\<lparr>added := tid # added q\<rparr>) m'"
    using new by (intro launches_ok_created [OF ok(2,1) m_create(2)]) blast+
  ultimately show ?case by (simp add: launch_inv_def st')
next
  case (m_add tid q st b st')
  obtain m d m' d' where st: "st = (m, d)" "st' = (m', d')" by (cases st, cases st')
  have ok: "mesos_ok m" "launches_ok q m" using m_add(3) by (simp_all add: launch_inv_def st)
  then have "unbuilt m tid" using m_add(1) by (simp add: launches_ok_def)
  note eff = try_launch_effect [OF ok(1) this m_add(2) [unfolded st]]
  have "launches_ok (q\<lparr>added := remove1 tid (added q), declined := (if b then declined q else tid # declined q)\<rparr>) m'"
    using eff unbuilt_other by (intro launches_ok_added [OF ok(2) m_add(1)]) blast+
  with eff show ?case by (simp add: launch_inv_def st)
next
  case (m_enqueue tid q st u st')
  obtain m d where st: "st = (m, d)" by (cases st)
  have ok: "mesos_ok m" "launches_ok q m" using m_enqueue(4) by (simp_all add: launch_inv_def st)
  have st': "st' = (m\<lparr>pendingTasks := List.insert tid (pendingTasks m)\<rparr>, d)"
    using m_enqueue(3) by (auto simp: Tasks_enqueue_def on_mesos_def modify_def st)
  have "unbuilt m tid" using ok(2) m_enqueue(1) by (simp add: launches_ok_def)
  then have "tid \<in> fst ` set (heap m)" by (rule unbuilt_key)
  then have "mesos_ok (m\<lparr>pendingTasks := List.insert tid (pendingTasks m)\<rparr>)" using ok(1) by (auto simp: mesos_ok_def)
  with launches_ok_enqueued [OF ok(2) m_enqueue(1,2)] show ?case by (simp add: launch_inv_def st')
next
  case (m_process q m d)
  then show ?case by (simp add: launch_inv_def launches_ok_def leaving_def)
next
  case (m_try q todo toRemove tid st toRemove' st')
  obtain m d m' d' where st: "st = (m, d)" "st' = (m', d')" by (cases st, cases st')
  have ok: "mesos_ok m" "launches_ok q m" using m_try(4) by (simp_all add: launch_inv_def st)
  have "tid \<in> set (pendingTasks m) - set toRemove" using ok(2) m_try(1,2) by (auto simp: launches_ok_def)
  then have un: "unbuilt m tid" using ok(2) m_try(1) by (simp add: launches_ok_def leaving_def)
  from m_try(3) obtain b where run: "try_launch drv tid (m, d) = Some (b, m', d')"
    and rm: "toRemove' = (if b then toRemove @ [tid] else toRemove)"
    by (auto simp: process_one_def and_then_Some ret_def st)
  note eff = try_launch_effect [OF ok(1) un run]
  have "launches_ok (q\<lparr>passing := Some (remove1 tid todo, toRemove')\<rparr>) m'"
    unfolding rm using eff unbuilt_other by (intro launches_ok_tried [OF ok(2) m_try(1,2)]) blast+
  with eff show ?case by (simp add: launch_inv_def st)
next
  case (m_processed q toRemove st u st')
  obtain m d where st: "st = (m, d)" by (cases st)
  have ok: "mesos_ok m" "launches_ok q m" using m_processed(3) by (simp_all add: launch_inv_def st)
  have st': "st' = (Tasks_remove toRemove m, d)"
    using m_processed(2) by (auto simp: process_end_def on_mesos_def modify_def st)
  have "launches_ok (q\<lparr>passing := None\<rparr>) (Tasks_remove toRemove m)"
    using m_processed(1) by (intro launches_ok_remove [OF ok(2)]) simp
  with Tasks_remove_ok [OF ok(1)] show ?case by (simp add: launch_inv_def st')
next
  case (m_answer tid st a st' q)
  obtain m d m' d' where st: "st = (m, d)" "st' = (m', d')" by (cases st, cases st')
  have ok: "mesos_ok m" "launches_ok q m" using m_answer(3) by (simp_all add: launch_inv_def st)
  have "mesos_inv st" using ok by (simp add: mesos_inv_def st)
  from keepsD [OF keeps_small(2) this m_answer(1)] have "mesos_ok m'" by (simp add: mesos_inv_def st)
  moreover have "launches_ok q m'"
  proof (cases "\<exists>err. a = Some (Inl err)")
    case True
    then have none: "passing q = None" using m_answer(2) by blast
    from True take_answer_effect [OF m_answer(1) [unfolded st]] have "m' = Tasks_remove [tid] m" by simp
    moreover have "q\<lparr>passing := None\<rparr> = q" using none by (cases q) simp
    moreover have "launches_ok (q\<lparr>passing := None\<rparr>) (Tasks_remove [tid] m)"
      by (rule launches_ok_remove [OF ok(2)]) (simp add: none)
    ultimately show ?thesis by (simp only:)
  next
    case False
    with take_answer_effect [OF m_answer(1) [unfolded st]] launches_ok_same [OF ok(2)] show ?thesis by simp
  qed
  ultimately show ?case by (simp add: launch_inv_def st)
qed

lemma mesos_steps_inv: "(mesos_step apis drv failing)\<^sup>*\<^sup>* x y \<Longrightarrow> launch_inv x \<Longrightarrow> launch_inv y"
  by (induction rule: rtranclp_induct) (auto dest: mesos_step_inv)

lemma and_try_Inr: "and_try x f = Some (Inr y) \<longleftrightarrow> (\<exists>v. x = Some (Inr v) \<and> f v = Some (Inr y))"
  by (auto simp: and_try_def split: option.splits sum.splits)

lemma new_mesos_ok:
  "Mesos_NewCluster getenv parseDuration started sch tls options retry rs = Some (Inr m) \<Longrightarrow> 0 < retry \<Longrightarrow> retry < 2 ^ 63 \<Longrightarrow>
     mesos_ok m \<and> pendingTasks m = []"
proof -
  have panics: "(if b then None else x) = Some y \<longleftrightarrow> \<not> b \<and> x = Some y" for b :: bool and x and y :: "MesosCluster result" by simp
  assume "Mesos_NewCluster getenv parseDuration started sch tls options retry rs = Some (Inr m)" "0 < retry" "retry < 2 ^ 63"
  then have "agents m = []" "pendingTasks m = []" "heap m = []" "m_FailureRetry m = retry"
    unfolding Mesos_NewCluster_def Let_def and_try_Inr panics by (elim conjE exE; clarify; simp)+
  with \<open>0 < retry\<close> \<open>retry < 2 ^ 63\<close> show ?thesis by (simp add: mesos_ok_def)
qed

text \<open>
  C36. In every state that a new Mesos cluster can reach, through any interleaving of offers, rescinded and expired offers, status
  messages, timers and requests with the steps of creations and of passes over the queue, agents, offers and task objects are
  stored under their own identifiers, an agent holds only offers of its own, every engine satisfies its invariant, every waiting
  task exists, and every running task was built for the one agent that runs it; a task that has not been launched, be it new,
  refused or waiting, has not been built, unless the current pass has launched it and will remove it from the queue. New identifiers
  of tasks are taken to be fresh.
\<close>

theorem mesos_reachable_ok:
  assumes "Mesos_NewCluster getenv parseDuration started sch tls options retry rs = Some (Inr m0)" "0 < retry" "retry < 2 ^ 63"
    and "(mesos_step apis drv failing)\<^sup>*\<^sup>* (no_launches, m0, d0) (q, m, d)"
  shows "mesos_ok m \<and> launches_ok q m \<and>
    (\<forall>i s j s' tid. map_of (agents m) i = Some s \<longrightarrow> map_of (agents m) j = Some s' \<longrightarrow>
       tid \<in> set (tasks s) \<longrightarrow> tid \<in> set (tasks s') \<longrightarrow> i = j)"
proof -
  have "mesos_ok m0" "pendingTasks m0 = []" using new_mesos_ok [OF assms(1-3)] by simp_all
  then have "launch_inv (no_launches, m0, d0)" by (simp add: launch_inv_def launches_ok_def no_launches_def)
  from mesos_steps_inv [OF assms(4) this] have ok: "mesos_ok m" "launches_ok q m" by (simp_all add: launch_inv_def)
  moreover have "i = j" if "map_of (agents m) i = Some s" "map_of (agents m) j = Some s'" "tid \<in> set (tasks s)" "tid \<in> set (tasks s')"
    for i s j s' tid
    using agent_lookup [OF ok(1) that(1)] agent_lookup [OF ok(1) that(2)] that(3,4) by (force simp: agent_ok_def)
  ultimately show ?thesis by blast
qed

subsection \<open>A task that started is never released\<close>

definition runs :: "string \<Rightarrow> string \<Rightarrow> 'd mstate \<Rightarrow> bool" where
  "runs aid tid st \<longleftrightarrow> (\<exists>s. map_of (agents (fst st)) aid = Some s \<and> tid \<in> set (tasks s))"

lemma runs_at_agent: "keeps (runs aid tid) (at_agent apis i f)"
  by (auto simp: keeps_def runs_def at_agent_def split: option.split_asm)

lemma runs_of_agent: "keeps (runs aid tid) (of_agent apis i f)"
  by (auto simp: keeps_def runs_def of_agent_def at_agent_def split: option.split_asm)

lemma runs_owned: "keeps (runs aid tid) (owned apis spec f)"
  unfolding owned_def by (intro keeps_rules runs_of_agent)

lemma runs_on_mesos:
  "(\<And>m s. map_of (agents m) aid = Some s \<Longrightarrow> tid \<in> set (tasks s) \<Longrightarrow>
      \<exists>s'. map_of (agents (f m)) aid = Some s' \<and> tid \<in> set (tasks s')) \<Longrightarrow> keeps (runs aid tid) (on_mesos f)"
  by (fastforce simp: keeps_def on_mesos_def modify_def runs_def)

lemma agents_same [simp]:
  "agents (send i msg m) = agents m" "agents (answer i msg m) = agents m" "agents (at_task i f m) = agents m"
  "agents (Tasks_remove tids m) = agents m"
proof -
  show "agents (Tasks_remove tids m) = agents m"
    by (induction tids arbitrary: m) (simp_all add: Tasks_remove_def at_task_def)
qed (simp_all add: send_def answer_def at_task_def split: option.split)

lemma agents_at_agents: "map_of (agents (at_agents i f m)) aid = map_option (\<lambda>s. if aid = i then f s else s) (map_of (agents m) aid)"
  by (simp add: at_agents_def)

lemma runs_removeOffer: "Mesos_removeOffer offer m = Some (b, m') \<Longrightarrow> runs aid tid (m, d) \<Longrightarrow> runs aid tid (m', d')"
  by (auto simp: Mesos_removeOffer_def runs_def agent_removeOffer_def agent_empty_def Let_def split: option.split_asm if_split_asm)

lemma runs_remove_offers: "remove_offers os m = Some m' \<Longrightarrow> runs aid tid (m, d) \<Longrightarrow> runs aid tid (m', d')"
proof (induction os arbitrary: m d)
  case (Cons x os)
  then obtain b m1 where "Mesos_removeOffer x m = Some (b, m1)" "remove_offers os m1 = Some m'" by (auto simp: bind_eq_Some_conv)
  with Cons runs_removeOffer show ?case by metis
qed (simp add: runs_def)

lemma runs_calls: "keeps (runs aid tid) (driver_call c)" "keeps (runs aid tid) (remove_all_offers os)"
proof -
  show "keeps (runs aid tid) (driver_call c)"
    by (auto simp: keeps_def runs_def driver_call_def Let_def split: prod.split_asm)
  show "keeps (runs aid tid) (remove_all_offers os)"
    using runs_remove_offers by (fastforce simp: keeps_def remove_all_offers_def)
qed

lemma runs_launch: "keeps (runs aid tid) (launch_section drv i)"
  unfolding launch_section_def launch_on_def
  by (intro keeps_rules runs_calls runs_on_mesos) (auto simp: agents_at_agents agent_addTask_def)

lemma runs_after_status:
  assumes "snd (snd (Monitor status)) = None \<or> i \<noteq> tid"
  shows "keeps (runs aid tid) (after_status apis j i status)"
  unfolding after_status_def find_by_label_def
  by (intro keeps_rules runs_of_agent runs_on_mesos) (use assms in \<open>auto simp: agents_at_agents agent_removeTask_def\<close>)

lemma runs_change_container: "map_of (agents m) aid = Some s \<Longrightarrow> tid \<in> set (tasks s) \<Longrightarrow>
    \<exists>s'. map_of (agents (change_container k f m)) aid = Some s' \<and> tid \<in> set (tasks s')"
  by (simp add: change_container_def agents_at_agents)

lemma runs_small:
  "keeps (runs aid tid) (timer_fires i)" "keeps (runs aid tid) (take_answer i)" "keeps (runs aid tid) (Mesos_RenameContainer k name)"
  "keeps (runs aid tid) (Mesos_StartContainer apis k h)"
proof -
  show "keeps (runs aid tid) (timer_fires i)"
    unfolding timer_fires_def by (intro runs_on_mesos) (simp split: option.split)
  show "keeps (runs aid tid) (take_answer i)"
    unfolding take_answer_def by (intro keeps_rules runs_on_mesos runs_change_container) simp_all
  show "keeps (runs aid tid) (Mesos_RenameContainer k name)"
    unfolding Mesos_RenameContainer_def by (intro keeps_rules runs_on_mesos runs_change_container) simp_all
  have "keeps (runs aid tid) (owned apis (c_Engine k) (\<lambda>api. StartContainer api (c_ID k) h))" by (rule runs_owned)
  then show "keeps (runs aid tid) (Mesos_StartContainer apis k h)"
    unfolding keeps_def Mesos_StartContainer_def by (auto split: if_split_asm)
qed

lemma runs_networks:
  "keeps (runs aid tid) (refreshNetworks apis)" "keeps (runs aid tid) (Mesos_CreateNetwork apis name request)"
  "keeps (runs aid tid) (Mesos_RemoveNetwork apis n)" "keeps (runs aid tid) (Mesos_BuildImage apis ctx opts)"
  "keeps (runs aid tid) (Mesos_RemoveContainer apis k force vols)"
  unfolding refreshNetworks_def Mesos_CreateNetwork_def Mesos_RemoveNetwork_def Mesos_BuildImage_def
    Mesos_RemoveContainer_def Let_def
  by (intro keeps_rules runs_at_agent runs_owned)+

lemma runs_offers: "keeps (runs aid tid) (resource_offer apis resolve new_client offer)"
  by (auto simp: keeps_def resource_offer_def Let_def runs_def Mesos_addOffer_def agents_at_agents agent_addOffer_def
      split: option.split_asm sum.split_asm prod.split_asm)

lemma runs_callbacks:
  "keeps (runs aid tid) (ResourceOffers apis resolve new_client os)" "keeps (runs aid tid) (OfferRescinded oid)"
  "keeps (runs aid tid) (offer_expired drv offer)"
proof -
  show "keeps (runs aid tid) (ResourceOffers apis resolve new_client os)"
    unfolding ResourceOffers_def by (intro keeps_rules runs_offers)
  show "keeps (runs aid tid) (OfferRescinded oid)"
    using runs_removeOffer by (fastforce simp: keeps_def OfferRescinded_def split: option.split_asm)
  show "keeps (runs aid tid) (offer_expired drv offer)"
    using runs_removeOffer by (fastforce simp: keeps_def offer_expired_def split: option.split_asm)
qed

lemma runs_engine_step:
  "map_of (agents m) i = Some s \<Longrightarrow> runs aid tid (m, d) \<Longrightarrow> runs aid tid (m\<lparr>agents := AList.update i (s\<lparr>a_engine := e\<rparr>) (agents m)\<rparr>, d')"
  by (auto simp: runs_def)

lemma runs_format: "format_agents m = Some m' \<Longrightarrow> runs aid tid (m, d) \<Longrightarrow> runs aid tid (m', d')"
proof -
  let ?f = "\<lambda>(i, s). map_option (\<lambda>e. (i, s\<lparr>a_engine := e\<rparr>)) (format_engine (a_engine s))"
  have look: "map_of as i = Some s \<Longrightarrow> list_all2 (\<lambda>x y. ?f x = Some y) as bs \<Longrightarrow> \<exists>e. map_of bs i = Some (s\<lparr>a_engine := e\<rparr>)"
    for as bs i s
    by (induction as arbitrary: bs) (auto simp: list_all2_Cons1 split: if_split_asm)
  assume "format_agents m = Some m'" "runs aid tid (m, d)"
  then show ?thesis
    using look those_list by (fastforce simp: runs_def format_agents_def bind_eq_Some_conv)
qed

lemmas runs_op = runs_callbacks [THEN keepsD] runs_small [THEN keepsD] runs_networks [THEN keepsD]

lemma runs_event: "mesos_event apis drv failing st st' \<Longrightarrow> \<not> failing tid \<Longrightarrow> runs aid tid st \<Longrightarrow> runs aid tid st'"
proof (induction rule: mesos_event.induct)
  case (m_engine m i s d e' d')
  then show ?case by (auto intro: runs_engine_step)
next
  case (m_status j i status st u st')
  then have "snd (snd (Monitor status)) = None \<or> i \<noteq> tid" by auto
  from keepsD [OF runs_after_status [OF this] m_status(4,1)] show ?case .
next
  case (m_list m ks m' d)
  then show ?case by (auto simp: Mesos_Containers_def bind_eq_Some_conv intro: runs_format)
next
  case (m_world m d d')
  then show ?case by (simp add: runs_def)
qed (rule runs_op, assumption, assumption)+

lemma runs_try_launch: "keeps (runs aid tid) (try_launch drv i)"
  unfolding try_launch_def by (intro keeps_rules runs_launch)

lemma runs_process:
  "keeps (runs aid tid) (Tasks_enqueue i)" "keeps (runs aid tid) (process_one (try_launch drv) i toRemove)"
  "keeps (runs aid tid) (process_end toRemove)"
  unfolding Tasks_enqueue_def process_one_def process_end_def by (intro keeps_rules runs_try_launch runs_on_mesos; simp)+

lemmas runs_queue_op = runs_try_launch [THEN keepsD] runs_process [THEN keepsD] runs_small(2) [THEN keepsD]

lemma runs_step: "mesos_step apis drv failing x y \<Longrightarrow> \<not> failing tid \<Longrightarrow> runs aid tid (snd x) \<Longrightarrow> runs aid tid (snd y)"
proof (induction rule: mesos_step.induct)
  case (m_event st st' q)
  from runs_event [OF m_event(1)] m_event(2,3) show ?case by simp
next
  case (m_create config extra name m d i st' q)
  then show ?case by (auto simp: create_task_def Let_def runs_def split: if_split_asm)
next
  case (m_process q m d)
  then show ?case by simp
qed (simp only: snd_conv, rule runs_queue_op, assumption, assumption)+

text \<open>
  A task that started is never released: once an agent runs a task that does not report a failure, it runs it in every later
  state, whatever happens, even after the task has finished; so the agent is never disconnected and forgotten for lack
  of offers. The comment in the code announces the removal, and no code does it.
\<close>

lemma mesos_task_never_released:
  assumes "(mesos_step apis drv failing)\<^sup>*\<^sup>* (q, m, d) (q', m', d')" "\<not> failing tid"
    and "map_of (agents m) aid = Some s" "tid \<in> set (tasks s)"
  shows "\<exists>s'. map_of (agents m') aid = Some s' \<and> tid \<in> set (tasks s')"
proof -
  have "runs aid tid (snd (q', m', d'))"
    using assms(1)
  proof (induction rule: rtranclp_induct)
    case base
    show ?case using assms(3,4) by (simp add: runs_def)
  next
    case (step y z)
    with runs_step assms(2) show ?case by blast
  qed
  then show ?thesis by (simp add: runs_def)
qed

subsection \<open>Adding a task and passes over the queue are runs of the transition system\<close>

lemma status_steps:
  assumes "launch_section drv tid st = Some (r, st1)" "LaunchTask apis drv tid st = Some (b, st')"
  shows "b = (r \<noteq> None) \<and> (mesos_event apis drv (\<lambda>_. True))\<^sup>*\<^sup>* st1 st'"
proof (cases "\<exists>aid. r = Some (Some aid)")
  case True
  then obtain aid where r: "r = Some (Some aid)" by blast
  obtain m1 d1 where st1: "st1 = (m1, d1)" by (cases st1)
  from assms r obtain status d2 u where "after_status apis aid tid status (m1, d2) = Some (u, st')" and b
    by (auto simp: LaunchTask_def and_then_Some ret_def Let_def st1 split: prod.split_asm)
  then have "mesos_event apis drv (\<lambda>_. True) (m1, d1) (m1, d2)" "mesos_event apis drv (\<lambda>_. True) (m1, d2) st'"
    by (auto intro: m_world m_status)
  with \<open>b\<close> r st1 show ?thesis by (metis (no_types, lifting) option.distinct(1) rtranclp.rtrancl_into_rtrancl rtranclp.rtrancl_refl)
next
  case False
  with assms show ?thesis by (auto simp: LaunchTask_def and_then_def ret_def split: option.split_asm)
qed

lemma events_steps: "(mesos_event apis drv failing)\<^sup>*\<^sup>* st st' \<Longrightarrow> (mesos_step apis drv failing)\<^sup>*\<^sup>* (q, st) (q, st')"
  by (induction rule: rtranclp_induct) (auto intro: rtranclp.rtrancl_into_rtrancl m_event)

lemma LaunchTask_try:
  assumes "LaunchTask apis drv tid st = Some (b, st')"
  shows "\<exists>st1. try_launch drv tid st = Some (b, st1) \<and> (mesos_event apis drv (\<lambda>_. True))\<^sup>*\<^sup>* st1 st'"
proof -
  from assms obtain r st1 where sec: "launch_section drv tid st = Some (r, st1)" by (auto simp: LaunchTask_def and_then_Some)
  from status_steps [OF sec assms] sec show ?thesis by (auto simp: try_launch_def and_then_def ret_def)
qed

text \<open>An undisturbed call of \<open>Add\<close>, and an undisturbed pass in any order.\<close>

lemma add_runs:
  assumes "Tasks_Add (LaunchTask apis drv) tid st = Some (u, st')" "tid \<in> set (added q)" "passing q = None"
  shows "(mesos_step apis drv (\<lambda>_. True))\<^sup>*\<^sup>* (q, st) (q\<lparr>added := remove1 tid (added q)\<rparr>, st')"
proof -
  let ?S = "mesos_step apis drv (\<lambda>_. True)"
  from assms(1) obtain b st1 where run: "LaunchTask apis drv tid st = Some (b, st1)"
    and rest: "(if \<not> b then Tasks_enqueue tid else ret ()) st1 = Some (u, st')" by (auto simp: Tasks_Add_def and_then_Some)
  from LaunchTask_try [OF run] obtain st2 where launch: "try_launch drv tid st = Some (b, st2)"
    and ev: "(mesos_event apis drv (\<lambda>_. True))\<^sup>*\<^sup>* st2 st1" by blast
  note events_steps [OF ev]
  then have first: "?S\<^sup>*\<^sup>* (q, st) (q\<lparr>added := remove1 tid (added q), declined := (if b then declined q else tid # declined q)\<rparr>, st1)"
    using m_add [OF assms(2) launch] by (meson converse_rtranclp_into_rtranclp)
  show ?thesis
  proof (cases b)
    case True
    with first rest show ?thesis by (simp add: ret_def)
  next
    case False
    let ?q = "q\<lparr>added := remove1 tid (added q), declined := tid # declined q\<rparr>"
    have "?S (?q, st1) (?q\<lparr>declined := remove1 tid (declined ?q)\<rparr>, st')"
      using False rest assms(3) by (intro m_enqueue) auto
    with first False show ?thesis by (simp add: rtranclp.rtrancl_into_rtrancl)
  qed
qed

lemma pass_runs:
  assumes "fold_op (process_one (LaunchTask apis drv)) order toRemove st = Some (toRemove', st')"
    and "passing q = Some (todo, toRemove)" "mset todo = mset order"
  shows "(mesos_step apis drv (\<lambda>_. True))\<^sup>*\<^sup>* (q, st) (q\<lparr>passing := Some ([], toRemove')\<rparr>, st')"
  using assms
proof (induction order arbitrary: toRemove st q todo)
  case Nil
  then have "q\<lparr>passing := Some ([], toRemove')\<rparr> = q" "st' = st" by (simp_all add: ret_def)
  then show ?case by simp
next
  case (Cons tid order)
  let ?S = "mesos_step apis drv (\<lambda>_. True)"
  from Cons.prems(1) obtain acc st1 where one: "process_one (LaunchTask apis drv) tid toRemove st = Some (acc, st1)"
    and rest: "fold_op (process_one (LaunchTask apis drv)) order acc st1 = Some (toRemove', st')" by (auto simp: and_then_Some)
  from one obtain b where run: "LaunchTask apis drv tid st = Some (b, st1)" and acc: "acc = (if b then toRemove @ [tid] else toRemove)"
    by (auto simp: process_one_def and_then_Some ret_def)
  from LaunchTask_try [OF run] obtain st2 where launch: "try_launch drv tid st = Some (b, st2)"
    and ev: "(mesos_event apis drv (\<lambda>_. True))\<^sup>*\<^sup>* st2 st1" by blast
  define q1 where "q1 = q\<lparr>passing := Some (remove1 tid todo, if b then toRemove @ [tid] else toRemove)\<rparr>"
  have "tid \<in> set todo" using Cons.prems(3) by (metis list.set_intros(1) mset_eq_setD)
  moreover have "process_one (try_launch drv) tid toRemove st = Some (if b then toRemove @ [tid] else toRemove, st2)"
    using launch by (simp add: process_one_def and_then_def ret_def)
  ultimately have "?S (q, st) (q1, st2)" unfolding q1_def by (intro m_try [OF Cons.prems(2)])
  moreover have "mset (remove1 tid todo) = mset order" using Cons.prems(3) by simp
  then have "?S\<^sup>*\<^sup>* (q1, st1) (q1\<lparr>passing := Some ([], toRemove')\<rparr>, st')"
    using rest by (intro Cons.IH [where todo = "remove1 tid todo" and toRemove = acc]) (simp_all add: q1_def acc)
  moreover have "q1\<lparr>passing := Some ([], toRemove')\<rparr> = q\<lparr>passing := Some ([], toRemove')\<rparr>" by (simp add: q1_def)
  ultimately show ?case using events_steps [OF ev, of q1]
    by (metis (no_types, lifting) converse_rtranclp_into_rtranclp rtranclp_trans)
qed

lemma process_runs:
  assumes "Tasks_Process order (LaunchTask apis drv) (m, d) = Some (u, st')" "passing q = None" "mset order = mset (pendingTasks m)"
  shows "(mesos_step apis drv (\<lambda>_. True))\<^sup>*\<^sup>* (q, m, d) (q, st')"
proof -
  let ?S = "mesos_step apis drv (\<lambda>_. True)" and ?q = "q\<lparr>passing := Some (pendingTasks m, [])\<rparr>"
  from assms(1) obtain toRemove st1 where loop: "fold_op (process_one (LaunchTask apis drv)) order [] (m, d) = Some (toRemove, st1)"
    and last: "process_end toRemove st1 = Some (u, st')" by (auto simp: Tasks_Process_def and_then_Some)
  have "?S (q, m, d) (?q, m, d)" by (rule m_process [OF assms(2)])
  moreover have "?S\<^sup>*\<^sup>* (?q, m, d) (?q\<lparr>passing := Some ([], toRemove)\<rparr>, st1)"
    by (rule pass_runs [OF loop, where todo = "pendingTasks m"]) (simp_all add: assms(3))
  moreover have "?S (?q\<lparr>passing := Some ([], toRemove)\<rparr>, st1) (?q\<lparr>passing := Some ([], toRemove)\<rparr>\<lparr>passing := None\<rparr>, st')"
    by (rule m_processed [OF _ last]) simp
  moreover have "?q\<lparr>passing := Some ([], toRemove)\<rparr>\<lparr>passing := None\<rparr> = q" using assms(2) by simp
  ultimately show ?thesis by (metis (no_types, lifting) converse_rtranclp_into_rtranclp rtranclp.rtrancl_into_rtrancl)
qed

subsection \<open>A run\<close>

text \<open>
  An offer arrives, a container is requested, its task is launched and reports that it runs. The docker daemon is the
  one of the engine's witnesses.
\<close>

definition demo_driver :: "demo_daemon Driver" where
  "demo_driver = \<lparr>LaunchTasks = (\<lambda>_ _ _ d. (Inr (), d)), DeclineOffer = (\<lambda>_ d. (Inr (), d)),
     next_status = (\<lambda>_ d. (\<lparr>ts_State = TASK_RUNNING, ts_Message = [], ts_Data = None\<rparr>, d))\<rparr>"

definition demo_mesos :: MesosCluster where
  "demo_mesos = \<lparr>dockerEnginePort = ''2375'', agents = [], m_scheduler = demo_scheduler, offerTimeout = 30000000000,
     refuseTimeout = 5000000000, taskCreationTimeout = 5000000000, m_FailureRetry = 3, pendingTasks = [], heap = [], sent = [],
     m_ids = (\<lambda>n. ''0123456789abcdef''), m_drawn = 0\<rparr>"

lemma demo_mesos_new:
  "Mesos_NewCluster (\<lambda>_. []) (\<lambda>_. Inl no_engine) (Inr ()) demo_scheduler False [] 3 (\<lambda>n. ''0123456789abcdef'') = Some (Inr demo_mesos)"
  by (simp add: Mesos_NewCluster_def and_try_def timeout_option_def binding_address_def opts_IP_def opts_Bool_def demo_mesos_def)

definition demo_extra :: TaskConfig where
  "demo_extra = \<lparr>cfg_Hostname = [], cfg_Domainname = [], cfg_Cmd = [], cfg_attached = False, cfg_labels = []\<rparr>"

definition demo_offered :: "(demo_daemon mstate, unit) op" where
  "demo_offered = ResourceOffers demo_apis (\<lambda>_ d. (Inr ''10.0.0.1'', d)) (\<lambda>_ d. (Inr (), d)) [demo_offer]"

definition demo_with_offer :: "demo_daemon mstate" where
  "demo_with_offer = snd (the (demo_offered (demo_mesos, demo_world)))"

definition demo_requested :: "demo_daemon mstate" where
  "demo_requested = snd (the (create_task demo_mesos_config demo_extra ''db'' demo_with_offer))"

definition demo_launched :: "demo_daemon mstate" where
  "demo_launched = snd (the (launch_section demo_driver ''db.0123456789ab'' demo_requested))"

lemma case_Some_the: "(case x of None \<Rightarrow> False | Some (b, s) \<Rightarrow> b = v) \<Longrightarrow> x = Some (v, snd (the x))"
  by (cases x) auto

lemma demo_run_1: "demo_offered (demo_mesos, demo_world) = Some ((), demo_with_offer)"
  unfolding demo_with_offer_def by (rule case_Some_the) code_simp

lemma demo_run_2: "create_task demo_mesos_config demo_extra ''db'' demo_with_offer = Some (Inr ''db.0123456789ab'', demo_requested)"
  unfolding demo_requested_def by (rule case_Some_the) code_simp

lemma demo_run_3: "launch_section demo_driver ''db.0123456789ab'' demo_requested = Some (Some (Some ''S1''), demo_launched)"
  unfolding demo_launched_def by (rule case_Some_the) code_simp

lemma demo_states:
  "heap (fst demo_with_offer) = []"
  "(case map_of (heap (fst demo_requested)) ''db.0123456789ab'' of None \<Rightarrow> False | Some t \<Rightarrow> ti_SlaveId (t_info t) = None \<and> t_done t = False)"
  "map (\<lambda>(i, s). (i, map fst (offers s), tasks s)) (agents (fst demo_launched)) = [(''S1'', [], [''db.0123456789ab''])]"
  by code_simp+

lemma demo_mesos_steps:
  "(mesos_step demo_apis demo_driver failing)\<^sup>*\<^sup>* (no_launches, demo_mesos, demo_world) (no_launches, fst demo_launched, snd demo_launched)"
proof -
  let ?S = "mesos_step demo_apis demo_driver failing" and ?tid = "''db.0123456789ab''"
  let ?q = "no_launches\<lparr>added := [?tid]\<rparr>"
  have "?S (no_launches, demo_mesos, demo_world) (no_launches, demo_with_offer)"
    using demo_run_1 by (auto simp: demo_offered_def intro!: m_event intro: m_offers)
  moreover have "?S (no_launches, fst demo_with_offer, snd demo_with_offer)
      (no_launches\<lparr>added := ?tid # added no_launches\<rparr>, demo_requested)"
    using demo_run_2 demo_states(1) by (intro m_create [of demo_mesos_config demo_extra "''db''"]) auto
  moreover have "try_launch demo_driver ?tid demo_requested = Some (True, demo_launched)"
    using demo_run_3 by (simp add: try_launch_def and_then_def ret_def)
  then have "?S (?q, demo_requested) (?q\<lparr>added := remove1 ?tid (added ?q), declined := (if True then declined ?q else ?tid # declined ?q)\<rparr>,
      demo_launched)"
    by (intro m_add) simp_all
  then have "?S (?q, demo_requested) (no_launches, fst demo_launched, snd demo_launched)" by (simp add: no_launches_def)
  ultimately show ?thesis by (simp add: no_launches_def)
qed

lemma demo_launched_agent: "\<exists>s. map_of (agents (fst demo_launched)) ''S1'' = Some s \<and> ''db.0123456789ab'' \<in> set (tasks s)"
  using demo_states(3) by (auto simp: Cons_eq_map_conv map_eq_Cons_conv)

theorem mesos_reachable_ok_witness:
  "mesos_ok (fst demo_launched) \<and> map (\<lambda>(i, s). (i, map fst (offers s), tasks s)) (agents (fst demo_launched)) = [(''S1'', [], [''db.0123456789ab''])]"
  using mesos_reachable_ok [OF demo_mesos_new _ _ demo_mesos_steps [of "\<lambda>_. True"]] demo_states(3) by simp

lemma mesos_task_never_released_witness:
  "\<exists>s'. map_of (agents (fst demo_launched)) ''S1'' = Some s' \<and> ''db.0123456789ab'' \<in> set (tasks s')"
proof -
  from demo_launched_agent obtain s where "map_of (agents (fst demo_launched)) ''S1'' = Some s" "''db.0123456789ab'' \<in> set (tasks s)" by blast
  from mesos_task_never_released [of demo_apis demo_driver "\<lambda>_. False", OF rtranclp.rtrancl_refl [of _ "(no_launches, _, _)"] _ this]
  show ?thesis by simp
qed

lemma demo_requested_ok: "mesos_ok (fst demo_requested)"
proof -
  have "mesos_ok demo_mesos" by (simp add: mesos_ok_def demo_mesos_def)
  moreover have "mesos_event demo_apis demo_driver (\<lambda>_. True) (demo_mesos, demo_world) demo_with_offer"
    using demo_run_1 by (auto simp: demo_offered_def intro: m_offers)
  ultimately have "mesos_ok (fst demo_with_offer)" using mesos_event_inv by (fastforce simp: mesos_inv_def)
  then show ?thesis using create_task_ok [of "fst demo_with_offer" demo_mesos_config demo_extra "''db''"] demo_run_2 demo_states(1)
    by (metis empty_iff image_empty list.set(1) prod.collapse)
qed

lemma demo_task_in_heap: "\<exists>t. map_of (heap (fst demo_requested)) ''db.0123456789ab'' = Some t \<and> t_done t = False"
  using demo_states(2) by (auto split: option.split_asm)

lemma scheduler_kept: "keeps (\<lambda>st. m_scheduler (fst st) = sch) (ResourceOffers apis resolve new_client os)"
proof -
  have "keeps (\<lambda>st. m_scheduler (fst st) = sch) (resource_offer apis resolve new_client offer)" for offer
    by (auto simp: keeps_def resource_offer_def Let_def Mesos_addOffer_def at_agents_def
        split: option.split_asm sum.split_asm prod.split_asm)
  then show ?thesis unfolding ResourceOffers_def by (intro keeps_rules)
qed

lemma demo_requested_scheduler: "m_scheduler (fst demo_requested) = demo_scheduler"
proof -
  have "m_scheduler (fst demo_with_offer) = demo_scheduler"
    using keepsD [OF scheduler_kept _ demo_run_1 [unfolded demo_offered_def]] by (simp add: demo_mesos_def)
  moreover have "m_scheduler (fst st') = m_scheduler (fst st)" if "create_task c e n st = Some (r, st')"
    for c e n r and st st' :: "demo_daemon mstate"
    using that by (cases st) (auto simp: create_task_def Let_def split: if_split_asm)
  ultimately show ?thesis using demo_run_2 by metis
qed

theorem mesos_launch_sound_witness:
  "\<exists>s n. map_of (agents (fst demo_requested)) ''S1'' = Some s \<and> agent_node s = Some n \<and>
     policy exact_re ''health'' (t_config (the (map_of (heap (fst demo_requested)) ''db.0123456789ab''))) False n \<and>
     offered_cpus s = Some (TotalCpus n)"
proof -
  obtain t where t: "map_of (heap (fst demo_requested)) ''db.0123456789ab'' = Some t" using demo_task_in_heap by blast
  have sch: "m_scheduler (fst demo_requested) = scheduler_New \<lparr>st_Name = ''spread'', RankAndSort = Spread_RankAndSort insertionSort\<rparr> [HealthFilter]"
    by (simp add: demo_requested_scheduler demo_scheduler_def)
  have run: "launch_section demo_driver ''db.0123456789ab'' (fst demo_requested, snd demo_requested) =
      Some (Some (Some ''S1''), fst demo_launched, snd demo_launched)" by (simp add: demo_run_3)
  from mesos_launch_sound [OF sample_scheduler(4) _ sample_scheduler(1,2) sch demo_requested_ok t run] t show ?thesis by auto
qed

lemma demo_full_launch: "(case LaunchTask demo_apis demo_driver ''db.0123456789ab'' demo_requested of
    None \<Rightarrow> False | Some (b, s) \<Rightarrow> b \<and> map fst (sent (fst s)) = [''db.0123456789ab''])"
  by code_simp

theorem launch_answers_witness:
  "\<exists>b m' d' t. LaunchTask demo_apis demo_driver ''db.0123456789ab'' demo_requested = Some (b, m', d') \<and> b \<and>
     answered ''db.0123456789ab'' t (fst demo_requested) m'"
proof -
  obtain t where t: "map_of (heap (fst demo_requested)) ''db.0123456789ab'' = Some t" using demo_task_in_heap by blast
  obtain b m' d' where run: "LaunchTask demo_apis demo_driver ''db.0123456789ab'' (fst demo_requested, snd demo_requested) = Some (b, m', d')" and b
    using demo_full_launch by (auto split: option.split_asm)
  from launch_answers [OF demo_requested_ok t run] run \<open>b\<close> show ?thesis by auto
qed

text \<open>A pass over a queue of one task, whose launch the driver refuses.\<close>

definition refusing_driver :: "demo_daemon Driver" where
  "refusing_driver = demo_driver\<lparr>LaunchTasks := (\<lambda>_ _ _ d. (Inl (errorf ''refused''), d))\<rparr>"

definition demo_queued :: "demo_daemon mstate" where
  "demo_queued = (case demo_requested of (m, d) \<Rightarrow> (m\<lparr>pendingTasks := [''db.0123456789ab'']\<rparr>, d))"

lemma demo_queued_eq: "demo_queued = ((fst demo_requested)\<lparr>pendingTasks := [''db.0123456789ab'']\<rparr>, snd demo_requested)"
  by (simp add: demo_queued_def split_beta)

lemma demo_refused: "(case launch_section refusing_driver ''db.0123456789ab'' demo_queued of
    None \<Rightarrow> False | Some (r, s) \<Rightarrow> r = Some None)"
  by code_simp

lemma demo_pass: "Tasks_Process [''db.0123456789ab''] (LaunchTask demo_apis refusing_driver) demo_queued \<noteq> None"
proof -
  obtain s where "launch_section refusing_driver ''db.0123456789ab'' demo_queued = Some (Some None, s)"
    using demo_refused by (auto split: option.split_asm)
  then show ?thesis
    by (simp add: Tasks_Process_def process_one_def process_end_def modify_def and_then_def ret_def LaunchTask_def on_mesos_def)
qed

theorem process_queue_witness:
  "\<exists>u m' d' bs. Tasks_Process [''db.0123456789ab''] (LaunchTask demo_apis refusing_driver) demo_queued = Some (u, m', d') \<and>
     set (pendingTasks m') = set (left_over [''db.0123456789ab''] bs) \<and> length bs = 1"
proof -
  obtain t where "map_of (heap (fst demo_requested)) ''db.0123456789ab'' = Some t" using demo_task_in_heap by blast
  then have "''db.0123456789ab'' \<in> fst ` set (heap (fst demo_requested))" by (rule map_of_key)
  then have ok: "mesos_ok (fst demo_queued)"
    unfolding demo_queued_eq fst_conv by (intro pending_ok_change demo_requested_ok) simp_all
  obtain u m' d' where run: "Tasks_Process [''db.0123456789ab''] (LaunchTask demo_apis refusing_driver) (fst demo_queued, snd demo_queued) =
    Some (u, m', d')"
    using demo_pass by auto
  have q: "pendingTasks (fst demo_queued) = [''db.0123456789ab'']" by (simp add: demo_queued_eq)
  then have "mset [''db.0123456789ab''] = mset (pendingTasks (fst demo_queued))" by simp
  from process_queue [OF ok this run] obtain bs where
    "length bs = length (pendingTasks (fst demo_queued))" "set (pendingTasks m') = set (left_over [''db.0123456789ab''] bs)" by blast
  with run q show ?thesis unfolding prod.collapse by auto
qed

end
