(* ===== verification/Mesos_Queue.thy ===== *)
theory Mesos_Queue
  imports Mesos_Cluster
begin

section \<open>The goroutines around one Mesos task (\<open>cluster/mesos/cluster.go\<close>, \<open>task/task.go\<close>, \<open>task/tasks.go\<close>)\<close>

text \<open>
  Four goroutines share a task: the request, which waits in \<open>CreateContainer\<close>; the timer of \<open>suicide\<close>; the goroutine of \<open>Tasks.Add\<close>;
  and the pass of \<open>Tasks.Process\<close>, which holds the lock of the queue while it launches. The channels of the task have no
  buffer, so a message waits for the request to receive it. The transition system follows the one task from its creation; each check of a
  condition and each critical section is one step. Other tasks are left out: a pass that holds the lock of the queue because of
  another task makes the request wait longer, or for ever if that task is stuck.

  The last part is about the channel of the status messages.
\<close>

subsection \<open>Data\<close>

text \<open>Where \<open>CreateContainer\<close> is: in its \<open>select\<close>, before the lock of \<open>Remove\<close>, or back at its caller.\<close>

datatype creator_place = Selecting | Removing | Returned

text \<open>Where \<open>suicide\<close> is: before its condition, at its message, or at its end.\<close>

datatype timer_place = Sleeping | Timing_out | Over

text \<open>
  Where a goroutine that launches the task is: not launching; before \<open>SelectNodesForContainer\<close>; after \<open>Build\<close>; in \<open>Monitor\<close>; after it;
  at the message with the container; at the message with an error; or returned from \<open>LaunchTask\<close> with a result.
\<close>

datatype launch_place = Idle | Choosing | Built | Monitoring | Finding | Giving | Failing | Refused | Launched

datatype role = Adder | Worker

record goroutines =
  creator :: creator_place
  timer :: timer_place
  at_place :: "role \<Rightarrow> launch_place"
  queued :: bool
  built :: bool
  stopped :: bool

definition go_to :: "role \<Rightarrow> launch_place \<Rightarrow> goroutines \<Rightarrow> goroutines" where
  "go_to r p s = s\<lparr>at_place := (at_place s)(r := p)\<rparr>"

text \<open>\<open>go c.pendingTasks.Add(task)\<close> right after \<open>NewTask\<close>, which started the timer.\<close>

definition task_created :: goroutines where
  "task_created = \<lparr>creator = Selecting, timer = Sleeping, at_place = (\<lambda>r. if r = Adder then Choosing else Idle),
     queued = False, built = False, stopped = False\<rparr>"

subsection \<open>Steps\<close>

text \<open>The lock of the queue is free iff the worker is idle.\<close>

inductive task_step :: "goroutines \<Rightarrow> goroutines \<Rightarrow> bool" where
  timer_passes: "timer s = Sleeping \<Longrightarrow> \<not> stopped s \<Longrightarrow> \<not> built s \<Longrightarrow> task_step s (s\<lparr>timer := Timing_out\<rparr>)"
| timer_ends: "timer s = Sleeping \<Longrightarrow> stopped s \<or> built s \<Longrightarrow> task_step s (s\<lparr>timer := Over\<rparr>)"
| timer_sends: "timer s = Timing_out \<Longrightarrow> creator s = Selecting \<Longrightarrow> task_step s (s\<lparr>timer := Over, creator := Removing\<rparr>)"
| refuses: "at_place s r = Choosing \<Longrightarrow> task_step s (go_to r Refused s)"
| no_agent: "at_place s r = Choosing \<Longrightarrow> task_step s (go_to r Failing s)"
| builds: "at_place s r = Choosing \<Longrightarrow> task_step s ((go_to r Built s)\<lparr>built := True\<rparr>)"
| driver_fails: "at_place s r = Built \<Longrightarrow> task_step s (go_to r Failing s)"
| driver_takes: "at_place s r = Built \<Longrightarrow> task_step s (go_to r Monitoring s)"
| status_fails: "at_place s r = Monitoring \<Longrightarrow> task_step s (go_to r Failing s)"
| status_good: "at_place s r = Monitoring \<Longrightarrow> task_step s (go_to r Finding s)"
| finds: "at_place s r = Finding \<Longrightarrow> \<not> stopped s \<Longrightarrow> task_step s (go_to r Giving s)"
| misses: "at_place s r = Finding \<Longrightarrow> \<not> stopped s \<Longrightarrow> task_step s (go_to r Failing s)"
| gives_up: "at_place s r = Finding \<Longrightarrow> stopped s \<Longrightarrow> task_step s (go_to r Launched s)"
| gives: "at_place s r = Giving \<Longrightarrow> creator s = Selecting \<Longrightarrow> task_step s ((go_to r Launched s)\<lparr>creator := Returned\<rparr>)"
| fails: "at_place s r = Failing \<Longrightarrow> creator s = Selecting \<Longrightarrow> task_step s ((go_to r Launched s)\<lparr>creator := Removing\<rparr>)"
| adder_queues: "at_place s Adder = Refused \<Longrightarrow> at_place s Worker = Idle \<Longrightarrow> task_step s ((go_to Adder Idle s)\<lparr>queued := True\<rparr>)"
| adder_ends: "at_place s Adder = Launched \<Longrightarrow> task_step s (go_to Adder Idle s)"
| worker_starts: "at_place s Worker = Idle \<Longrightarrow> queued s \<Longrightarrow> task_step s (go_to Worker Choosing s)"
| worker_leaves: "at_place s Worker = Refused \<Longrightarrow> task_step s (go_to Worker Idle s)"
| worker_removes: "at_place s Worker = Launched \<Longrightarrow> task_step s ((go_to Worker Idle s)\<lparr>queued := False, stopped := True\<rparr>)"
| creator_removes: "creator s = Removing \<Longrightarrow> at_place s Worker = Idle \<Longrightarrow> task_step s (s\<lparr>creator := Returned, queued := False, stopped := True\<rparr>)"

lemmas go_to_simps [simp] = go_to_def

text \<open>In the middle of a launch that was not refused: after the choice of a node and before \<open>LaunchTask\<close> returns.\<close>

definition launching :: "launch_place \<Rightarrow> bool" where
  "launching p = (p \<in> {Built, Monitoring, Finding, Giving, Failing})"

text \<open>The request waits for the lock whose holder waits, or is going to wait, for the request.\<close>

definition doomed :: "goroutines \<Rightarrow> bool" where
  "doomed s = (creator s = Removing \<and> launching (at_place s Worker))"

lemma launching_simps [simp]:
  "\<not> launching Idle" "\<not> launching Choosing" "\<not> launching Refused" "\<not> launching Launched"
  "launching Built" "launching Monitoring" "launching Finding" "launching Giving" "launching Failing"
  by (simp_all add: launching_def)

subsection \<open>An invariant\<close>

definition goroutines_ok :: "goroutines \<Rightarrow> bool" where
  "goroutines_ok s =
     ((at_place s Adder \<noteq> Idle \<longrightarrow> at_place s Worker = Idle \<and> \<not> queued s) \<and>
      (creator s = Selecting \<longrightarrow> \<not> stopped s) \<and>
      (creator s = Removing \<and> stopped s \<longrightarrow> \<not> queued s \<and> at_place s Adder = Idle \<and> at_place s Worker = Idle) \<and>
      (creator s = Selecting \<longrightarrow> at_place s Adder \<noteq> Launched \<and> at_place s Worker \<noteq> Launched) \<and>
      (creator s = Selecting \<and> built s \<longrightarrow> launching (at_place s Adder) \<or> launching (at_place s Worker)) \<and>
      (creator s = Selecting \<and> at_place s Adder = Idle \<longrightarrow> queued s) \<and>
      (creator s = Selecting \<and> timer s = Over \<longrightarrow> built s))"

lemma at_place_upd [simp]:
  "((f(r := p)) Adder = q) = (if r = Adder then p = q else f Adder = q)"
  "((f(r := p)) Worker = q) = (if r = Worker then p = q else f Worker = q)"
  "launching ((f(r := p)) Adder) = (if r = Adder then launching p else launching (f Adder))"
  "launching ((f(r := p)) Worker) = (if r = Worker then launching p else launching (f Worker))"
  by auto

text \<open>The moves of \<open>LaunchTask\<close>, for each of the two goroutines that call it.\<close>

lemma goroutines_ok_launch:
  "goroutines_ok s \<Longrightarrow> at_place s r = Choosing \<Longrightarrow> goroutines_ok (go_to r Refused s)"
  "goroutines_ok s \<Longrightarrow> at_place s r = Choosing \<Longrightarrow> goroutines_ok ((go_to r Built s)\<lparr>built := True\<rparr>)"
  "goroutines_ok s \<Longrightarrow> launching (at_place s r) \<or> at_place s r = Choosing \<Longrightarrow> launching p \<Longrightarrow> goroutines_ok (go_to r p s)"
  "goroutines_ok s \<Longrightarrow> at_place s r = Finding \<Longrightarrow> stopped s \<Longrightarrow> goroutines_ok (go_to r Launched s)"
  "goroutines_ok s \<Longrightarrow> launching (at_place s r) \<Longrightarrow> creator s = Selecting \<Longrightarrow> c \<noteq> Selecting \<Longrightarrow> goroutines_ok ((go_to r Launched s)\<lparr>creator := c\<rparr>)"
  by (cases r; cases "creator s"; auto simp: goroutines_ok_def)+

lemma goroutines_ok_step: "task_step s s' \<Longrightarrow> goroutines_ok s \<Longrightarrow> goroutines_ok s'"
proof (induction rule: task_step.induct)
  case (timer_ends s)
  then show ?case by (cases "creator s") (auto simp: goroutines_ok_def)
next
  case (adder_queues s)
  then show ?case by (cases "creator s") (auto simp: goroutines_ok_def)
next
  case (adder_ends s)
  then show ?case by (cases "creator s") (auto simp: goroutines_ok_def)
next
  case (worker_starts s)
  then show ?case by (cases "creator s") (auto simp: goroutines_ok_def)
next
  case (worker_leaves s)
  then show ?case by (cases "creator s") (auto simp: goroutines_ok_def)
next
  case (worker_removes s)
  then show ?case by (cases "creator s") (auto simp: goroutines_ok_def)
qed (simp_all add: goroutines_ok_launch del: go_to_simps, simp_all add: goroutines_ok_def)

lemma goroutines_ok_reached: "task_step\<^sup>*\<^sup>* task_created s \<Longrightarrow> goroutines_ok s"
proof (induction rule: rtranclp_induct)
  case base
  show ?case by (simp add: goroutines_ok_def task_created_def)
qed (rule goroutines_ok_step)

subsection \<open>When the request returns\<close>

definition may_return :: "goroutines \<Rightarrow> bool" where
  "may_return s = (\<exists>s'. task_step\<^sup>*\<^sup>* s s' \<and> creator s' = Returned)"

lemma may_return_now: "creator s = Returned \<Longrightarrow> may_return s"
  unfolding may_return_def by blast

lemma may_return_step: "task_step s s' \<Longrightarrow> may_return s' \<Longrightarrow> may_return s"
  unfolding may_return_def by (blast intro: converse_rtranclp_into_rtranclp)

lemma may_return_remove: "creator s = Removing \<Longrightarrow> at_place s Worker = Idle \<Longrightarrow> may_return s"
  by (rule may_return_step [OF creator_removes]) (simp_all add: may_return_now)

text \<open>A launch that has built the task can end with the container.\<close>

lemma may_return_launch:
  assumes "creator s = Selecting" "\<not> stopped s" "launching (at_place s r)" "at_place s (if r = Adder then Worker else Adder) = Idle"
  shows "may_return s"
proof -
  have giving: "may_return s" if "at_place s r = Giving" "creator s = Selecting" for s
    by (rule may_return_step [OF gives [OF that]]) (simp add: may_return_now)
  have finding: "may_return s" if "at_place s r = Finding" "creator s = Selecting" "\<not> stopped s" for s
    by (rule may_return_step [OF finds [OF that(1,3)]], rule giving) (use that in simp_all)
  have monitoring: "may_return s" if "at_place s r = Monitoring" "creator s = Selecting" "\<not> stopped s" for s
    by (rule may_return_step [OF status_good [OF that(1)]], rule finding) (use that in simp_all)
  have built: "may_return s" if "at_place s r = Built" "creator s = Selecting" "\<not> stopped s" for s
    by (rule may_return_step [OF driver_takes [OF that(1)]], rule monitoring) (use that in simp_all)
  have failing: "may_return s" if "at_place s r = Failing" "creator s = Selecting" "at_place s (if r = Adder then Worker else Adder) = Idle" for s
  proof (rule may_return_step [OF fails [OF that(1,2)]], cases r)
    case Adder
    with that show "may_return ((go_to r Launched s)\<lparr>creator := Removing\<rparr>)" by (simp add: may_return_remove)
  next
    case Worker
    show "may_return ((go_to r Launched s)\<lparr>creator := Removing\<rparr>)"
      by (rule may_return_step [OF worker_removes], simp add: Worker, rule may_return_remove) (simp_all add: Worker)
  qed
  from assms(3) consider "at_place s r = Giving" | "at_place s r = Finding" | "at_place s r = Monitoring" | "at_place s r = Built" | "at_place s r = Failing"
    by (auto simp: launching_def)
  then show ?thesis using giving finding monitoring built failing assms by cases metis+
qed

lemma may_return_choosing:
  assumes "creator s = Selecting" "\<not> stopped s" "at_place s r = Choosing" "at_place s (if r = Adder then Worker else Adder) = Idle"
  shows "may_return s"
  by (rule may_return_step [OF builds [OF assms(3)]], rule may_return_launch [of _ r]) (use assms in \<open>auto split: if_split_asm\<close>)

lemma may_return_selecting:
  assumes "goroutines_ok s" "creator s = Selecting"
  shows "may_return s"
proof -
  have fresh: "\<not> stopped s" using assms by (simp add: goroutines_ok_def)
  have waiting: "may_return s" if "creator s = Selecting" "\<not> stopped s" "at_place s Adder = Idle" "at_place s Worker = Idle" "queued s" for s
    by (rule may_return_step [OF worker_starts], use that in simp, use that in simp, rule may_return_choosing [of _ Worker])
      (use that in simp_all)
  show ?thesis
  proof (cases "at_place s Adder = Idle")
    case True
    with assms have q: "queued s" "at_place s Worker \<noteq> Launched" by (simp_all add: goroutines_ok_def)
    consider "at_place s Worker = Idle" | "at_place s Worker = Choosing" | "at_place s Worker = Refused" | "launching (at_place s Worker)"
      using q(2) by (cases "at_place s Worker") simp_all
    then show ?thesis
    proof cases
      case 3
      show ?thesis by (rule may_return_step [OF worker_leaves [OF 3]], rule waiting) (use True q assms fresh in simp_all)
    qed (use waiting may_return_choosing [of s Worker] may_return_launch [of s Worker] True q assms fresh in simp_all)
  next
    case False
    with assms have q: "at_place s Worker = Idle" "at_place s Adder \<noteq> Launched" by (simp_all add: goroutines_ok_def)
    consider "at_place s Adder = Choosing" | "at_place s Adder = Refused" | "launching (at_place s Adder)"
      using q(2) False by (cases "at_place s Adder") simp_all
    then show ?thesis
    proof cases
      case 2
      show ?thesis by (rule may_return_step [OF adder_queues [OF 2 q(1)]], rule waiting) (use q assms fresh in simp_all)
    qed (use may_return_choosing [of s Adder] may_return_launch [of s Adder] q assms fresh in simp_all)
  qed
qed

lemma may_return_removing:
  assumes "goroutines_ok s" "creator s = Removing" "\<not> launching (at_place s Worker)"
  shows "may_return s"
proof -
  have refused: "may_return s" if "creator s = Removing" "at_place s Worker = Refused" for s
    by (rule may_return_step [OF worker_leaves [OF that(2)]], rule may_return_remove) (use that in simp_all)
  consider "at_place s Worker = Idle" | "at_place s Worker = Choosing" | "at_place s Worker = Refused" | "at_place s Worker = Launched"
    using assms(3) by (cases "at_place s Worker") simp_all
  then show ?thesis
  proof cases
    case 2
    show ?thesis by (rule may_return_step [OF refuses [OF 2]], rule refused) (use assms in simp_all)
  next
    case 4
    show ?thesis by (rule may_return_step [OF worker_removes [OF 4]], rule may_return_remove) (use assms in simp_all)
  qed (use refused may_return_remove assms in simp_all)
qed

lemma doomed_step: "task_step s s' \<Longrightarrow> goroutines_ok s \<Longrightarrow> doomed s \<Longrightarrow> doomed s'"
  by (induction rule: task_step.induct) (auto simp: doomed_def goroutines_ok_def split: if_split_asm)

lemma doomed_stays: "task_step\<^sup>*\<^sup>* s s' \<Longrightarrow> goroutines_ok s \<Longrightarrow> doomed s \<Longrightarrow> goroutines_ok s' \<and> doomed s'"
  by (induction rule: rtranclp_induct) (auto dest: doomed_step goroutines_ok_step)

text \<open>
  C38. In every reachable state of the goroutines around one task, with no other task in the queue, the request can still
  return, unless it has received an error and waits for the lock of the queue in order to remove the task, while the pass that
  holds this lock is in the middle of launching the task: it has built the task, waits for its status, looks for its
  container, or is about to send the container or an error, among them the error that the chosen agent is gone, which comes
  without building the task. From such a state the request never returns.
\<close>

theorem creation_returns_iff:
  assumes "task_step\<^sup>*\<^sup>* task_created s"
  shows "(\<exists>s'. task_step\<^sup>*\<^sup>* s s' \<and> creator s' = Returned) \<longleftrightarrow> \<not> (creator s = Removing \<and> launching (at_place s Worker))"
proof -
  note ok = goroutines_ok_reached [OF assms]
  have "may_return s" if "\<not> doomed s"
    using that may_return_now may_return_selecting [OF ok] may_return_removing [OF ok] by (cases "creator s") (auto simp: doomed_def)
  moreover have "\<not> may_return s" if "doomed s"
    using doomed_stays [OF _ ok that] by (auto simp: may_return_def doomed_def)
  ultimately show ?thesis unfolding may_return_def doomed_def by blast
qed

text \<open>
  Such a state is reachable: the timer passes its condition while the task waits in the queue, a pass takes the lock and builds the
  task, and the request receives the error of the timer.
\<close>

definition dead_task :: goroutines where
  "dead_task = \<lparr>creator = Removing, timer = Over, at_place = (\<lambda>r. if r = Worker then Giving else Idle),
     queued = True, built = True, stopped = False\<rparr>"

lemma dead_task_reached: "task_step\<^sup>*\<^sup>* task_created dead_task"
proof -
  have step: "task_step\<^sup>*\<^sup>* task_created s'" if "task_step\<^sup>*\<^sup>* task_created s" "task_step s s''" "s'' = s'" for s s' s''
    using that by (simp add: rtranclp.rtrancl_into_rtrancl)
  let ?s = "\<lambda>c t w b. \<lparr>creator = c, timer = t, at_place = (\<lambda>r. if r = Worker then w else Idle), queued = True, built = b, stopped = False\<rparr>"
  have "task_step\<^sup>*\<^sup>* task_created ((task_created)\<lparr>at_place := (\<lambda>r. if r = Adder then Refused else Idle)\<rparr>)"
    by (rule step [OF rtranclp.rtrancl_refl refuses [of _ Adder]]) (auto simp: task_created_def)
  then have "task_step\<^sup>*\<^sup>* task_created (?s Selecting Sleeping Idle False)"
    by (rule step [OF _ adder_queues]) (auto simp: task_created_def)
  then have "task_step\<^sup>*\<^sup>* task_created (?s Selecting Timing_out Idle False)"
    by (rule step [OF _ timer_passes]) auto
  then have "task_step\<^sup>*\<^sup>* task_created (?s Selecting Timing_out Choosing False)"
    by (rule step [OF _ worker_starts]) auto
  then have "task_step\<^sup>*\<^sup>* task_created (?s Selecting Timing_out Built True)"
    by (rule step [OF _ builds [of _ Worker]]) auto
  then have "task_step\<^sup>*\<^sup>* task_created (?s Removing Over Built True)"
    by (rule step [OF _ timer_sends]) auto
  then have "task_step\<^sup>*\<^sup>* task_created (?s Removing Over Monitoring True)"
    by (rule step [OF _ driver_takes [of _ Worker]]) auto
  then have "task_step\<^sup>*\<^sup>* task_created (?s Removing Over Finding True)"
    by (rule step [OF _ status_good [of _ Worker]]) auto
  then show ?thesis
    by (rule step [OF _ finds [of _ Worker]]) (auto simp: dead_task_def)
qed

theorem creation_returns_iff_witness:
  "\<not> (\<exists>s'. task_step\<^sup>*\<^sup>* dead_task s' \<and> creator s' = Returned)"
  using creation_returns_iff [OF dead_task_reached] by (simp add: dead_task_def)

subsection \<open>The channel of the status messages\<close>

text \<open>
  \<open>StatusUpdate\<close> is called by the driver for every message, one after the other; it writes to the channel of the task if
  the agent has the task.
\<close>

definition StatusUpdate_sends :: "string \<Rightarrow> string \<Rightarrow> MesosCluster \<Rightarrow> bool" where
  "StatusUpdate_sends aid tid m = (case map_of (agents m) aid of None \<Rightarrow> False | Some s \<Rightarrow> tid \<in> set (tasks s))"

text \<open>What the goroutine that \<open>LaunchTask\<close> starts leaves unread of the messages to come.\<close>

primrec monitor_loop :: "TaskStatus list \<Rightarrow> TaskStatus list" where
  "monitor_loop [] = []"
| "monitor_loop (status # rest) =
     (case Monitor status of (finished, _, err) \<Rightarrow> if err \<noteq> None then rest else if finished then rest else monitor_loop rest)"

text \<open>
  The messages of one task on which \<open>StatusUpdate\<close> waits forever. After an error in the first message the agent has lost the task, and the others are
  dropped.
\<close>

definition never_read :: "TaskStatus list \<Rightarrow> TaskStatus list" where
  "never_read statuses =
     (case statuses of
        [] \<Rightarrow> []
      | status # rest \<Rightarrow>
          (case Monitor status of (finished, _, err) \<Rightarrow> if err \<noteq> None then [] else if \<not> finished then monitor_loop rest else rest))"

definition final :: "TaskStatus \<Rightarrow> bool" where
  "final status = (ts_State status \<notin> {TASK_STAGING, TASK_STARTING, TASK_RUNNING})"

lemma Monitor_final: "Monitor status = (f, d, err) \<Longrightarrow> f = final status"
  by (auto simp: Monitor_def final_def split: TaskState.split_asm if_split_asm)

lemma Monitor_error_final: "Monitor status = (f, d, Some e) \<Longrightarrow> final status"
  by (auto simp: Monitor_def final_def split: TaskState.split_asm if_split_asm)

lemma monitor_loop_eq: "monitor_loop statuses = tl (dropWhile (\<lambda>s. \<not> final s) statuses)"
  by (induction statuses) (auto split: prod.split dest: Monitor_final Monitor_error_final)

text \<open>Unless the first message is an error, every message after the first final one blocks the driver.\<close>

lemma never_read_eq:
  assumes "statuses \<noteq> []" "snd (snd (Monitor (hd statuses))) = None"
  shows "never_read statuses = tl (dropWhile (\<lambda>s. \<not> final s) statuses)"
  using assms by (cases statuses) (auto simp: never_read_def monitor_loop_eq split: prod.split dest: Monitor_final)

end
