(* ===== verification/Api_Http.thy ===== *)
theory Api_Http
  imports Swarm_Scale Mesos_Cluster
begin

section \<open>Requests, replies and the cluster behind the API (\<open>api/utils.go\<close>, \<open>cluster/cluster.go\<close>)\<close>

text \<open>
  A handler reads a request, calls the cluster and writes to the client. The request is what \<open>net/http\<close> and the router have
  made of it; the writes are recorded in order, so that what the client gets of a second answer can be told. The handlers
  call the interface \<open>cluster.Cluster\<close>, here the record \<open>Backend\<close> over any state; \<open>swarm_backend\<close> and \<open>mesos_backend\<close>
  are its two implementations. The docker daemons that requests are forwarded to are a parameter, and so is the decoding of JSON.
\<close>

subsection \<open>Requests\<close>

record Request =
  r_Path :: string
  r_RawQuery :: string
  r_Vars :: "(string \<times> string) list"
  r_Form :: "(string \<times> string list) list"
  r_ParseForm :: "go_error option"
  r_Header :: "(string \<times> string) list"
  r_Body :: string
  r_RemoteAddr :: string

text \<open>\<open>r.Form.Get\<close> and \<open>r.FormValue\<close>, \<open>r.Header.Get\<close>, and the look-up in \<open>mux.Vars\<close>.\<close>

definition FormValue :: "Request \<Rightarrow> string \<Rightarrow> string" where
  "FormValue r k = (case map_of (r_Form r) k of Some (v # _) \<Rightarrow> v | _ \<Rightarrow> [])"

definition Header_Get :: "Request \<Rightarrow> string \<Rightarrow> string" where
  "Header_Get r k = (case map_of (r_Header r) k of None \<Rightarrow> [] | Some v \<Rightarrow> v)"

definition Var :: "Request \<Rightarrow> string \<Rightarrow> string" where
  "Var r k = (case map_of (r_Vars r) k of None \<Rightarrow> [] | Some v \<Rightarrow> v)"

text \<open>
  \<open>strings.ToLower\<close> on ASCII letters. No other character has one of the letters of the words below as its lower case.
\<close>

definition lower :: "char \<Rightarrow> char" where
  "lower c = (if 65 \<le> byte c \<and> byte c \<le> 90 then char_of (byte c + 32) else c)"

definition boolValue :: "Request \<Rightarrow> string \<Rightarrow> bool" where
  "boolValue r k =
     (let s = map lower (TrimSpace (FormValue r k))
      in \<not> (s = [] \<or> s = ''0'' \<or> s = ''no'' \<or> s = ''false'' \<or> s = ''none''))"

definition intValueOrZero :: "Request \<Rightarrow> string \<Rightarrow> int" where
  "intValueOrZero r k = (let (v, ok) = Atoi (FormValue r k) in if \<not> ok then 0 else v)"

definition int64ValueOrZero :: "Request \<Rightarrow> string \<Rightarrow> int" where
  "int64ValueOrZero r k = (let (v, ok) = Atoi (FormValue r k) in if \<not> ok then 0 else v)"

definition tagHasDigest :: "string \<Rightarrow> bool" where
  "tagHasDigest tag = Contains tag '':''"

definition getImageRef :: "string \<Rightarrow> string \<Rightarrow> string" where
  "getImageRef repo tag =
     (if tag \<noteq> [] then if tagHasDigest tag then repo @ ''@'' @ tag else repo @ '':'' @ tag else repo)"

text \<open>\<open>filters.Args.Match\<close>; \<open>re\<close> is \<open>regexp.MatchString\<close>, false for a pattern that does not compile.\<close>

definition args_Match :: "(string \<Rightarrow> string \<Rightarrow> bool) \<Rightarrow> Args \<Rightarrow> string \<Rightarrow> string \<Rightarrow> bool" where
  "args_Match re a field source \<longleftrightarrow>
     args_ExactMatch a field source \<or> list_ex (\<lambda>pattern. re pattern source) (args_Get a field)"

text \<open>\<open>filters.Args.MatchKVList\<close> on a map; an empty map fails the look-ups.\<close>

definition args_MatchKVMap :: "Args \<Rightarrow> string \<Rightarrow> (string \<rightharpoonup> string) \<Rightarrow> bool" where
  "args_MatchKVMap a field sources \<longleftrightarrow>
     list_all (\<lambda>name.
       let kv = SplitN2 name ''='' in
       case sources (kv ! 0) of
         None \<Rightarrow> False
       | Some v \<Rightarrow> \<not> (length kv = 2 \<and> kv ! 1 \<noteq> v)) (args_Get a field)"

definition args_Add :: "Args \<Rightarrow> string \<Rightarrow> string \<Rightarrow> Args" where
  "args_Add a name v = AList.update name (List.insert v (args_Get a name)) a"

subsection \<open>Replies\<close>

text \<open>The container of a listing: \<open>types.Container\<close> with a fresh status.\<close>

record OutContainer =
  oc_ID :: string
  oc_Names :: "string list"
  oc_Image :: string
  oc_Ports :: "Port list"
  oc_Labels :: "string \<rightharpoonup> string"
  oc_State :: string
  oc_Status :: string
  oc_Created :: int

text \<open>The fields of \<open>types.Info\<close> that depend on the cluster.\<close>

record SystemInfo =
  si_Images :: nat
  si_NEventsListener :: nat
  si_NCPU :: int
  si_MemTotal :: int
  si_DriverStatus :: "(string \<times> string) list"
  si_SystemStatus :: "(string \<times> string) list"
  si_Containers :: nat
  si_Paused :: nat
  si_Running :: nat
  si_Stopped :: nat

text \<open>\<open>types.Version\<close>.\<close>

record VersionInfo =
  vi_Version :: string
  vi_APIVersion :: string
  vi_GoVersion :: string
  vi_GitCommit :: string
  vi_Os :: string
  vi_Arch :: string
  vi_Experimental :: bool
  vi_BuildTime :: string
  vi_KernelVersion :: string

datatype body =
    Text string
  | JInfo SystemInfo
  | JVersion VersionInfo
  | JContainers "OutContainer list"
  | JImages "Image list"
  | JNetworks "Network list"
  | JNetwork Network
  | JVolumes "Volume list"
  | JVolume "Volume option"
  | JId string
  | JNames "string list option"
  | JMessage string string
  | JErrorMessage int string

datatype reply = AddHeader string string | WriteHeader nat | Write body | Hijacked string

text \<open>The status code that the client gets: the first one that is written, 200 when a body comes first.\<close>

fun status_code :: "reply list \<Rightarrow> nat" where
  "status_code (AddHeader _ _ # rs) = status_code rs"
| "status_code (WriteHeader c # _) = c"
| "status_code _ = 200"

text \<open>\<open>http.Error\<close>.\<close>

definition httpError :: "string \<Rightarrow> nat \<Rightarrow> reply list" where
  "httpError err status =
     [AddHeader ''Content-Type'' ''text/plain; charset=utf-8'', AddHeader ''X-Content-Type-Options'' ''nosniff'',
      WriteHeader status, Write (Text (err @ [CHR 0x0A]))]"

definition json :: "body \<Rightarrow> reply list" where
  "json b = [AddHeader ''Content-Type'' ''application/json'', Write b]"

definition sendJSONMessage :: "string \<Rightarrow> string \<Rightarrow> reply list" where
  "sendJSONMessage i status = [Write (JMessage i status)]"

definition sendErrorJSONMessage :: "int \<Rightarrow> string \<Rightarrow> reply list" where
  "sendErrorJSONMessage code msg = [Write (JErrorMessage code msg)]"

text \<open>A response of a docker daemon.\<close>

record HttpResponse =
  hr_Status :: nat
  hr_Header :: "(string \<times> string list) list"
  hr_Body :: string

definition copyHeader :: "(string \<times> string list) list \<Rightarrow> reply list" where
  "copyHeader src = concat (map (\<lambda>(k, vv). map (AddHeader k) vv) src)"

subsection \<open>The interface of the cluster\<close>

text \<open>
  The operations of \<open>cluster.Cluster\<close> that handlers call, and after them what they do with the engine that an object points to.
\<close>

record 's Backend =
  be_CreateContainer :: "ContainerConfig \<Rightarrow> string \<Rightarrow> AuthConfig option \<Rightarrow> ('s, Container option result) op"
  be_RemoveContainer :: "Container \<Rightarrow> bool \<Rightarrow> bool \<Rightarrow> ('s, unit result) op"
  be_Images :: "('s, Image list) op"
  be_Image :: "string \<Rightarrow> ('s, Image option) op"
  be_RemoveImages :: "string \<Rightarrow> bool \<Rightarrow> ('s, string list \<times> go_error option) op"
  be_Containers :: "('s, Containers) op"
  be_StartContainer :: "Container \<Rightarrow> HostConfig option \<Rightarrow> ('s, unit result) op"
  be_Container :: "string \<Rightarrow> ('s, Container option) op"
  be_Networks :: "('s, Network list) op"
  be_CreateNetwork :: "string \<Rightarrow> string \<Rightarrow> ('s, string result) op"
  be_RemoveNetwork :: "Network \<Rightarrow> ('s, unit result) op"
  be_CreateVolume :: "string \<Rightarrow> string \<Rightarrow> ('s, Volume option \<times> go_error option) op"
  be_Volumes :: "('s, Volume list) op"
  be_RemoveVolumes :: "string \<Rightarrow> ('s, bool \<times> go_error option) op"
  be_Pull :: "string \<Rightarrow> AuthConfig option \<Rightarrow> ('s, callbacks) op"
  be_Import :: "string \<Rightarrow> string \<Rightarrow> string \<Rightarrow> string \<Rightarrow> ('s, callbacks) op"
  be_Load :: "string \<Rightarrow> ('s, callbacks) op"
  be_TotalMemory :: "('s, int) op"
  be_TotalCpus :: "('s, int) op"
  be_BuildImage :: "string \<Rightarrow> ImageBuildOptions \<Rightarrow> ('s, string \<times> go_error option) op"
  be_RANDOMENGINE :: "('s, EngineSpec option result) op"
  be_RenameContainer :: "Container \<Rightarrow> string \<Rightarrow> ('s, unit result) op"
  be_TagImage :: "string \<Rightarrow> string \<Rightarrow> ('s, go_error option) op"
  be_Scale :: "ScaleItem list \<Rightarrow> ('s, string list option) op"
  be_RefreshEngine :: "string \<Rightarrow> ('s, unit result) op"
  be_RefreshEngines :: "('s, unit result) op"
  be_engine :: "EngineSpec \<Rightarrow> 's \<Rightarrow> Engine option"
  be_CheckConnectionErr :: "EngineSpec \<Rightarrow> go_error option \<Rightarrow> ('s, unit) op"
  be_Do :: "EngineSpec \<Rightarrow> Request \<Rightarrow> ('s, HttpResponse result) op"
  be_hijack :: "EngineSpec \<Rightarrow> Request \<Rightarrow> ('s, go_error option result) op"
  be_NetworkDisconnect :: "EngineSpec \<Rightarrow> Container \<Rightarrow> Network \<Rightarrow> bool \<Rightarrow> ('s, unit result) op"
  be_RefreshNetworks :: "EngineSpec \<Rightarrow> ('s, unit) op"
  be_RefreshImages :: "EngineSpec \<Rightarrow> ('s, unit) op"
  be_Refresh :: "Container \<Rightarrow> ('s, unit) op"
  be_add_exec :: "Container \<Rightarrow> string \<Rightarrow> ('s, unit) op"

text \<open>\<open>Engine.IsHealthy\<close>; an engine that has left the cluster is disconnected.\<close>

definition IsHealthy :: "'s Backend \<Rightarrow> EngineSpec \<Rightarrow> 's \<Rightarrow> bool" where
  "IsHealthy be spec s = (case be_engine be spec s of None \<Rightarrow> False | Some e \<Rightarrow> isHealthy e)"

subsection \<open>The two implementations\<close>

text \<open>An operation of an engine that is called for its effect.\<close>

definition swarm_engine ::
    "(string \<Rightarrow> 'd Api) \<Rightarrow> EngineSpec \<Rightarrow> ('d Api \<Rightarrow> (Engine \<times> 'd, 'a result) op) \<Rightarrow> ('d cstate, unit) op" where
  "swarm_engine apis spec f = and_then (of_engine apis spec f) (\<lambda>_. ret ())"

definition checked :: "go_error option \<Rightarrow> 'd Api \<Rightarrow> (Engine \<times> 'd, unit result) op" where
  "checked err api = (\<lambda>(e, d). Some (Inr (), CheckConnectionErr (clock api d) err e, d))"

definition with_exec :: "Container \<Rightarrow> string \<Rightarrow> 'd Api \<Rightarrow> (Engine \<times> 'd, unit result) op" where
  "with_exec k i api =
     and_then (on_engine (\<lambda>e. e\<lparr>containers := map_ran (\<lambda>cid c.
       if cid = c_ID k then c\<lparr>Info := (Info c)\<lparr>ExecIDs := ExecIDs (Info c) @ [i]\<rparr>\<rparr> else c) (containers e)\<rparr>)) (\<lambda>_. ret (Inr ()))"

text \<open>
  \<open>http\<close> and \<open>tunnel\<close> are the daemons, by address: an exchange over HTTP, and a raw connection. The latter fails before the
  connection of the client is taken over (\<open>Inl\<close>), or the request cannot be sent to the daemon afterwards (\<open>Inr (Some err)\<close>),
  or bytes are copied both ways until an end (\<open>Inr None\<close>).
\<close>

definition swarm_backend ::
    "regexp \<Rightarrow> (string \<Rightarrow> string \<Rightarrow> bool) \<Rightarrow> (nat \<Rightarrow> nat \<Rightarrow> nat \<Rightarrow> int) \<Rightarrow> (string \<Rightarrow> 'd Api) \<Rightarrow>
     (string \<Rightarrow> Request \<Rightarrow> ('d, HttpResponse) call) \<Rightarrow> (string \<Rightarrow> Request \<Rightarrow> ('d, go_error option) call) \<Rightarrow> 'd cstate Backend" where
  "swarm_backend re match rids apis http tunnel =
     \<lparr>be_CreateContainer = (\<lambda>config name au. and_then (Cluster_CreateContainer match apis config name au) (\<lambda>(_, r).
        ret (case r of Inl err \<Rightarrow> Inl err | Inr k \<Rightarrow> Inr (Some k)))),
      be_RemoveContainer = Cluster_RemoveContainer apis,
      be_Images = read (\<lambda>(c, _). Cluster_Images c),
      be_Image = (\<lambda>q. read (\<lambda>(c, _). Cluster_Image c q)),
      be_RemoveImages = Cluster_RemoveImages apis,
      be_Containers = read (\<lambda>(c, _). Cluster_Containers c),
      be_StartContainer = Cluster_StartContainer apis,
      be_Container = (\<lambda>q. read (\<lambda>(c, _). Cluster_Container c q)),
      be_Networks = read (\<lambda>(c, _). Cluster_Networks c),
      be_CreateNetwork = Cluster_CreateNetwork apis,
      be_RemoveNetwork = Cluster_RemoveNetwork apis,
      be_CreateVolume = Cluster_CreateVolume apis,
      be_Volumes = read (\<lambda>(c, _). Cluster_Volumes c),
      be_RemoveVolumes = Cluster_RemoveVolumes apis,
      be_Pull = Cluster_Pull apis,
      be_Import = Cluster_Import apis,
      be_Load = Cluster_Load apis,
      be_TotalMemory = read (\<lambda>(c, _). Cluster_TotalMemory c),
      be_TotalCpus = read (\<lambda>(c, _). Cluster_TotalCpus c),
      be_BuildImage = Cluster_BuildImage apis,
      be_RANDOMENGINE = and_then the_cluster (\<lambda>c. or_panic (RANDOMENGINE c zero_config) (\<lambda>r.
        ret (case r of Inl err \<Rightarrow> Inl err | Inr e \<Rightarrow> Inr (map_option engine_spec e)))),
      be_RenameContainer = Cluster_RenameContainer apis,
      be_TagImage = Cluster_TagImage apis,
      be_Scale = Scale re match rids apis,
      be_RefreshEngine = Cluster_RefreshEngine apis,
      be_RefreshEngines = RefreshEngines apis,
      be_engine = (\<lambda>spec (c, _). map_of (engines c) (e_ID spec)),
      be_CheckConnectionErr = (\<lambda>spec err. swarm_engine apis spec (checked err)),
      be_Do = (\<lambda>spec r (c, d). let (resp, d') = http (e_Addr spec) r d in Some (resp, c, d')),
      be_hijack = (\<lambda>spec r (c, d). let (res, d') = tunnel (e_Addr spec) r d in Some (res, c, d')),
      be_NetworkDisconnect = (\<lambda>spec k n force. of_engine apis spec (\<lambda>api. NetworkDisconnect api k n force)),
      be_RefreshNetworks = (\<lambda>spec. swarm_engine apis spec RefreshNetworks),
      be_RefreshImages = (\<lambda>spec. swarm_engine apis spec RefreshImages),
      be_Refresh = (\<lambda>k. swarm_engine apis (c_Engine k) (\<lambda>api. refreshContainer api (c_ID k) True)),
      be_add_exec = (\<lambda>k i. swarm_engine apis (c_Engine k) (with_exec k i))\<rparr>"

definition mesos_engine ::
    "(string \<Rightarrow> 'd Api) \<Rightarrow> EngineSpec \<Rightarrow> ('d Api \<Rightarrow> (Engine \<times> 'd, 'a result) op) \<Rightarrow> ('d mstate, unit) op" where
  "mesos_engine apis spec f = and_then (owned apis spec f) (\<lambda>_. ret ())"

text \<open>What Mesos does not support returns an error, or does nothing and never calls back.\<close>

definition Mesos_RemoveImages :: "string \<Rightarrow> bool \<Rightarrow> ('s, string list \<times> go_error option) op" where
  "Mesos_RemoveImages name force = ret ([], Some errNotSupported)"

definition Mesos_CreateVolume :: "string \<Rightarrow> string \<Rightarrow> ('s, Volume option \<times> go_error option) op" where
  "Mesos_CreateVolume name driver = ret (None, Some errNotSupported)"

definition Mesos_RemoveVolumes :: "string \<Rightarrow> ('s, bool \<times> go_error option) op" where
  "Mesos_RemoveVolumes name = ret (False, Some errNotSupported)"

definition Mesos_Volumes :: "('s, Volume list) op" where
  "Mesos_Volumes = ret []"

definition Mesos_Pull :: "string \<Rightarrow> AuthConfig option \<Rightarrow> ('s, callbacks) op" where
  "Mesos_Pull name authConfig = ret []"

definition Mesos_Load :: "string \<Rightarrow> ('s, callbacks) op" where
  "Mesos_Load imageReader = ret []"

definition Mesos_Import :: "string \<Rightarrow> string \<Rightarrow> string \<Rightarrow> string \<Rightarrow> ('s, callbacks) op" where
  "Mesos_Import source ref tag imageReader = ret []"

definition Mesos_TagImage :: "string \<Rightarrow> string \<Rightarrow> ('s, go_error option) op" where
  "Mesos_TagImage q ref = ret (Some errNotSupported)"

definition Mesos_RefreshEngine :: "string \<Rightarrow> ('s, unit result) op" where
  "Mesos_RefreshEngine hostname = ret (Inr ())"

definition Mesos_RefreshEngines :: "('s, unit result) op" where
  "Mesos_RefreshEngines = ret (Inr ())"

definition Mesos_Scale :: "ScaleItem list \<Rightarrow> ('s, string list option) op" where
  "Mesos_Scale scaleConfig = ret None"

text \<open>\<open>extra\<close> is the part of a configuration that only tasks use.\<close>

definition mesos_backend ::
    "(ContainerConfig \<Rightarrow> TaskConfig) \<Rightarrow> 'd Driver \<Rightarrow> (string \<Rightarrow> 'd Api) \<Rightarrow>
     (string \<Rightarrow> Request \<Rightarrow> ('d, HttpResponse) call) \<Rightarrow> (string \<Rightarrow> Request \<Rightarrow> ('d, go_error option) call) \<Rightarrow> 'd mstate Backend" where
  "mesos_backend extra drv apis http tunnel =
     \<lparr>be_CreateContainer = (\<lambda>config name _. and_then (Mesos_CreateContainer apis drv config (extra config) name) (\<lambda>r.
        or_panic r ret)),
      be_RemoveContainer = Mesos_RemoveContainer apis,
      be_Images = read (\<lambda>(m, _). Mesos_Images m),
      be_Image = (\<lambda>q. read (\<lambda>(m, _). Mesos_Image m q)),
      be_RemoveImages = Mesos_RemoveImages,
      be_Containers = (\<lambda>(m, d). map_option (\<lambda>(ks, m'). (ks, m', d)) (Mesos_Containers m)),
      be_StartContainer = Mesos_StartContainer apis,
      be_Container = (\<lambda>q (m, d). map_option (\<lambda>(k, m'). (k, m', d)) (Mesos_Container m q)),
      be_Networks = read (\<lambda>(m, _). Mesos_Networks m),
      be_CreateNetwork = Mesos_CreateNetwork apis,
      be_RemoveNetwork = Mesos_RemoveNetwork apis,
      be_CreateVolume = Mesos_CreateVolume,
      be_Volumes = Mesos_Volumes,
      be_RemoveVolumes = Mesos_RemoveVolumes,
      be_Pull = Mesos_Pull,
      be_Import = Mesos_Import,
      be_Load = Mesos_Load,
      be_TotalMemory = and_then the_mesos (\<lambda>m. or_panic (Mesos_TotalMemory m) ret),
      be_TotalCpus = and_then the_mesos (\<lambda>m. or_panic (Mesos_TotalCpus m) ret),
      be_BuildImage = Mesos_BuildImage apis,
      be_RANDOMENGINE = and_then the_mesos (\<lambda>m. or_panic (Mesos_RANDOMENGINE m) (\<lambda>r.
        ret (case r of Inl err \<Rightarrow> Inl err | Inr e \<Rightarrow> Inr (Some (engine_spec e))))),
      be_RenameContainer = Mesos_RenameContainer,
      be_TagImage = Mesos_TagImage,
      be_Scale = Mesos_Scale,
      be_RefreshEngine = Mesos_RefreshEngine,
      be_RefreshEngines = Mesos_RefreshEngines,
      be_engine = (\<lambda>spec (m, _). map_option a_engine (map_of (agents m) (owner_agent spec m))),
      be_CheckConnectionErr = (\<lambda>spec err. mesos_engine apis spec (checked err)),
      be_Do = (\<lambda>spec r (m, d). let (resp, d') = http (e_Addr spec) r d in Some (resp, m, d')),
      be_hijack = (\<lambda>spec r (m, d). let (res, d') = tunnel (e_Addr spec) r d in Some (res, m, d')),
      be_NetworkDisconnect = (\<lambda>spec k n force. owned apis spec (\<lambda>api. NetworkDisconnect api k n force)),
      be_RefreshNetworks = (\<lambda>spec. mesos_engine apis spec RefreshNetworks),
      be_RefreshImages = (\<lambda>spec. mesos_engine apis spec RefreshImages),
      be_Refresh = (\<lambda>k. mesos_engine apis (c_Engine k) (\<lambda>api. refreshContainer api (c_ID k) True)),
      be_add_exec = (\<lambda>k i. mesos_engine apis (c_Engine k) (with_exec k i))\<rparr>"

subsection \<open>Containers of a request\<close>

definition getContainerFromVars ::
    "'s Backend \<Rightarrow> (string \<times> string) list \<Rightarrow> ('s, string \<times> Container option \<times> go_error option) op" where
  "getContainerFromVars be vars =
     (case map_of vars ''name'' of
        Some name \<Rightarrow>
          and_then (be_Container be name) (\<lambda>found. case found of
            Some k \<Rightarrow>
              and_then (read (IsHealthy be (c_Engine k))) (\<lambda>healthy.
              if \<not> healthy then ret (name, Some k,
                Some (errorf (''Container '' @ name @ '' running on unhealthy node '' @ e_Name (c_Engine k))))
              else ret (name, Some k, None))
          | None \<Rightarrow> ret (name, None, Some (errorf (''No such container: '' @ name))))
      | None \<Rightarrow>
          (case map_of vars ''execid'' of
             Some i \<Rightarrow>
               and_then (be_Containers be) (\<lambda>ks. case first_such (\<lambda>k. i \<in> set (ExecIDs (Info k))) ks of
                 Some k \<Rightarrow> ret ([], Some k, None)
               | None \<Rightarrow> ret ([], None, Some (errorf (''Exec '' @ i @ '' not found''))))
           | None \<Rightarrow> ret ([], None, Some (errorf ''Not found''))))"

subsection \<open>Forwarding\<close>

text \<open>\<open>engine.HTTPClientAndScheme\<close>; an engine that has left the cluster has lost its client.\<close>

definition http_client :: "'s Backend \<Rightarrow> EngineSpec \<Rightarrow> 's \<Rightarrow> unit result" where
  "http_client be spec s =
     (case be_engine be spec s of
        None \<Rightarrow> Inl (errorf (''Possibly lost connection to Engine (name: '' @ e_Name spec @ '', ID: '' @ e_ID spec @ '') ''))
      | Some e \<Rightarrow> HTTPClientAndScheme e)"

text \<open>
  The replies and the error. The client is taken to wait for the answer: closing the connection earlier only cancels the
  exchange.
\<close>

definition proxyAsync ::
    "'s Backend \<Rightarrow> EngineSpec \<Rightarrow> Request \<Rightarrow> (HttpResponse \<Rightarrow> ('s, unit) op) \<Rightarrow> ('s, reply list \<times> go_error option) op" where
  "proxyAsync be spec r callback =
     and_then (read (http_client be spec)) (\<lambda>cl. case cl of
       Inl err \<Rightarrow> ret ([], Some err)
     | Inr _ \<Rightarrow>
         and_then (be_Do be spec r) (\<lambda>res. case res of
           Inl err \<Rightarrow> ret ([], Some err)
         | Inr resp \<Rightarrow>
             and_then (callback resp) (\<lambda>_.
             ret (copyHeader (hr_Header resp) @ [WriteHeader (hr_Status resp), Write (Text (hr_Body resp))], None))))"

definition proxy :: "'s Backend \<Rightarrow> EngineSpec \<Rightarrow> Request \<Rightarrow> ('s, reply list \<times> go_error option) op" where
  "proxy be spec r = proxyAsync be spec r (\<lambda>_. ret ())"

definition hijack :: "'s Backend \<Rightarrow> EngineSpec \<Rightarrow> Request \<Rightarrow> ('s, reply list \<times> go_error option) op" where
  "hijack be spec r =
     (let parts = SplitN2 (e_Addr spec) ''://'';
          addr = (if length parts = 2 then parts ! 1 else e_Addr spec)
      in and_then (be_hijack be (spec\<lparr>e_Addr := addr\<rparr>) r) (\<lambda>res. case res of
           Inl err \<Rightarrow> ret ([], Some err)
         | Inr err \<Rightarrow> ret ([Hijacked addr], err)))"

end
