(* ===== verification/Api_Listing.thy ===== *)
theory Api_Listing
  imports Api_Http "HOL-Library.Char_ord" "HOL-Library.List_Lexorder"
begin

section \<open>Listings (\<open>api/handlers.go\<close>, \<open>api/sorter.go\<close>)\<close>

text \<open>
  The handlers that list and show containers, images, networks and volumes. The sort of package \<open>sort\<close> is a parameter
  with the contract \<open>go_sort\<close>, for containers and for images; a map that is ranged over is an association list.
\<close>

subsection \<open>What the handlers share\<close>

text \<open>
  \<open>env_match\<close> is \<open>regexp.MatchString\<close>, \<open>FromParam\<close> decodes the filters of a query, \<open>env_human\<close> is \<open>units.HumanDuration\<close>, \<open>env_now\<close> is
  \<open>time.Now\<close>, \<open>unspecified\<close> tells whether a text is an IP address without a host; the rest are the settings and
  the version of the API.
\<close>

record Env =
  env_match :: "string \<Rightarrow> string \<Rightarrow> bool"
  FromParam :: "string \<Rightarrow> Args result"
  env_human :: "int \<Rightarrow> string"
  env_now :: int
  unspecified :: "string \<Rightarrow> bool"
  ShouldRefreshOnNodeFilter :: bool
  ContainerNameRefreshFilter :: string
  apiVersion :: string

text \<open>\<open>ContainerSorter\<close> and \<open>ImageSorter\<close>, under \<open>sort.Reverse\<close>.\<close>

definition newer_container :: "Container \<Rightarrow> Container \<Rightarrow> bool" where
  "newer_container x y \<longleftrightarrow> Info_Created (Info y) < Info_Created (Info x)"

definition newer_image :: "Image \<Rightarrow> Image \<Rightarrow> bool" where
  "newer_image x y \<longleftrightarrow> i_Created y < i_Created x"

lemma strict_weak_newer: "strict_weak newer_container" "strict_weak newer_image"
  by (auto simp: strict_weak_def newer_container_def newer_image_def)

subsection \<open>Containers\<close>

definition name_filter :: "Env \<Rightarrow> Args \<Rightarrow> Container \<Rightarrow> bool" where
  "name_filter en f k =
     (case Names k of
        name # _ \<Rightarrow> args_Match (env_match en) f ''name'' (TrimPrefix name ''/'')
      | [] \<Rightarrow> args_Get f ''name'' = [])"

definition volume_filter :: "Args \<Rightarrow> Container \<Rightarrow> bool" where
  "volume_filter f k =
     (args_Include f ''volume'' \<longrightarrow>
        list_ex (\<lambda>v. list_ex (\<lambda>m. mp_Name m = v \<or> mp_Destination m = v) (Mounts (Info k))) (args_Get f ''volume''))"

definition exit_filter :: "int list \<Rightarrow> ContainerState \<Rightarrow> bool" where
  "exit_filter filtExited st =
     (filtExited \<noteq> [] \<longrightarrow> list_ex (\<lambda>code. code = ExitCode st \<and> \<not> Running st) filtExited)"

definition matches_filters :: "Env \<Rightarrow> Args \<Rightarrow> int list \<Rightarrow> ContainerState \<Rightarrow> Container \<Rightarrow> bool" where
  "matches_filters en f filtExited st k =
     (name_filter en f k \<and>
      args_Match (env_match en) f ''id'' (c_ID k) \<and>
      args_MatchKVMap f ''label'' (Labels (c_Config k)) \<and>
      args_Match (env_match en) f ''status'' (StateString st) \<and>
      args_Match (env_match en) f ''node'' (e_Name (c_Engine k)) \<and>
      volume_filter f k \<and> exit_filter filtExited st)"

text \<open>The conditions of the loop over the containers; \<open>all\<close> and \<open>limited\<close> lift the first two.\<close>

definition container_listed :: "Env \<Rightarrow> Args \<Rightarrow> int list \<Rightarrow> bool \<Rightarrow> bool \<Rightarrow> bool \<Rightarrow> ContainerState \<Rightarrow> Container \<Rightarrow> bool" where
  "container_listed en f filtExited al limited healthy st k =
     (\<not> ((\<not> Running st \<or> \<not> healthy) \<and> \<not> al \<and> \<not> limited) \<and>
      \<not> (str_Split (c_Image k) (CHR '':'') ! 0 = ''swarm'' \<and> \<not> al) \<and>
      matches_filters en f filtExited st k)"

text \<open>A container without a state is a nil dereference.\<close>

definition with_states :: "Containers \<Rightarrow> (Container \<times> ContainerState) list option" where
  "with_states ks = those (map (\<lambda>k. map_option (Pair k) (Info_State (Info k))) ks)"

definition candidates :: "'s Backend \<Rightarrow> Env \<Rightarrow> Args \<Rightarrow> int list \<Rightarrow> bool \<Rightarrow> bool \<Rightarrow> ('s, (Container \<times> ContainerState) list) op" where
  "candidates be en f filtExited al limited =
     and_then (be_Containers be) (\<lambda>ks.
     and_then (read (\<lambda>s. s)) (\<lambda>s.
     or_panic (with_states ks) (\<lambda>kst.
     ret (filter (\<lambda>(k, st). container_listed en f filtExited al limited (IsHealthy be (c_Engine k) s) st k) kst))))"

definition apply_limit :: "int \<Rightarrow> 'a list \<Rightarrow> 'a list" where
  "apply_limit limit xs = (if limit > 0 \<and> limit < int (length xs) then take (nat limit) xs else xs)"

text \<open>\<open>before\<close> skips everything up to and including the container it names.\<close>

fun after_before :: "string option \<Rightarrow> (Container \<times> 'a) list \<Rightarrow> (Container \<times> 'a) list" where
  "after_before None ks = ks"
| "after_before (Some cid) [] = []"
| "after_before (Some cid) ((k, x) # ks) =
     after_before (if c_ID k = cid then None else Some cid) ks"

definition out_container :: "Env \<Rightarrow> bool \<Rightarrow> Container \<times> ContainerState \<Rightarrow> OutContainer" where
  "out_container en healthy = (\<lambda>(k, st).
     \<lparr>oc_ID = c_ID k,
      oc_Names = map (\<lambda>name. ''/'' @ e_Name (c_Engine k) @ name) (Names k),
      oc_Image = c_Image k,
      oc_Ports = map (\<lambda>p. if unspecified en (p_IP p) then p\<lparr>p_IP := e_IP (c_Engine k)\<rparr> else p) (c_Ports k),
      oc_Labels = Labels (c_Config k),
      oc_State = State k,
      oc_Status = (if \<not> healthy then ''Host Down'' else FullStateString (env_human en) Itoa (env_now en) st),
      oc_Created = Created k\<rparr>)"

text \<open>The text of the error is abbreviated.\<close>

fun exit_codes :: "string list \<Rightarrow> int list result" where
  "exit_codes [] = Inr []"
| "exit_codes (v # vs) =
     (let (code, ok) = Atoi v in
      if \<not> ok then Inl (errorf (''strconv.Atoi: parsing '' @ v))
      else case exit_codes vs of Inl err \<Rightarrow> Inl err | Inr codes \<Rightarrow> Inr (code # codes))"

text \<open>Errors of the refreshes are only logged.\<close>

definition refresh_for :: "'s Backend \<Rightarrow> Env \<Rightarrow> Args \<Rightarrow> ('s, unit) op" where
  "refresh_for be en f =
     and_then (if ShouldRefreshOnNodeFilter en
       then fold_op (\<lambda>node _. and_then (be_RefreshEngine be node) (\<lambda>_. ret ())) (args_Get f ''node'') () else ret ()) (\<lambda>_.
     if ContainerNameRefreshFilter en \<noteq> [] \<and> ContainerNameRefreshFilter en \<in> set (args_Get f ''name'')
     then and_then (be_RefreshEngines be) (\<lambda>_. ret ()) else ret ())"

definition the_page ::
    "((Container \<times> ContainerState \<Rightarrow> Container \<times> ContainerState \<Rightarrow> bool) \<Rightarrow> (Container \<times> ContainerState) list \<Rightarrow> (Container \<times> ContainerState) list) \<Rightarrow>
     int \<Rightarrow> string option \<Rightarrow> (Container \<times> ContainerState) list \<Rightarrow> (Container \<times> ContainerState) list" where
  "the_page srt limit before ks =
     after_before before (apply_limit limit (srt (\<lambda>x y. newer_container (fst x) (fst y)) ks))"

definition before_container :: "'s Backend \<Rightarrow> Request \<Rightarrow> ('s, string option result) op" where
  "before_container be r =
     (let v = FormValue r ''before'' in
      if v \<noteq> [] then
        and_then (be_Container be v) (\<lambda>k. ret (case k of
          None \<Rightarrow> Inl (errorf (''No such container '' @ v)) | Some k \<Rightarrow> Inr (Some (c_ID k))))
      else ret (Inr None))"

definition getContainersJSON ::
    "'s Backend \<Rightarrow> Env \<Rightarrow>
     ((Container \<times> ContainerState \<Rightarrow> Container \<times> ContainerState \<Rightarrow> bool) \<Rightarrow> (Container \<times> ContainerState) list \<Rightarrow> (Container \<times> ContainerState) list) \<Rightarrow>
     Request \<Rightarrow> ('s, reply list) op" where
  "getContainersJSON be en srt r =
     (case r_ParseForm r of
        Some err \<Rightarrow> ret (httpError (Error err) 500)
      | None \<Rightarrow>
          and_then (before_container be r) (\<lambda>b. case b of
            Inl err \<Rightarrow> ret (httpError (Error err) 404)
          | Inr before \<Rightarrow>
              (case FromParam en (FormValue r ''filters'') of
                 Inl err \<Rightarrow> ret (httpError (Error err) 500)
               | Inr f \<Rightarrow>
                   (case exit_codes (args_Get f ''exited'') of
                      Inl err \<Rightarrow> ret (httpError (Error err) 500)
                    | Inr filtExited \<Rightarrow>
                        let al = (boolValue r ''all'' \<or> ''exited'' \<in> set (args_Get f ''status''));
                            limit = intValueOrZero r ''limit''
                        in and_then (refresh_for be en f) (\<lambda>_.
                           and_then (candidates be en f filtExited al (before \<noteq> None \<or> limit > 0)) (\<lambda>ks.
                           and_then (read (\<lambda>s. s)) (\<lambda>s.
                           ret (json (JContainers (map (\<lambda>k. out_container en (IsHealthy be (c_Engine (fst k)) s) k)
                             (the_page srt limit before ks)))))))))))"

subsection \<open>Images\<close>

definition accepted_node :: "string list \<Rightarrow> Image \<Rightarrow> bool" where
  "accepted_node accepteds im \<longleftrightarrow> accepteds = [] \<or> e_Name (i_Engine im) \<in> set accepteds \<or> e_ID (i_Engine im) \<in> set accepteds"

definition group_image :: "Image \<Rightarrow> (string \<times> Image) list \<Rightarrow> (string \<times> Image) list" where
  "group_image im groups =
     AList.update (i_ID im) (case map_of groups (i_ID im) of
       Some entry \<Rightarrow> entry\<lparr>RepoTags := RepoTags entry @ RepoTags im, RepoDigests := RepoDigests entry @ RepoDigests im\<rparr>
     | None \<Rightarrow> im) groups"

definition dedup :: "string list \<Rightarrow> string list" where
  "dedup vals = fold (\<lambda>v result. if v \<in> set result then result else result @ [v]) vals []"

definition image_filters :: "Env \<Rightarrow> Request \<Rightarrow> Args \<Rightarrow> Args" where
  "image_filters en r f =
     (let filterParam = FormValue r ''filter'' in
      if LessThan (apiVersion en) ''1.28'' \<and> filterParam \<noteq> [] then args_Add f ''reference'' filterParam else f)"

definition accepted_images :: "Request \<Rightarrow> Args \<Rightarrow> Image list \<Rightarrow> Image list" where
  "accepted_images r f ims =
     filter (accepted_node (args_Get f ''node''))
       (Images_Filter ims \<lparr>opt_All = boolValue r ''all'', opt_Filters = f\<rparr>)"

definition grouped_images :: "Image list \<Rightarrow> Image list" where
  "grouped_images ims =
     map (\<lambda>(_, im). im\<lparr>RepoTags := dedup (RepoTags im), RepoDigests := dedup (RepoDigests im)\<rparr>) (fold group_image ims [])"

definition getImagesJSON ::
    "'s Backend \<Rightarrow> Env \<Rightarrow> ((Image \<Rightarrow> Image \<Rightarrow> bool) \<Rightarrow> Image list \<Rightarrow> Image list) \<Rightarrow> Request \<Rightarrow> ('s, reply list) op" where
  "getImagesJSON be en srt r =
     (case r_ParseForm r of
        Some err \<Rightarrow> ret (httpError (Error err) 500)
      | None \<Rightarrow>
          (case FromParam en (FormValue r ''filters'') of
             Inl err \<Rightarrow> ret (httpError (Error err) 500)
           | Inr f \<Rightarrow>
               and_then (be_Images be) (\<lambda>ims.
               ret (json (JImages (srt newer_image (grouped_images (accepted_images r (image_filters en r f) ims))))))))"

text \<open>
  The images of each engine; the first engine of the map that has all of them answers, and an error of forwarding is
  dropped.
\<close>

definition image_wanted :: "string \<Rightarrow> Image \<Rightarrow> bool" where
  "image_wanted name im =
     (length (SplitN2 name '':'') = 2 \<and> Image_Match im name True \<or> length (SplitN2 name '':'') = 1 \<and> Image_Match im name False)"

definition has_all_images :: "string list \<Rightarrow> Image list \<Rightarrow> bool" where
  "has_all_images names ims \<longleftrightarrow> length (filter (\<lambda>name. list_ex (image_wanted name) ims) names) = length names"

definition engine_images :: "Image list \<Rightarrow> (string \<times> EngineSpec \<times> Image list) list" where
  "engine_images ims =
     fold (\<lambda>im m. AList.update (e_ID (i_Engine im)) (i_Engine im,
       (case map_of m (e_ID (i_Engine im)) of None \<Rightarrow> [] | Some (_, ims) \<Rightarrow> ims) @ [im]) m) ims []"

definition getImages :: "'s Backend \<Rightarrow> Request \<Rightarrow> ('s, reply list) op" where
  "getImages be r =
     (case r_ParseForm r of
        Some err \<Rightarrow> ret (httpError (Error err) 500)
      | None \<Rightarrow>
          let names = (case map_of (r_Form r) ''names'' of None \<Rightarrow> [] | Some vs \<Rightarrow> vs) in
          and_then (be_Images be) (\<lambda>ims.
          case first_such (\<lambda>(_, _, ims). has_all_images names ims) (engine_images ims) of
            Some (_, engine, _) \<Rightarrow> and_then (proxy be engine r) (\<lambda>(rs, _). ret rs)
          | None \<Rightarrow> ret (httpError (''Unable to find an engine containing all images: ['' @ str_Join names '' '' @ '']'') 404)))"

subsection \<open>Networks and volumes\<close>

definition network_name :: "Network \<Rightarrow> Network" where
  "network_name n = (if Scope n = ''local'' then n\<lparr>n_Name := e_Name (n_Engine n) @ ''/'' @ n_Name n\<rparr> else n)"

definition getNetworks :: "'s Backend \<Rightarrow> Env \<Rightarrow> Request \<Rightarrow> ('s, reply list) op" where
  "getNetworks be en r =
     (case r_ParseForm r of
        Some err \<Rightarrow> ret (httpError (Error err) 500)
      | None \<Rightarrow>
          (case FromParam en (FormValue r ''filters'') of
             Inl err \<Rightarrow> ret (httpError (Error err) 400)
           | Inr f \<Rightarrow>
               (case first_such (\<lambda>typ. typ \<noteq> ''custom'' \<and> typ \<noteq> ''builtin'') (args_Get f ''type'') of
                  Some typ \<Rightarrow> ret (httpError (''Invalid filter: '' @ [CHR 0x27] @ ''type'' @ [CHR 0x27] @ ''='' @ [CHR 0x27] @ typ @ [CHR 0x27]) 400)
                | None \<Rightarrow>
                    and_then (be_Networks be) (\<lambda>ns.
                    ret (json (JNetworks (map network_name (Networks_Filter ns f))))))))"

definition getNetwork :: "'s Backend \<Rightarrow> Request \<Rightarrow> ('s, reply list) op" where
  "getNetwork be r =
     and_then (be_Networks be) (\<lambda>ns.
     ret (case Networks_Get (Networks_Uniq ns) (Var r ''networkid'') of
       Some n \<Rightarrow> json (JNetwork (RemoveDuplicateEndpoints n))
     | None \<Rightarrow> httpError (''No such network: '' @ Var r ''networkid'') 404))"

definition getVolume :: "'s Backend \<Rightarrow> Request \<Rightarrow> ('s, reply list) op" where
  "getVolume be r =
     and_then (be_Volumes be) (\<lambda>vs.
     ret (case Volumes_Get vs (Var r ''volumename'') of
       Some v \<Rightarrow> json (JVolume (Some v))
     | None \<Rightarrow> httpError (''No such volume: '' @ Var r ''volumename'') 404))"

definition volume_name :: "Volume \<Rightarrow> Volume" where
  "volume_name v = (if v_Driver v = ''local'' then v\<lparr>v_Name := e_Name (v_Engine v) @ ''/'' @ v_Name v\<rparr> else v)"

definition getVolumes :: "'s Backend \<Rightarrow> Env \<Rightarrow> Request \<Rightarrow> ('s, reply list) op" where
  "getVolumes be en r =
     (case FromParam en (FormValue r ''filters'') of
        Inl err \<Rightarrow> ret (httpError (Error err) 500)
      | Inr f \<Rightarrow>
          let names = args_Get f ''name'' in
          and_then (be_Volumes be) (\<lambda>vs.
          ret (json (JVolumes (map volume_name
            (filter (\<lambda>v. \<not> (names \<noteq> [] \<and> \<not> list_ex (Contains (v_Name v)) names)) vs))))))"

subsection \<open>Information\<close>

text \<open>
  Clients before 1.22 show the status as a driver's: a leading space is dropped, a line without one gets a backspace. The
  first character of an empty key is out of range.
\<close>

definition old_status :: "(string \<times> string) list \<Rightarrow> (string \<times> string) list option" where
  "old_status status =
     those (map (\<lambda>(k, v). if k = [] then None
       else Some (if take 1 k = '' '' then drop 1 k else CHR 0x08 # k, v)) status)"

definition getInfo :: "'s Backend \<Rightarrow> Env \<Rightarrow> nat \<Rightarrow> (string \<times> string) list \<Rightarrow> ('s, reply list) op" where
  "getInfo be en listeners status =
     and_then (be_Images be) (\<lambda>ims.
     and_then (be_TotalCpus be) (\<lambda>cpus.
     and_then (be_TotalMemory be) (\<lambda>mem.
     let old = (apiVersion en \<noteq> [] \<and> LessThan (apiVersion en) ''1.22'') in
     or_panic (if old then old_status status else Some status) (\<lambda>shown.
     and_then (be_Containers be) (\<lambda>ks.
     or_panic (with_states ks) (\<lambda>kst.
     ret (json (JInfo \<lparr>si_Images = length (Images_Filter ims \<lparr>opt_All = False, opt_Filters = []\<rparr>),
       si_NEventsListener = listeners, si_NCPU = cpus, si_MemTotal = mem,
       si_DriverStatus = (if old then shown else []), si_SystemStatus = (if old then [] else shown),
       si_Containers = length kst,
       si_Paused = length (filter (\<lambda>(_, st). Paused st) kst),
       si_Running = length (filter (\<lambda>(_, st). \<not> Paused st \<and> Running st) kst),
       si_Stopped = length (filter (\<lambda>(_, st). \<not> Paused st \<and> \<not> Running st) kst)\<rparr>))))))))"

subsection \<open>What is listed\<close>

lemma with_states_Some: "with_states ks = Some kst \<Longrightarrow> map fst kst = ks \<and> (\<forall>(k, st) \<in> set kst. Info_State (Info k) = Some st)"
  unfolding with_states_def
  by (induction ks arbitrary: kst) (auto split: option.split_asm)

lemma with_states_filter:
  assumes "with_states ks = Some kst"
  shows "map fst (filter (\<lambda>(k, st). P k st) kst) = filter (\<lambda>k. case Info_State (Info k) of None \<Rightarrow> False | Some st \<Rightarrow> P k st) ks"
proof -
  from with_states_Some [OF assms] have eq: "map fst kst = ks" and st: "\<forall>(k, st) \<in> set kst. Info_State (Info k) = Some st" by auto
  have "filter (\<lambda>(k, st). P k st) kst =
      filter ((\<lambda>k. case Info_State (Info k) of None \<Rightarrow> False | Some st \<Rightarrow> P k st) \<circ> fst) kst"
    using st by (intro filter_cong) auto
  then show ?thesis by (simp add: eq [symmetric] filter_map)
qed

text \<open>What the image name is compared with: the part before the first colon.\<close>

lemma split_first: "str_Split s x ! 0 = takeWhile (\<lambda>ch. ch \<noteq> x) s"
proof (induction s)
  case (Cons ch s)
  then show ?case by (cases "str_Split s x") simp_all
qed simp

lemma after_before_eq:
  "after_before b ks = (case b of None \<Rightarrow> ks | Some cid \<Rightarrow> tl (dropWhile (\<lambda>k. c_ID (fst k) \<noteq> cid) ks))"
proof (cases b)
  case (Some cid)
  have "after_before (Some cid) ks = tl (dropWhile (\<lambda>k. c_ID (fst k) \<noteq> cid) ks)" by (induction ks) auto
  with Some show ?thesis by simp
qed simp

text \<open>The part of the handler after the parameters have been read.\<close>

lemma candidates_run:
  assumes "candidates be en f codes al lm s = Some (kst, s')"
  shows "\<exists>ks. be_Containers be s = Some (ks, s') \<and> map fst kst = filter (\<lambda>k. case Info_State (Info k) of None \<Rightarrow> False
    | Some st \<Rightarrow> container_listed en f codes al lm (IsHealthy be (c_Engine k) s') st k) ks"
proof -
  from assms obtain ks s1 where ks: "be_Containers be s = Some (ks, s1)"
    and rest: "(and_then (read (\<lambda>s. s)) (\<lambda>s. or_panic (with_states ks) (\<lambda>kst.
      ret (filter (\<lambda>(k, st). container_listed en f codes al lm (IsHealthy be (c_Engine k) s) st k) kst)))) s1 = Some (kst, s')"
    unfolding candidates_def and_then_Some by blast
  then obtain kst0 where ws: "with_states ks = Some kst0" by (cases "with_states ks") (simp_all add: op_simps)
  have "s1 = s'" "kst = filter (\<lambda>(k, st). container_listed en f codes al lm (IsHealthy be (c_Engine k) s') st k) kst0"
    using rest by (auto simp: op_simps ws)
  with ks with_states_filter [OF ws] show ?thesis by blast
qed

lemma strict_weak_vimage: "strict_weak R \<Longrightarrow> strict_weak (\<lambda>x y. R (f x) (f y))"
  unfolding strict_weak_def by blast

text \<open>The page that is sent: the sorted candidates, cut at the limit, and of these the ones after \<open>before\<close>.\<close>

lemma page_sorted:
  assumes "go_sort srt"
  shows "\<exists>ordered. mset ordered = mset (map fst kst) \<and>
    sorted_wrt (\<lambda>x y. Info_Created (Info y) \<le> Info_Created (Info x)) ordered \<and>
    map fst (the_page srt limit b kst) =
      (let page = (if limit > 0 then take (nat limit) ordered else ordered) in
       case b of None \<Rightarrow> page | Some cid \<Rightarrow> tl (dropWhile (\<lambda>k. c_ID k \<noteq> cid) page))"
proof (intro exI conjI)
  let ?lt = "\<lambda>x y. newer_container (fst x) (fst y)"
  let ?l = "srt ?lt kst"
  have weak: "strict_weak ?lt" by (rule strict_weak_vimage [OF strict_weak_newer(1)])
  show "mset (map fst ?l) = mset (map fst kst)" using go_sort.srt_mset [OF assms] by (metis mset_map)
  show "sorted_wrt (\<lambda>x y. Info_Created (Info y) \<le> Info_Created (Info x)) (map fst ?l)"
    using go_sort.srt_sorted [OF assms weak] by (simp add: sorted_wrt_map newer_container_def not_less)
  have "map fst (apply_limit limit ?l) = (if limit > 0 then take (nat limit) (map fst ?l) else map fst ?l)"
    by (auto simp: apply_limit_def take_map)
  then show "map fst (the_page srt limit b kst) =
      (let page = (if limit > 0 then take (nat limit) (map fst ?l) else map fst ?l) in
       case b of None \<Rightarrow> page | Some cid \<Rightarrow> tl (dropWhile (\<lambda>k. c_ID k \<noteq> cid) page))"
    unfolding the_page_def after_before_eq Let_def
    by (cases b) (simp_all add: map_tl dropWhile_map comp_def flip: \<open>map fst (apply_limit limit ?l) = _\<close>)
qed

lemma getContainersJSON_run:
  assumes "getContainersJSON be en srt r s = Some (rs, s')" "r_ParseForm r = None" "before_container be r s = Some (Inr b, s)"
    and "FromParam en (FormValue r ''filters'') = Inr f" "exit_codes (args_Get f ''exited'') = Inr codes"
  shows "\<exists>s1 kst. candidates be en f codes (boolValue r ''all'' \<or> ''exited'' \<in> set (args_Get f ''status''))
      (b \<noteq> None \<or> intValueOrZero r ''limit'' > 0) s1 = Some (kst, s') \<and>
    rs = json (JContainers (map (\<lambda>k. out_container en (IsHealthy be (c_Engine (fst k)) s') k)
      (the_page srt (intValueOrZero r ''limit'') b kst)))"
proof -
  let ?al = "boolValue r ''all'' \<or> ''exited'' \<in> set (args_Get f ''status'')" and ?limit = "intValueOrZero r ''limit''"
  let ?rest = "and_then (refresh_for be en f) (\<lambda>_. and_then (candidates be en f codes ?al (b \<noteq> None \<or> ?limit > 0)) (\<lambda>ks.
      and_then (read (\<lambda>s. s)) (\<lambda>s. ret (json (JContainers
        (map (\<lambda>k. out_container en (IsHealthy be (c_Engine (fst k)) s) k) (the_page srt ?limit b ks)))))))"
  have "getContainersJSON be en srt r s = ?rest s"
    unfolding getContainersJSON_def by (simp add: assms(2-5) and_then_step [where m = "before_container be r" and s = s, OF assms(3)] Let_def)
  with assms(1) have rest: "?rest s = Some (rs, s')" by simp
  then obtain s1 kst s2 where "candidates be en f codes ?al (b \<noteq> None \<or> ?limit > 0) s1 = Some (kst, s2)"
    "(and_then (read (\<lambda>s. s)) (\<lambda>s. ret (json (JContainers
        (map (\<lambda>k. out_container en (IsHealthy be (c_Engine (fst k)) s) k) (the_page srt ?limit b kst)))))) s2 = Some (rs, s')"
    unfolding and_then_Some by blast
  then show ?thesis by (intro exI [of _ s1] exI [of _ kst]) (auto simp: op_simps)
qed

text \<open>
  \<open>before\<close> is looked for after the limit has been applied: a container that is not among the newest ones leaves
  nothing to list, however many older containers there are.
\<close>

lemma before_beyond_limit: "cid \<notin> (\<lambda>(k, _). c_ID k) ` set ks \<Longrightarrow> after_before (Some cid) ks = []"
  by (induction ks) auto

lemma page_before_beyond_limit:
  assumes "cid \<notin> (\<lambda>(k, _). c_ID k) ` set (apply_limit limit (srt (\<lambda>x y. newer_container (fst x) (fst y)) ks))"
  shows "the_page srt limit (Some cid) ks = []"
  unfolding the_page_def using assms by (rule before_beyond_limit)

lemma swarm_backend_reads:
  "be_Containers (swarm_backend re mt rids apis http tunnel) (c, d) = Some (Cluster_Containers c, c, d)"
  "be_Images (swarm_backend re mt rids apis http tunnel) (c, d) = Some (Cluster_Images c, c, d)"
  "be_Container (swarm_backend re mt rids apis http tunnel) q (c, d) = Some (Cluster_Container c q, c, d)"
  "be_Networks (swarm_backend re mt rids apis http tunnel) (c, d) = Some (Cluster_Networks c, c, d)"
  by (simp_all add: swarm_backend_def read_def)

lemma swarm_healthy:
  "IsHealthy (swarm_backend re mt rids apis http tunnel) sp (c, d) =
     (case map_of (engines c) (e_ID sp) of None \<Rightarrow> False | Some e \<Rightarrow> isHealthy e)"
  by (simp add: IsHealthy_def swarm_backend_def)

lemma out_container_ID [simp]: "oc_ID (out_container en healthy k) = c_ID (fst k)"
  by (simp add: out_container_def split_beta)

text \<open>The conditions of the loop as one predicate.\<close>

lemma container_listed_iff:
  "container_listed en f codes al limited healthy st k \<longleftrightarrow>
     (al \<or> limited \<or> Running st \<and> healthy) \<and> (al \<or> takeWhile (\<lambda>ch. ch \<noteq> CHR '':'') (c_Image k) \<noteq> ''swarm'') \<and>
     (case Names k of [] \<Rightarrow> args_Get f ''name'' = [] | name # _ \<Rightarrow> args_Match (env_match en) f ''name'' (TrimPrefix name ''/'')) \<and>
     args_Match (env_match en) f ''id'' (c_ID k) \<and> args_MatchKVMap f ''label'' (Labels (c_Config k)) \<and>
     args_Match (env_match en) f ''status'' (StateString st) \<and> args_Match (env_match en) f ''node'' (e_Name (c_Engine k)) \<and>
     (args_Include f ''volume'' \<longrightarrow> (\<exists>v \<in> set (args_Get f ''volume''). \<exists>m \<in> set (Mounts (Info k)). v \<in> {mp_Name m, mp_Destination m})) \<and>
     (codes \<noteq> [] \<longrightarrow> \<not> Running st \<and> ExitCode st \<in> set codes)"
proof -
  have "name_filter en f k \<longleftrightarrow> (case Names k of [] \<Rightarrow> args_Get f ''name'' = []
      | name # _ \<Rightarrow> args_Match (env_match en) f ''name'' (TrimPrefix name ''/''))"
    by (simp add: name_filter_def split: list.split)
  moreover have "volume_filter f k \<longleftrightarrow> (args_Include f ''volume'' \<longrightarrow>
      (\<exists>v \<in> set (args_Get f ''volume''). \<exists>m \<in> set (Mounts (Info k)). v \<in> {mp_Name m, mp_Destination m}))"
    by (auto simp: volume_filter_def list_ex_iff)
  moreover have "exit_filter codes st \<longleftrightarrow> (codes \<noteq> [] \<longrightarrow> \<not> Running st \<and> ExitCode st \<in> set codes)"
    by (auto simp: exit_filter_def list_ex_iff)
  ultimately show ?thesis unfolding container_listed_def matches_filters_def split_first by blast
qed

text \<open>
  C25. What \<open>docker ps\<close> lists on a swarm, for a request whose parameters parse and, if it names a container in
  \<open>before\<close>, names one that the cluster knows, unless a container without a state makes the handler panic. A container
  is shown when it runs on a healthy engine, or \<open>all\<close> (or the status \<open>exited\<close>), a limit or \<open>before\<close> is given; when its
  image is not \<open>swarm\<close>, or \<open>all\<close> is given; when its first name, its identifier, its labels, its state and the name of
  its engine match the filters for these; when one of the volumes asked for is mounted in it; and when it has exited
  with one of the exit codes asked for. The listing is what is shown, newest first, cut after the limit, and of this
  page the containers that follow the one named in \<open>before\<close>; each has the identifier of its container and the name of
  the engine in front of its names.
\<close>

theorem container_listing:
  assumes "go_sort srt" "getContainersJSON (swarm_backend re mt rids apis http tunnel) en srt r (c, d) = Some (rs, c', d')"
    and "r_ParseForm r = None" "FromParam en (FormValue r ''filters'') = Inr f"
    and "exit_codes (args_Get f ''exited'') = Inr codes"
    and "case before of None \<Rightarrow> FormValue r ''before'' = []
      | Some b \<Rightarrow> FormValue r ''before'' \<noteq> [] \<and> Cluster_Container c (FormValue r ''before'') = Some b"
    and "limit = intValueOrZero r ''limit''" "al \<longleftrightarrow> boolValue r ''all'' \<or> ''exited'' \<in> set (args_Get f ''status'')"
    and "shown = filter (\<lambda>k. case Info_State (Info k) of None \<Rightarrow> False | Some st \<Rightarrow>
      (al \<or> before \<noteq> None \<or> limit > 0 \<or>
        Running st \<and> (case map_of (engines c') (e_ID (c_Engine k)) of None \<Rightarrow> False | Some e \<Rightarrow> isHealthy e)) \<and>
      (al \<or> takeWhile (\<lambda>ch. ch \<noteq> CHR '':'') (c_Image k) \<noteq> ''swarm'') \<and>
      (case Names k of [] \<Rightarrow> args_Get f ''name'' = [] | name # _ \<Rightarrow> args_Match (env_match en) f ''name'' (TrimPrefix name ''/'')) \<and>
      args_Match (env_match en) f ''id'' (c_ID k) \<and> args_MatchKVMap f ''label'' (Labels (c_Config k)) \<and>
      args_Match (env_match en) f ''status'' (StateString st) \<and> args_Match (env_match en) f ''node'' (e_Name (c_Engine k)) \<and>
      (args_Include f ''volume'' \<longrightarrow> (\<exists>v \<in> set (args_Get f ''volume''). \<exists>m \<in> set (Mounts (Info k)). v \<in> {mp_Name m, mp_Destination m})) \<and>
      (codes \<noteq> [] \<longrightarrow> \<not> Running st \<and> ExitCode st \<in> set codes)) (Cluster_Containers c')"
  shows "\<exists>ordered out. rs = json (JContainers out) \<and> mset ordered = mset shown \<and>
    sorted_wrt (\<lambda>x y. Info_Created (Info y) \<le> Info_Created (Info x)) ordered \<and>
    map (\<lambda>k. (oc_ID k, oc_Names k)) out = map (\<lambda>k. (c_ID k, map (\<lambda>name. ''/'' @ e_Name (c_Engine k) @ name) (Names k)))
      (let page = (if limit > 0 then take (nat limit) ordered else ordered) in
       case before of None \<Rightarrow> page | Some b \<Rightarrow> tl (dropWhile (\<lambda>k. c_ID k \<noteq> c_ID b) page))"
proof -
  let ?be = "swarm_backend re mt rids apis http tunnel"
  have "before_container ?be r (c, d) = Some (Inr (map_option c_ID before), c, d)"
    using assms(6) by (cases before) (simp_all add: before_container_def op_simps and_then_def swarm_backend_reads Let_def)
  from getContainersJSON_run [OF assms(2,3) this assms(4,5)] obtain s1 kst where
    cand: "candidates ?be en f codes al (before \<noteq> None \<or> limit > 0) s1 = Some (kst, c', d')"
    and rs: "rs = json (JContainers (map (\<lambda>k. out_container en (IsHealthy ?be (c_Engine (fst k)) (c', d')) k)
      (the_page srt limit (map_option c_ID before) kst)))"
    unfolding assms(7,8) by auto
  from candidates_run [OF cand] obtain ks where ks: "be_Containers ?be s1 = Some (ks, c', d')"
    and shown': "map fst kst = filter (\<lambda>k. case Info_State (Info k) of None \<Rightarrow> False
      | Some st \<Rightarrow> container_listed en f codes al (before \<noteq> None \<or> limit > 0) (IsHealthy ?be (c_Engine k) (c', d')) st k) ks" by blast
  from ks have "ks = Cluster_Containers c'" by (cases s1) (simp add: swarm_backend_reads)
  with shown' have shown: "map fst kst = shown" unfolding assms(9) container_listed_iff swarm_healthy disj_assoc by simp
  have out: "map (\<lambda>k. (oc_ID k, oc_Names k)) (map (\<lambda>k. out_container en (h k) k) page) =
      map (\<lambda>k. (c_ID k, map (\<lambda>name. ''/'' @ e_Name (c_Engine k) @ name) (Names k))) (map fst page)" for h page
    by (simp add: out_container_def split_beta)
  from page_sorted [OF assms(1), of kst limit "map_option c_ID before"] obtain ordered where
    "mset ordered = mset shown" "sorted_wrt (\<lambda>x y. Info_Created (Info y) \<le> Info_Created (Info x)) ordered"
    "map fst (the_page srt limit (map_option c_ID before) kst) =
      (let page = (if limit > 0 then take (nat limit) ordered else ordered) in
       case before of None \<Rightarrow> page | Some b \<Rightarrow> tl (dropWhile (\<lambda>k. c_ID k \<noteq> c_ID b) page))"
    unfolding shown by (cases before) auto
  then show ?thesis unfolding rs by (intro exI conjI) (assumption | rule refl | simp only: out)+
qed

subsection \<open>Grouping of images\<close>

lemma dedup_fold: "distinct acc \<Longrightarrow> distinct (fold (\<lambda>v result. if v \<in> set result then result else result @ [v]) vals acc) \<and>
    set (fold (\<lambda>v result. if v \<in> set result then result else result @ [v]) vals acc) = set acc \<union> set vals"
  by (induction vals arbitrary: acc) auto

lemma dedup: "distinct (dedup vals)" "set (dedup vals) = set vals"
  using dedup_fold [of "[]" vals] by (simp_all add: dedup_def)

text \<open>The groups of a list of images: one per identifier, with the tags and digests of all of them.\<close>

definition groups_of :: "Image list \<Rightarrow> (string \<times> Image) list \<Rightarrow> bool" where
  "groups_of ims groups \<longleftrightarrow>
     distinct (map fst groups) \<and> fst ` set groups = i_ID ` set ims \<and>
     (\<forall>i g. map_of groups i = Some g \<longrightarrow> i_ID g = i \<and>
       set (RepoTags g) = (\<Union>im \<in> {im \<in> set ims. i_ID im = i}. set (RepoTags im)) \<and>
       set (RepoDigests g) = (\<Union>im \<in> {im \<in> set ims. i_ID im = i}. set (RepoDigests im)))"

lemma groups_of_step:
  assumes "groups_of ims groups"
  shows "groups_of (ims @ [im]) (group_image im groups)"
proof -
  have keys: "distinct (map fst groups)" "fst ` set groups = i_ID ` set ims" using assms by (simp_all add: groups_of_def)
  have old: "i_ID g = i \<and> set (RepoTags g) = (\<Union>x \<in> {x \<in> set ims. i_ID x = i}. set (RepoTags x)) \<and>
      set (RepoDigests g) = (\<Union>x \<in> {x \<in> set ims. i_ID x = i}. set (RepoDigests x))" if "map_of groups i = Some g" for i g
    using assms that by (simp add: groups_of_def)
  have split: "{x \<in> set (ims @ [im]). i_ID x = i} = (if i_ID im = i then insert im {x \<in> set ims. i_ID x = i} else {x \<in> set ims. i_ID x = i})" for i
    by auto
  have new: "i_ID g = i \<and> set (RepoTags g) = (\<Union>x \<in> {x \<in> set (ims @ [im]). i_ID x = i}. set (RepoTags x)) \<and>
      set (RepoDigests g) = (\<Union>x \<in> {x \<in> set (ims @ [im]). i_ID x = i}. set (RepoDigests x))"
    if g: "map_of (group_image im groups) i = Some g" for i g
  proof (cases "i_ID im = i")
    case False
    then have "map_of groups i = Some g" using g by (simp add: group_image_def update_conv')
    from old [OF this] False show ?thesis unfolding split by simp
  next
    case True
    show ?thesis
    proof (cases "map_of groups i")
      case None
      then have none: "{x \<in> set ims. i_ID x = i} = {}" using keys(2) by (auto simp: map_of_eq_None_iff)
      have "g = im" using g None True by (simp add: group_image_def update_conv')
      then show ?thesis unfolding split none using True by simp
    next
      case (Some entry)
      have "g = entry\<lparr>RepoTags := RepoTags entry @ RepoTags im, RepoDigests := RepoDigests entry @ RepoDigests im\<rparr>"
        using g Some True by (simp add: group_image_def update_conv')
      then show ?thesis unfolding split using old [OF Some] True by (simp add: Un_commute)
    qed
  qed
  show ?thesis
    unfolding groups_of_def
  proof (intro conjI allI impI)
    show "distinct (map fst (group_image im groups))" using keys(1) by (simp add: group_image_def distinct_update)
    show "fst ` set (group_image im groups) = i_ID ` set (ims @ [im])" using keys(2) by (simp add: group_image_def dom_update)
  qed (use new in blast)+
qed

lemma groups_of_fold: "groups_of done groups \<Longrightarrow> groups_of (done @ ims) (fold group_image ims groups)"
proof (induction ims arbitrary: "done" groups)
  case (Cons im ims)
  from Cons.IH [OF groups_of_step [OF Cons.prems]] show ?case by simp
qed simp

lemma groups_of_all: "groups_of ims (fold group_image ims [])"
  using groups_of_fold [of "[]" "[]"] by (simp add: groups_of_def)

lemma grouped_images:
  "distinct (map i_ID (grouped_images ims))" "i_ID ` set (grouped_images ims) = i_ID ` set ims"
  "im \<in> set (grouped_images ims) \<Longrightarrow> distinct (RepoTags im) \<and> distinct (RepoDigests im) \<and>
     set (RepoTags im) = (\<Union>x \<in> {x \<in> set ims. i_ID x = i_ID im}. set (RepoTags x)) \<and>
     set (RepoDigests im) = (\<Union>x \<in> {x \<in> set ims. i_ID x = i_ID im}. set (RepoDigests x))"
proof -
  let ?g = "fold group_image ims []"
  note all = groups_of_all [of ims, unfolded groups_of_def]
  have member: "map_of ?g i = Some x" if "(i, x) \<in> set ?g" for i x using all that by (simp add: map_of_is_SomeI)
  have eq: "map i_ID (grouped_images ims) = map fst ?g"
    using all member by (auto simp: grouped_images_def)
  then show "distinct (map i_ID (grouped_images ims))" "i_ID ` set (grouped_images ims) = i_ID ` set ims"
    using all by (simp_all flip: set_map add: eq)
  assume "im \<in> set (grouped_images ims)"
  then obtain i x where "(i, x) \<in> set ?g" "im = x\<lparr>RepoTags := dedup (RepoTags x), RepoDigests := dedup (RepoDigests x)\<rparr>"
    by (auto simp: grouped_images_def)
  with member [OF this(1)] all show "distinct (RepoTags im) \<and> distinct (RepoDigests im) \<and>
     set (RepoTags im) = (\<Union>x \<in> {x \<in> set ims. i_ID x = i_ID im}. set (RepoTags x)) \<and>
     set (RepoDigests im) = (\<Union>x \<in> {x \<in> set ims. i_ID x = i_ID im}. set (RepoDigests x))"
    by (simp add: dedup)
qed

text \<open>
  C32. \<open>docker images\<close> on a swarm shows one entry per image identifier among the images that pass the filters, newest
  first; the entry carries exactly the tags and digests that the image has on any of the engines, each of them once, as far as
  the image there passes the filters.
\<close>

theorem image_listing:
  assumes "go_sort srt" "getImagesJSON (swarm_backend re mt rids apis http tunnel) en srt r (c, d) = Some (rs, c', d')"
    and "r_ParseForm r = None" "FromParam en (FormValue r ''filters'') = Inr f"
    and "ims = accepted_images r (image_filters en r f) (Cluster_Images c)"
  shows "\<exists>out. rs = json (JImages out) \<and> sorted_wrt (\<lambda>x y. \<not> newer_image y x) out \<and>
    distinct (map i_ID out) \<and> i_ID ` set out = i_ID ` set ims \<and>
    (\<forall>im \<in> set out. distinct (RepoTags im) \<and> distinct (RepoDigests im) \<and>
      set (RepoTags im) = (\<Union>x \<in> {x \<in> set ims. i_ID x = i_ID im}. set (RepoTags x)) \<and>
      set (RepoDigests im) = (\<Union>x \<in> {x \<in> set ims. i_ID x = i_ID im}. set (RepoDigests x)))"
proof -
  let ?out = "srt newer_image (grouped_images ims)"
  have rs: "rs = json (JImages ?out)"
    using assms(2-4) by (auto simp: getImagesJSON_def and_then_Some swarm_backend_reads ret_def assms(5))
  have m: "mset ?out = mset (grouped_images ims)" using go_sort.srt_mset [OF assms(1)] .
  then have s: "set ?out = set (grouped_images ims)" by (rule mset_eq_setD)
  have "mset (map i_ID ?out) = mset (map i_ID (grouped_images ims))" using m by (metis mset_map)
  then have "distinct (map i_ID ?out)" using grouped_images(1) by (metis mset_eq_imp_distinct_iff)
  moreover have "sorted_wrt (\<lambda>x y. \<not> newer_image y x) ?out"
    using go_sort.srt_sorted [OF assms(1) strict_weak_newer(2)] .
  ultimately show ?thesis using rs s grouped_images(2,3) by (intro exI [of _ ?out]) auto
qed

subsection \<open>A swarm to list\<close>

definition list_env :: Env where
  "list_env = \<lparr>env_match = (=), FromParam = (\<lambda>p. Inr []), env_human = Itoa, env_now = 2000, unspecified = (\<lambda>ip. ip = ''0.0.0.0''),
     ShouldRefreshOnNodeFilter = False, ContainerNameRefreshFilter = [], apiVersion = ''1.24''\<rparr>"

definition list_container :: "string \<Rightarrow> string \<Rightarrow> Container" where
  "list_container cid created =
     (a_container cid [''/'' @ cid])\<lparr>c_Image := ''nginx:1'', Info := demo_info\<lparr>Info_Created := created\<rparr>,
        c_Engine := empty_spec\<lparr>e_ID := ''E1'', e_Name := ''node-1''\<rparr>\<rparr>"

definition list_image :: "string \<Rightarrow> string list \<Rightarrow> Image" where
  "list_image i tags = \<lparr>i_ID = i, RepoTags = tags, RepoDigests = [], i_Created = 1, i_Labels = [], i_Engine = empty_spec\<rparr>"

definition list_cluster :: Cluster where
  "list_cluster = demo_empty\<lparr>engines := [(''E1'', demo_engine\<lparr>e_ID := ''E1'', e_Name := ''node-1'', connected := True,
     containers := [(''c1'', list_container ''c1'' ''2016-01-01''), (''c2'', list_container ''c2'' ''2016-02-01'')],
     images := [list_image ''i1'' [''a:1'', ''b:1''], list_image ''i2'' [''c:1'']]\<rparr>),
     (''E2'', demo_engine\<lparr>e_ID := ''E2'', e_Name := ''node-2'', images := [list_image ''i1'' [''a:1'', ''d:1'']]\<rparr>)]\<rparr>"

definition list_request :: "string \<Rightarrow> Request" where
  "list_request limit = \<lparr>r_Path = ''/containers/json'', r_RawQuery = [], r_Vars = [], r_Form = [(''limit'', [limit])], r_ParseForm = None,
     r_Header = [], r_Body = [], r_RemoteAddr = []\<rparr>"

definition list_backend :: "demo_daemon cstate Backend" where
  "list_backend = swarm_backend (\<lambda>_. None) (=) (\<lambda>_ _ _. 0) demo_apis (\<lambda>_ _ d. (Inl refused, d)) (\<lambda>_ _ d. (Inl refused, d))"

definition page_request :: "string \<Rightarrow> Request" where
  "page_request prev = (list_request ''2'')\<lparr>r_Form := [(''limit'', [''2'']), (''before'', [prev])]\<rparr>"

lemma page_request_simps:
  "r_ParseForm (page_request p) = None" "FormValue (page_request p) ''before'' = p" "FormValue (page_request p) ''filters'' = []"
  "boolValue (page_request p) ''all'' = False" "intValueOrZero (page_request p) ''limit'' = 2"
proof -
  have "FormValue (page_request p) ''all'' = []" "FormValue (page_request p) ''limit'' = ''2''"
    by (simp_all add: page_request_def list_request_def FormValue_def)
  moreover have "\<And>r. FormValue r ''all'' = [] \<Longrightarrow> boolValue r ''all'' = False" by (simp add: boolValue_def) code_simp
  moreover have "fst (Atoi ''2'') = 2" "snd (Atoi ''2'')" by code_simp+
  ultimately show "boolValue (page_request p) ''all'' = False" "intValueOrZero (page_request p) ''limit'' = 2"
    by (simp_all add: intValueOrZero_def split_beta)
qed (simp_all add: page_request_def list_request_def FormValue_def)

lemma list_lookup: "\<exists>k. Cluster_Container list_cluster ''c2'' = Some k \<and> c_ID k = ''c2''"
proof -
  have "map_option c_ID (Cluster_Container list_cluster ''c2'') = Some ''c2''" by code_simp
  then show ?thesis by (simp add: map_option_eq_Some)
qed

lemma page_run:
  "\<exists>rs. getContainersJSON list_backend list_env insertionSort (page_request ''c2'') (list_cluster, demo_world) = Some (rs, list_cluster, demo_world)"
proof -
  have "with_states (Cluster_Containers list_cluster) \<noteq> None" by code_simp
  with list_lookup show ?thesis
    by (auto simp: getContainersJSON_def page_request_simps before_container_def list_env_def args_Get_def refresh_for_def
        candidates_def list_backend_def swarm_backend_reads and_then_def op_simps Let_def)
qed

definition page_shown :: "bool \<Rightarrow> int \<Rightarrow> Container option \<Rightarrow> Cluster \<Rightarrow> Args \<Rightarrow> int list \<Rightarrow> Env \<Rightarrow> Containers" where
  "page_shown al limit before c' f codes en = filter (\<lambda>k. case Info_State (Info k) of None \<Rightarrow> False | Some st \<Rightarrow>
      (al \<or> before \<noteq> None \<or> limit > 0 \<or>
        Running st \<and> (case map_of (engines c') (e_ID (c_Engine k)) of None \<Rightarrow> False | Some e \<Rightarrow> isHealthy e)) \<and>
      (al \<or> takeWhile (\<lambda>ch. ch \<noteq> CHR '':'') (c_Image k) \<noteq> ''swarm'') \<and>
      (case Names k of [] \<Rightarrow> args_Get f ''name'' = [] | name # _ \<Rightarrow> args_Match (env_match en) f ''name'' (TrimPrefix name ''/'')) \<and>
      args_Match (env_match en) f ''id'' (c_ID k) \<and> args_MatchKVMap f ''label'' (Labels (c_Config k)) \<and>
      args_Match (env_match en) f ''status'' (StateString st) \<and> args_Match (env_match en) f ''node'' (e_Name (c_Engine k)) \<and>
      (args_Include f ''volume'' \<longrightarrow> (\<exists>v \<in> set (args_Get f ''volume''). \<exists>m \<in> set (Mounts (Info k)). v \<in> {mp_Name m, mp_Destination m})) \<and>
      (codes \<noteq> [] \<longrightarrow> \<not> Running st \<and> ExitCode st \<in> set codes)) (Cluster_Containers c')"

lemma page_shown_lists:
  "page_shown False 2 (Some b) list_cluster [] [] list_env = Cluster_Containers list_cluster"
  by (simp add: page_shown_def list_cluster_def Cluster_Containers_def Engine_Containers_def list_container_def a_container_def
      demo_info_def args_Get_def args_Match_def args_ExactMatch_def args_MatchKVMap_def args_Include_def demo_engine_def NewEngine_def)

theorem container_listing_witness:
  "\<exists>ordered out. mset ordered = mset (Cluster_Containers list_cluster) \<and>
     map oc_ID out = map c_ID (tl (dropWhile (\<lambda>k. c_ID k \<noteq> ''c2'') (take 2 ordered))) \<and>
     getContainersJSON list_backend list_env insertionSort (page_request ''c2'') (list_cluster, demo_world) =
       Some (json (JContainers out), list_cluster, demo_world)"
proof -
  from page_run obtain rs where run: "getContainersJSON list_backend list_env insertionSort (page_request ''c2'') (list_cluster, demo_world) =
    Some (rs, list_cluster, demo_world)" by blast
  from list_lookup obtain b where b: "Cluster_Container list_cluster ''c2'' = Some b" "c_ID b = ''c2''" by blast
  have pars: "r_ParseForm (page_request ''c2'') = None" "FromParam list_env (FormValue (page_request ''c2'') ''filters'') = Inr []"
    "exit_codes (args_Get [] ''exited'') = Inr []"
    "case Some b of None \<Rightarrow> FormValue (page_request ''c2'') ''before'' = []
      | Some b \<Rightarrow> FormValue (page_request ''c2'') ''before'' \<noteq> [] \<and> Cluster_Container list_cluster (FormValue (page_request ''c2'') ''before'') = Some b"
    "2 = intValueOrZero (page_request ''c2'') ''limit''"
    "False \<longleftrightarrow> boolValue (page_request ''c2'') ''all'' \<or> ''exited'' \<in> set (args_Get [] ''status'')"
    by (simp_all add: page_request_simps list_env_def args_Get_def b)
  from container_listing [OF go_insertion.go_sort_axioms run [unfolded list_backend_def] pars page_shown_def] obtain ordered out where
    out: "rs = json (JContainers out)" "mset ordered = mset (page_shown False 2 (Some b) list_cluster [] [] list_env)"
    and names: "map (\<lambda>k. (oc_ID k, oc_Names k)) out =
      map (\<lambda>k. (c_ID k, map (\<lambda>name. ''/'' @ e_Name (c_Engine k) @ name) (Names k)))
        (tl (dropWhile (\<lambda>k. c_ID k \<noteq> ''c2'') (take 2 ordered)))"
    by (auto simp: b)
  from arg_cong [OF names, of "map fst"] have "map oc_ID out = map c_ID (tl (dropWhile (\<lambda>k. c_ID k \<noteq> ''c2'') (take 2 ordered)))"
    by (simp add: comp_def)
  with out run show ?thesis unfolding page_shown_lists by blast
qed

lemma list_images: "map i_ID (accepted_images (list_request []) (image_filters list_env (list_request []) []) (Cluster_Images list_cluster)) =
    [''i1'', ''i2'', ''i1'']"
  by code_simp

theorem image_listing_witness:
  "\<exists>out. getImagesJSON list_backend list_env insertionSort (list_request []) (list_cluster, demo_world) =
      Some (json (JImages out), list_cluster, demo_world) \<and> distinct (map i_ID out) \<and> i_ID ` set out = {''i1'', ''i2''}"
proof -
  let ?ims = "accepted_images (list_request []) (image_filters list_env (list_request []) []) (Cluster_Images list_cluster)"
  have pars: "r_ParseForm (list_request []) = None" "FromParam list_env (FormValue (list_request []) ''filters'') = Inr []"
    by (simp_all add: list_request_def list_env_def)
  then have run: "getImagesJSON list_backend list_env insertionSort (list_request []) (list_cluster, demo_world) =
      Some (json (JImages (insertionSort newer_image (grouped_images ?ims))), list_cluster, demo_world)"
    unfolding getImagesJSON_def list_backend_def by (simp add: and_then_def swarm_backend_reads ret_def)
  from image_listing [OF go_insertion.go_sort_axioms run [unfolded list_backend_def] pars refl] obtain out where
    out: "json (JImages (insertionSort newer_image (grouped_images ?ims))) = json (JImages out)" "distinct (map i_ID out)"
    "i_ID ` set out = i_ID ` set ?ims" by (elim exE conjE) (rule that)
  have "i_ID ` set ?ims = set [''i1'', ''i2'', ''i1'']" unfolding set_map [symmetric] list_images ..
  then have "i_ID ` set out = {''i1'', ''i2''}" unfolding out(3) by auto
  with out(2) run [unfolded out(1)] show ?thesis by (intro exI [of _ out] conjI)
qed

end
