(* ===== verification/Api_Handlers.thy ===== *)
theory Api_Handlers
  imports Api_Listing
begin

section \<open>Handlers that change or forward (\<open>api/handlers.go\<close>)\<close>

text \<open>
  The handlers behind which the cluster changes, and those that forward a request to the engine of a container or an
  image. The decoding of a request's body is the parameter \<open>Decoder\<close>: what \<open>encoding/json\<close> makes of the body, or an error.
\<close>

record Decoder =
  dec_Create :: "string \<Rightarrow> OldContainerConfig result"
  dec_Auth :: "string \<Rightarrow> AuthConfig option"
  dec_Network :: "string \<Rightarrow> (string \<times> string) result"
  dec_Volume :: "string \<Rightarrow> (string \<times> string) result"
  dec_Start :: "string \<Rightarrow> HostConfig result"
  dec_ExecID :: "string \<Rightarrow> string result"
  dec_Connect :: "string \<Rightarrow> string result"
  dec_Disconnect :: "string \<Rightarrow> (string \<times> bool) result"
  dec_Scale :: "string \<Rightarrow> ScaleItem list result"
  dec_BuildArgs :: "string \<Rightarrow> (string \<times> string) list"
  dec_Ulimits :: "string \<Rightarrow> (string \<times> int \<times> int) list"
  dec_Labels :: "string \<Rightarrow> string \<rightharpoonup> string"
  dec_AuthConfigs :: "string \<Rightarrow> string \<rightharpoonup> AuthConfig"

subsection \<open>Containers\<close>

text \<open>The status of an error of the cluster: a conflict, or an internal error.\<close>

definition conflict_status :: "go_error \<Rightarrow> nat" where
  "conflict_status err = (if HasPrefix (Error err) ''Conflict'' then 409 else 500)"

definition created :: "string \<Rightarrow> reply list" where
  "created cid = [AddHeader ''Content-Type'' ''application/json'', WriteHeader 201, Write (JId cid)]"

text \<open>A cluster that returns no container and no error makes the handler panic.\<close>

definition postContainersCreate :: "'s Backend \<Rightarrow> Decoder \<Rightarrow> Request \<Rightarrow> ('s, reply list) op" where
  "postContainersCreate be dec r =
     (case r_ParseForm r of
        Some err \<Rightarrow> ret (httpError (Error err) 400)
      | None \<Rightarrow>
          (case dec_Create dec (r_Body r) of
             Inl err \<Rightarrow> ret (httpError (Error err) 400)
           | Inr oldconfig \<Rightarrow>
               let config = ConsolidateResourceFields oldconfig;
                   authConfig = dec_Auth dec (Header_Get r ''X-Registry-Auth'');
                   containerConfig = BuildContainerConfig (Config.truncate config) (HostConfig config) (NetworkingConfig config)
               in case Validate containerConfig of
                    Some err \<Rightarrow> ret (httpError (Error err) 500)
                  | None \<Rightarrow>
                      and_then (be_CreateContainer be containerConfig (FormValue r ''name'') authConfig) (\<lambda>res. case res of
                        Inl err \<Rightarrow> ret (httpError (Error err) (conflict_status err))
                      | Inr k \<Rightarrow> or_panic k (\<lambda>k. ret (created (c_ID k))))))"

definition deleteContainers :: "'s Backend \<Rightarrow> Request \<Rightarrow> ('s, reply list) op" where
  "deleteContainers be r =
     (case r_ParseForm r of
        Some err \<Rightarrow> ret (httpError (Error err) 500)
      | None \<Rightarrow>
          and_then (be_Container be (Var r ''name'')) (\<lambda>k. case k of
            None \<Rightarrow> ret (httpError (''Container '' @ Var r ''name'' @ '' not found'') 404)
          | Some k \<Rightarrow>
              and_then (be_RemoveContainer be k (boolValue r ''force'') (boolValue r ''v'')) (\<lambda>res. case res of
                Inl err \<Rightarrow> ret (httpError (Error err) 500)
              | Inr _ \<Rightarrow> ret [WriteHeader 204])))"

definition postContainersStart :: "'s Backend \<Rightarrow> Decoder \<Rightarrow> Request \<Rightarrow> ('s, reply list) op" where
  "postContainersStart be dec r =
     and_then (be_Container be (Var r ''name'')) (\<lambda>k. case k of
       None \<Rightarrow> ret (httpError (''No such container '' @ Var r ''name'') 404)
     | Some k \<Rightarrow>
         let buf = r_Body r;
             hostConfig = (if length buf \<le> 2 \<or> length buf = 4 \<and> buf = ''null'' then Inr None
               else case dec_Start dec buf of Inl err \<Rightarrow> Inl err | Inr h \<Rightarrow> Inr (Some h))
         in case hostConfig of
              Inl err \<Rightarrow> ret (httpError (Error err) 400)
            | Inr h \<Rightarrow>
                and_then (be_StartContainer be k h) (\<lambda>res. case res of
                  Inl err \<Rightarrow> ret (httpError (Error err) 500)
                | Inr _ \<Rightarrow> ret [WriteHeader 204]))"

text \<open>What a handler does about the error of \<open>getContainerFromVars\<close>, and with the container.\<close>

definition with_container ::
    "'s Backend \<Rightarrow> (string \<times> string) list \<Rightarrow> (string \<Rightarrow> Container \<Rightarrow> ('s, reply list) op) \<Rightarrow> ('s, reply list) op" where
  "with_container be vars f =
     and_then (getContainerFromVars be vars) (\<lambda>(name, k, err). case err of
       Some err \<Rightarrow> ret (httpError (Error err) (if k = None then 404 else 500))
     | None \<Rightarrow> or_panic k (f name))"

definition postRenameContainer :: "'s Backend \<Rightarrow> Request \<Rightarrow> ('s, reply list) op" where
  "postRenameContainer be r =
     with_container be (r_Vars r) (\<lambda>_ k.
       case r_ParseForm r of
         Some err \<Rightarrow> ret (httpError (Error err) 500)
       | None \<Rightarrow>
           and_then (be_RenameContainer be k (FormValue r ''name'')) (\<lambda>res. case res of
             Inl err \<Rightarrow> ret (httpError (Error err) (conflict_status err))
           | Inr _ \<Rightarrow> ret [WriteHeader 204]))"

subsection \<open>Forwarding to the engine of a container\<close>

definition full_id :: "string \<Rightarrow> Container \<Rightarrow> string \<Rightarrow> string" where
  "full_id name k path = (if name \<noteq> [] then Replace1 path name (c_ID k) else path)"

text \<open>What follows an attempt to forward: the engine notes the error, and the client gets it.\<close>

definition forwarded :: "'s Backend \<Rightarrow> EngineSpec \<Rightarrow> nat \<Rightarrow> ('s, reply list \<times> go_error option) op \<Rightarrow> ('s, reply list) op" where
  "forwarded be spec status m =
     and_then m (\<lambda>(rs, err).
     and_then (be_CheckConnectionErr be spec err) (\<lambda>_.
     ret (rs @ (case err of None \<Rightarrow> [] | Some err \<Rightarrow> httpError (Error err) status))))"

definition proxyContainer :: "'s Backend \<Rightarrow> Request \<Rightarrow> ('s, reply list) op" where
  "proxyContainer be r =
     with_container be (r_Vars r) (\<lambda>name k.
       forwarded be (c_Engine k) 500 (proxy be (c_Engine k) (r\<lparr>r_Path := full_id name k (r_Path r)\<rparr>)))"

definition proxyContainerAndForceRefresh :: "'s Backend \<Rightarrow> Request \<Rightarrow> ('s, reply list) op" where
  "proxyContainerAndForceRefresh be r =
     with_container be (r_Vars r) (\<lambda>name k.
       forwarded be (c_Engine k) 500
         (proxyAsync be (c_Engine k) (r\<lparr>r_Path := full_id name k (r_Path r)\<rparr>) (\<lambda>_. be_Refresh be k)))"

definition proxyHijack :: "'s Backend \<Rightarrow> Request \<Rightarrow> ('s, reply list) op" where
  "proxyHijack be r =
     with_container be (r_Vars r) (\<lambda>name k.
       forwarded be (c_Engine k) 500 (hijack be (c_Engine k) (r\<lparr>r_Path := full_id name k (r_Path r)\<rparr>)))"

text \<open>There is no return after the first call.\<close>

definition postExecStart :: "'s Backend \<Rightarrow> Request \<Rightarrow> ('s, reply list) op" where
  "postExecStart be r =
     and_then (if Header_Get r ''Connection'' = [] then proxyContainer be r else ret []) (\<lambda>rs.
     and_then (proxyHijack be r) (\<lambda>rs'. ret (rs @ rs')))"

definition postCommit :: "'s Backend \<Rightarrow> Request \<Rightarrow> ('s, reply list) op" where
  "postCommit be r =
     (case r_ParseForm r of
        Some err \<Rightarrow> ret (httpError (Error err) 500)
      | None \<Rightarrow>
          with_container be [(''name'', FormValue r ''container'')] (\<lambda>name k.
            forwarded be (c_Engine k) 500
              (proxyAsync be (c_Engine k) (r\<lparr>r_RawQuery := full_id name k (r_RawQuery r)\<rparr>) (\<lambda>resp.
                 if hr_Status resp = 201 then be_RefreshImages be (c_Engine k) else ret ()))))"

text \<open>The identifier of the new command is added to the container, so that the later start finds it.\<close>

definition postContainersExec :: "'s Backend \<Rightarrow> Decoder \<Rightarrow> Request \<Rightarrow> ('s, reply list) op" where
  "postContainersExec be dec r =
     and_then (be_Container be (Var r ''name'')) (\<lambda>k. case k of
       None \<Rightarrow> ret (httpError (''No such container '' @ Var r ''name'') 404)
     | Some k \<Rightarrow>
         and_then (read (http_client be (c_Engine k))) (\<lambda>cl. case cl of
           Inl err \<Rightarrow> ret (httpError (Error err) 500)
         | Inr _ \<Rightarrow>
             and_then (be_Do be (c_Engine k) (r\<lparr>r_Path := ''/containers/'' @ c_ID k @ ''/exec''\<rparr>)) (\<lambda>res.
             and_then (be_CheckConnectionErr be (c_Engine k) (res_err res)) (\<lambda>_. case res of
               Inl err \<Rightarrow> ret (httpError (Error err) 500)
             | Inr resp \<Rightarrow>
                 if hr_Status resp < 200 \<or> hr_Status resp \<ge> 400 then ret (httpError (hr_Body resp) 500)
                 else case dec_ExecID dec (hr_Body resp) of
                   Inl err \<Rightarrow> ret (httpError (Error err) 500)
                 | Inr i \<Rightarrow>
                     and_then (be_add_exec be k i) (\<lambda>_.
                     ret [AddHeader ''Content-Type'' ''application/json'', WriteHeader (hr_Status resp), Write (Text (hr_Body resp))])))))"

subsection \<open>Inspecting a container\<close>

text \<open>\<open>bytes.Replace(s, old, new, -1)\<close> for a non-empty \<open>old\<close>.\<close>

function ReplaceAll :: "string \<Rightarrow> string \<Rightarrow> string \<Rightarrow> string" where
  "ReplaceAll s old new =
     (if old = [] then s
      else case str_Index s old of
        None \<Rightarrow> s
      | Some i \<Rightarrow> take i s @ new @ ReplaceAll (drop (i + length old) s) old new)"
  by pat_completeness auto
termination
proof (relation "measure (\<lambda>(s, _, _). length s)")
  fix s old new :: string and i
  assume "old \<noteq> []" "str_Index s old = Some i"
  then have "s \<noteq> []" by (cases s) (auto split: if_splits)
  with \<open>old \<noteq> []\<close> show "((drop (i + length old) s, old, new), s, old, new) \<in> measure (\<lambda>(s, _, _). length s)"
    by simp
qed simp

declare ReplaceAll.simps [simp del]

text \<open>
  The engine's own JSON text goes in front of the name, and its address in place of the unspecified one. \<open>marshal\<close> is
  \<open>json.Marshal\<close> of an engine; \<open>is_v4\<close> is \<open>net.ParseIP\<close>, whether an address has four bytes.
\<close>

definition insert_node :: "(string \<Rightarrow> bool option) \<Rightarrow> string \<Rightarrow> string \<Rightarrow> string \<Rightarrow> string" where
  "insert_node is_v4 node ip data =
     (let data = ReplaceAll data (quoted ''Name'' @ '':'' @ [CHR 0x22] @ ''/'') (quoted ''Node'' @ '':'' @ node @ '','' @ quoted ''Name'' @ '':'' @ [CHR 0x22] @ ''/'')
      in case is_v4 ip of
           None \<Rightarrow> data
         | Some four \<Rightarrow> ReplaceAll data (quoted ''HostIp'' @ '':'' @ quoted (if four then ''0.0.0.0'' else ''::''))
             (quoted ''HostIp'' @ '':'' @ quoted ip))"

definition getContainerJSON ::
    "'s Backend \<Rightarrow> (Engine \<Rightarrow> string result) \<Rightarrow> (string \<Rightarrow> bool option) \<Rightarrow> Request \<Rightarrow> ('s, reply list) op" where
  "getContainerJSON be marshal is_v4 r =
     (let name = Var r ''name'' in
      and_then (be_Container be name) (\<lambda>k. case k of
        None \<Rightarrow> ret (httpError (''No such container '' @ name) 404)
      | Some k \<Rightarrow>
          and_then (read (IsHealthy be (c_Engine k))) (\<lambda>healthy.
          if \<not> healthy then ret (httpError (''Container '' @ name @ '' running on unhealthy node '' @ e_Name (c_Engine k)) 500)
          else and_then (read (http_client be (c_Engine k))) (\<lambda>cl. case cl of
            Inl err \<Rightarrow> ret (httpError (Error err) 500)
          | Inr _ \<Rightarrow>
              and_then (be_Do be (c_Engine k) (r\<lparr>r_Path := ''/containers/'' @ c_ID k @ ''/json'',
                r_RawQuery := if boolValue r ''size'' then ''size=1'' else []\<rparr>)) (\<lambda>res.
              and_then (be_CheckConnectionErr be (c_Engine k) (res_err res)) (\<lambda>_. case res of
                Inl err \<Rightarrow> ret (httpError (Error err) 500)
              | Inr resp \<Rightarrow>
                  and_then (read (be_engine be (c_Engine k))) (\<lambda>e. or_panic e (\<lambda>e.
                  case marshal e of
                    Inl err \<Rightarrow> ret (httpError (Error err) 500)
                  | Inr node \<Rightarrow> ret (json (Text (insert_node is_v4 node (e_IP e) (hr_Body resp))))))))))))"

subsection \<open>Networks and volumes\<close>

definition postNetworksCreate :: "'s Backend \<Rightarrow> Decoder \<Rightarrow> Request \<Rightarrow> ('s, reply list) op" where
  "postNetworksCreate be dec r =
     (case dec_Network dec (r_Body r) of
        Inl err \<Rightarrow> ret (httpError (Error err) 400)
      | Inr (name, driver) \<Rightarrow>
          and_then (be_CreateNetwork be name (if driver = [] then ''overlay'' else driver)) (\<lambda>res. case res of
            Inl err \<Rightarrow> ret (httpError (Error err) 500)
          | Inr i \<Rightarrow> ret (created i)))"

definition postVolumesCreate :: "'s Backend \<Rightarrow> Decoder \<Rightarrow> Request \<Rightarrow> ('s, reply list) op" where
  "postVolumesCreate be dec r =
     (case dec_Volume dec (r_Body r) of
        Inl err \<Rightarrow> ret (httpError (Error err) 400)
      | Inr (name, driver) \<Rightarrow>
          and_then (be_CreateVolume be name driver) (\<lambda>(v, err). case err of
            Some err \<Rightarrow> ret (httpError (Error err) 500)
          | None \<Rightarrow> ret [AddHeader ''Content-Type'' ''application/json'', WriteHeader 201, Write (JVolume v)]))"

definition deleteNetworks :: "'s Backend \<Rightarrow> Request \<Rightarrow> ('s, reply list) op" where
  "deleteNetworks be r =
     (case r_ParseForm r of
        Some err \<Rightarrow> ret (httpError (Error err) 500)
      | None \<Rightarrow>
          and_then (be_Networks be) (\<lambda>ns. case Networks_Get (Networks_Uniq ns) (Var r ''networkid'') of
            Some n \<Rightarrow>
              and_then (be_RemoveNetwork be n) (\<lambda>res. case res of
                Inl err \<Rightarrow> ret (httpError (Error err) 500)
              | Inr _ \<Rightarrow> ret [WriteHeader 204])
          | None \<Rightarrow> ret (httpError (''No such network '' @ Var r ''networkid'') 404)))"

definition deleteVolumes :: "'s Backend \<Rightarrow> Request \<Rightarrow> ('s, reply list) op" where
  "deleteVolumes be r =
     (case r_ParseForm r of
        Some err \<Rightarrow> ret (httpError (Error err) 500)
      | None \<Rightarrow>
          and_then (be_RemoveVolumes be (Var r ''name'')) (\<lambda>(found, err). case err of
            Some err \<Rightarrow> ret (httpError (Error err) 500)
          | None \<Rightarrow>
              if \<not> found then ret (httpError (''No such volume '' @ Var r ''name'') 404) else ret [WriteHeader 204]))"

text \<open>
  The engine of the container is tried first, then a random one if the first cannot be reached; then nothing is written
  on success.
\<close>

definition networkDisconnect :: "'s Backend \<Rightarrow> Decoder \<Rightarrow> Request \<Rightarrow> ('s, reply list) op" where
  "networkDisconnect be dec r =
     and_then (be_Networks be) (\<lambda>ns. case Networks_Get (Networks_Uniq ns) (Var r ''networkid'') of
       None \<Rightarrow> ret (httpError (''No such network: '' @ Var r ''networkid'') 404)
     | Some n \<Rightarrow>
         (case dec_Disconnect dec (r_Body r) of
            Inl _ \<Rightarrow> ret (httpError ''Container is not specified'' 404)
          | Inr (q, force) \<Rightarrow>
              and_then (be_Container be q) (\<lambda>k. case k of
                None \<Rightarrow> ret (httpError (''No such container: '' @ q) 404)
              | Some k \<Rightarrow>
                  and_then (be_NetworkDisconnect be (c_Engine k) k n force) (\<lambda>res. case res of
                    Inr _ \<Rightarrow> ret [WriteHeader 204]
                  | Inl err \<Rightarrow>
                      if IsConnectionError err \<and> force \<and> Scope n = ''global'' then
                        and_then (be_RANDOMENGINE be) (\<lambda>e. case e of
                          Inl _ \<Rightarrow> ret (httpError (Error err) 500)
                        | Inr e \<Rightarrow>
                            or_panic e (\<lambda>spec.
                            and_then (be_NetworkDisconnect be spec k n force) (\<lambda>res. case res of
                              Inl err \<Rightarrow> ret (httpError (Error err) 500)
                            | Inr _ \<Rightarrow> ret [])))
                      else ret (httpError (Error err) 404)))))"

definition proxyNetworkConnect :: "'s Backend \<Rightarrow> Decoder \<Rightarrow> Request \<Rightarrow> ('s, reply list) op" where
  "proxyNetworkConnect be dec r =
     (let networkid = Var r ''networkid'' in
      and_then (be_Networks be) (\<lambda>ns. case Networks_Get (Networks_Uniq ns) networkid of
        None \<Rightarrow> ret (httpError (''No such network: '' @ networkid) 404)
      | Some n \<Rightarrow>
          (case dec_Connect dec (r_Body r) of
             Inl _ \<Rightarrow> ret (httpError ''Container is not specified'' 404)
           | Inr q \<Rightarrow>
               and_then (be_Container be q) (\<lambda>k. case k of
                 None \<Rightarrow> ret (httpError (''No such container: '' @ q) 404)
               | Some k \<Rightarrow>
                   forwarded be (c_Engine k) 404
                     (proxyAsync be (c_Engine k) (r\<lparr>r_Path := Replace1 (r_Path r) networkid (n_ID n)\<rparr>)
                       (\<lambda>_. be_RefreshNetworks be (c_Engine k)))))))"

subsection \<open>Images\<close>

text \<open>
  The messages for the calls of a callback, with \<open>say\<close> for the text; the last error, if any, ends the answer.
\<close>

definition last_error :: "callbacks \<Rightarrow> go_error option" where
  "last_error calls = fold (\<lambda>(_, _, err) e. case err of Some err \<Rightarrow> Some err | None \<Rightarrow> e) calls None"

definition report_calls :: "(string \<Rightarrow> go_error option \<Rightarrow> string) \<Rightarrow> callbacks \<Rightarrow> reply list" where
  "report_calls say calls =
     concat (map (\<lambda>(what, status, err). sendJSONMessage what (say status err)) calls) @
     (case last_error calls of None \<Rightarrow> [] | Some err \<Rightarrow> sendErrorJSONMessage 1 (Error err))"

definition say_progress :: "string \<Rightarrow> string \<Rightarrow> go_error option \<Rightarrow> string" where
  "say_progress what status err =
     (case err of
        Some err \<Rightarrow> what @ ''... : '' @ Error err
      | None \<Rightarrow> if status = [] then what @ ''...'' else what @ ''... : '' @ status)"

definition postImagesCreate :: "'s Backend \<Rightarrow> Decoder \<Rightarrow> AuthConfig \<Rightarrow> Request \<Rightarrow> ('s, reply list) op" where
  "postImagesCreate be dec zero_auth r =
     (case r_ParseForm r of
        Some err \<Rightarrow> ret (httpError (Error err) 500)
      | None \<Rightarrow>
          let hdr = AddHeader ''Content-Type'' ''application/json'' in
          if FormValue r ''fromImage'' \<noteq> [] then
            let authConfig = (case dec_Auth dec (Header_Get r ''X-Registry-Auth'') of None \<Rightarrow> zero_auth | Some au \<Rightarrow> au);
                ref = getImageRef (FormValue r ''fromImage'') (FormValue r ''tag'')
            in and_then (be_Pull be ref (Some authConfig)) (\<lambda>calls.
               ret (hdr # report_calls (say_progress (''Pulling '' @ ref)) calls))
          else
            let tag = FormValue r ''tag''
            in and_then (be_Import be (FormValue r ''fromSrc'') (getImageRef (FormValue r ''repo'') tag) tag (r_Body r)) (\<lambda>calls.
               ret (hdr # report_calls (\<lambda>status err. case err of Some err \<Rightarrow> Error err | None \<Rightarrow> status) calls)))"

definition postImagesLoad :: "'s Backend \<Rightarrow> Request \<Rightarrow> ('s, reply list) op" where
  "postImagesLoad be r =
     and_then (be_Load be (r_Body r)) (\<lambda>calls.
     ret ([AddHeader ''Content-Type'' ''application/json'', WriteHeader 200] @ report_calls (say_progress ''Loading Image'') calls))"

definition deleteImages :: "'s Backend \<Rightarrow> Request \<Rightarrow> ('s, reply list) op" where
  "deleteImages be r =
     (case r_ParseForm r of
        Some err \<Rightarrow> ret (httpError (Error err) 500)
      | None \<Rightarrow>
          and_then (be_RemoveImages be (Var r ''name'') (boolValue r ''force'')) (\<lambda>(out, err). case err of
            Some err \<Rightarrow> ret (httpError (Error err) 500)
          | None \<Rightarrow>
              if out = [] then ret (httpError (''No such image '' @ Var r ''name'') 404)
              else ret (json (JNames (Some out)))))"

definition postTagImage :: "'s Backend \<Rightarrow> Request \<Rightarrow> ('s, reply list) op" where
  "postTagImage be r =
     (case r_ParseForm r of
        Some err \<Rightarrow> ret (httpError (Error err) 500)
      | None \<Rightarrow>
          and_then (be_TagImage be (Var r ''name'') (getImageRef (FormValue r ''repo'') (FormValue r ''tag''))) (\<lambda>err. case err of
            Some err \<Rightarrow> ret (httpError (Error err) (if HasPrefix (Error err) ''No such image'' then 404 else 500))
          | None \<Rightarrow> ret [WriteHeader 201]))"

text \<open>The error of forwarding is noted by the engine and kept from the client.\<close>

definition forward_image :: "'s Backend \<Rightarrow> Request \<Rightarrow> Image \<Rightarrow> ('s, reply list) op" where
  "forward_image be r im =
     and_then (proxy be (i_Engine im) r) (\<lambda>(rs, err).
     and_then (be_CheckConnectionErr be (i_Engine im) err) (\<lambda>_. ret rs))"

definition proxyImage :: "'s Backend \<Rightarrow> Request \<Rightarrow> ('s, reply list) op" where
  "proxyImage be r =
     and_then (be_Image be (Var r ''name'')) (\<lambda>im. case im of
       Some im \<Rightarrow> forward_image be r im
     | None \<Rightarrow> ret (httpError (''No such image: '' @ Var r ''name'') 404))"

definition proxyImageGet :: "'s Backend \<Rightarrow> Request \<Rightarrow> ('s, reply list) op" where
  "proxyImageGet be r =
     and_then (be_Images be) (\<lambda>ims. case first_such (image_wanted (Var r ''name'')) ims of
       Some im \<Rightarrow> forward_image be r im
     | None \<Rightarrow> ret (httpError (''No such image: '' @ Var r ''name'') 404))"

definition proxyImagePush :: "'s Backend \<Rightarrow> Request \<Rightarrow> ('s, reply list) op" where
  "proxyImagePush be r =
     (case r_ParseForm r of
        Some err \<Rightarrow> ret (httpError (Error err) 500)
      | None \<Rightarrow>
          let tag = FormValue r ''tag'';
              name = (if tag \<noteq> [] then Var r ''name'' @ '':'' @ tag else Var r ''name'')
          in and_then (be_Images be) (\<lambda>ims. case first_such (\<lambda>im. Image_Match im name (tag \<noteq> [])) ims of
               Some im \<Rightarrow> forward_image be r im
             | None \<Rightarrow> ret (httpError (''No such image: '' @ name) 404)))"

subsection \<open>Builds\<close>

text \<open>
  Errors of decoding the parameters are dropped: the decoder gives what is decoded, and \<open>dec_AuthConfigs\<close> undoes the Base64 too.
\<close>

definition build_options :: "Decoder \<Rightarrow> Request \<Rightarrow> ImageBuildOptions" where
  "build_options dec r =
     \<lparr>bo_Dockerfile = FormValue r ''dockerfile'',
      bo_Tags = (case map_of (r_Form r) ''t'' of None \<Rightarrow> [] | Some vs \<Rightarrow> vs),
      bo_RemoteContext = FormValue r ''remote'',
      bo_NoCache = boolValue r ''nocache'',
      bo_PullParent = boolValue r ''pull'',
      bo_Remove = boolValue r ''rm'',
      bo_ForceRemove = boolValue r ''forcerm'',
      bo_SuppressOutput = boolValue r ''q'',
      bo_Isolation = FormValue r ''isolation'',
      bo_Memory = int64ValueOrZero r ''memory'',
      bo_MemorySwap = int64ValueOrZero r ''memswap'',
      bo_CPUShares = int64ValueOrZero r ''cpushares'',
      bo_CPUPeriod = int64ValueOrZero r ''cpuperiod'',
      bo_CPUQuota = int64ValueOrZero r ''cpuquota'',
      bo_CPUSetCPUs = FormValue r ''cpusetcpus'',
      bo_CPUSetMems = FormValue r ''cpusetmems'',
      bo_CgroupParent = FormValue r ''cgroupparent'',
      bo_ShmSize = int64ValueOrZero r ''shmsize'',
      bo_BuildArgs = (let s = FormValue r ''buildargs'' in if s \<noteq> [] then dec_BuildArgs dec s else []),
      bo_Ulimits = (let s = FormValue r ''ulimits'' in if s \<noteq> [] then dec_Ulimits dec s else []),
      bo_Labels = (let s = FormValue r ''labels'' in if s \<noteq> [] then dec_Labels dec s else Map.empty),
      bo_AuthConfigs = (let s = Header_Get r ''X-Registry-Config'' in if s \<noteq> [] then dec_AuthConfigs dec s else Map.empty)\<rparr>"

text \<open>The output of the build goes to the client as it comes; an error after that is written behind it.\<close>

definition build_replies :: "string \<Rightarrow> go_error option \<Rightarrow> reply list" where
  "build_replies out err =
     AddHeader ''Content-Type'' ''application/json'' # (if out \<noteq> [] then [Write (Text out)] else []) @
     (case err of None \<Rightarrow> [] | Some err \<Rightarrow> httpError (Error err) 500)"

definition postBuild :: "'s Backend \<Rightarrow> Decoder \<Rightarrow> Request \<Rightarrow> ('s, reply list) op" where
  "postBuild be dec r =
     (case r_ParseForm r of
        Some err \<Rightarrow> ret (httpError (Error err) 500)
      | None \<Rightarrow>
          and_then (be_BuildImage be (r_Body r) (build_options dec r)) (\<lambda>(out, err). ret (build_replies out err)))"

subsection \<open>The rest\<close>

text \<open>
  The version: constants of the packages \<open>version\<close> and \<open>api\<close> as they are in the source, \<open>ENABLED\<close>, which a flag sets, and what \<open>runtime\<close> and the
  kernel report.
\<close>

record BuildInfo =
  GITCOMMIT :: string
  BUILDTIME :: string
  ENABLED :: bool
  go_Version :: string
  GOOS :: string
  GOARCH :: string
  GetKernelVersion :: "string result"

definition VERSION :: string where
  "VERSION = ''1.2.6''"

definition APIVERSION :: string where
  "APIVERSION = ''1.22''"

definition getVersion :: "BuildInfo \<Rightarrow> ('s, reply list) op" where
  "getVersion b =
     ret (json (JVersion
       \<lparr>vi_Version = ''swarm/'' @ VERSION, vi_APIVersion = APIVERSION, vi_GoVersion = go_Version b, vi_GitCommit = GITCOMMIT b,
        vi_Os = GOOS b, vi_Arch = GOARCH b, vi_Experimental = ENABLED b, vi_BuildTime = BUILDTIME b,
        vi_KernelVersion = (case GetKernelVersion b of Inl _ \<Rightarrow> ''<unknown>'' | Inr kv \<Rightarrow> kv)\<rparr>))"

definition proxyRandom :: "'s Backend \<Rightarrow> Request \<Rightarrow> ('s, reply list) op" where
  "proxyRandom be r =
     and_then (be_RANDOMENGINE be) (\<lambda>e. case e of
       Inl err \<Rightarrow> ret (httpError (Error err) 500)
     | Inr None \<Rightarrow> ret (httpError ''no node available in the cluster'' 500)
     | Inr (Some spec) \<Rightarrow> forwarded be spec 500 (proxy be spec r))"

definition ping :: "('s, reply list) op" where
  "ping = ret [Write (Text ''OK'')]"

definition notImplementedHandler :: "('s, reply list) op" where
  "notImplementedHandler = ret (httpError ''Not supported in clustering mode.'' 501)"

definition optionsHandler :: "('s, reply list) op" where
  "optionsHandler = ret [WriteHeader 200]"

definition postScale :: "'s Backend \<Rightarrow> Decoder \<Rightarrow> Request \<Rightarrow> ('s, reply list) op" where
  "postScale be dec r =
     (case dec_Scale dec (r_Body r) of
        Inl err \<Rightarrow> ret (httpError (Error err) 400)
      | Inr items \<Rightarrow> and_then (be_Scale be items) (\<lambda>names. ret [Write (JNames names)]))"

end
