(* ===== verification/Api_Guarantees.thy ===== *)
theory Api_Guarantees
  imports Api_Handlers
begin

section \<open>What the handlers guarantee on a swarm\<close>

text \<open>
  Creation through the API together with the cluster behind it, requests about unknown containers, and forwarding to the
  engine of a container; at the end requests to a small swarm.
\<close>

subsection \<open>Creating a container\<close>

lemma swarm_CreateContainer:
  "be_CreateContainer (swarm_backend re mt rids apis http tunnel) config name au =
     and_then (Cluster_CreateContainer mt apis config name au) (\<lambda>(_, r).
       ret (case r of Inl err \<Rightarrow> Inl err | Inr k \<Rightarrow> Inr (Some k)))"
  by (simp add: swarm_backend_def)

lemma reserve_taken:
  "\<not> checkNameUniqueness c name \<Longrightarrow>
     Cluster_createContainer apis config name aff au (c, d) = Some ((config, Inl (conflict_error name)), c, d)"
  by (simp add: Cluster_createContainer_def reserve_def and_then_def ret_def)

lemma retry_taken:
  "\<not> checkNameUniqueness c name \<Longrightarrow>
     retry_create n apis name au (config, Inl (conflict_error name)) (c, d) = Some ((config, Inl (conflict_error name)), c, d)"
  by (induction n) (simp_all add: ret_def and_then_def reserve_taken)

lemma CreateContainer_taken:
  "\<not> checkNameUniqueness c name \<Longrightarrow>
     Cluster_CreateContainer mt apis config name au (c, d) = Some ((config, Inl (conflict_error name)), c, d)"
  by (simp add: Cluster_CreateContainer_def and_then_def reserve_taken retry_taken the_cluster_def read_def)

text \<open>
  C23. A request to create a container under a name that is in use, by a container of any engine or by one in creation, is
  answered with status 409 and the conflict message, whatever the number of retries, and neither the cluster nor a daemon
  changes.
\<close>

theorem create_conflict:
  assumes "r_ParseForm r = None" "dec_Create dec (r_Body r) = Inr old" "old' = ConsolidateResourceFields old"
    and "Validate (BuildContainerConfig (Config.truncate old') (HostConfig old') (NetworkingConfig old')) = None"
    and "FormValue r ''name'' = name" "name \<noteq> []"
    and "(\<exists>k \<in> set (Cluster_Containers c). name \<in> set (Names k) \<or> CHR ''/'' # name \<in> set (Names k)) \<or>
      (\<exists>(i, p) \<in> set (pendingContainers c). pc_Name p = name)"
  shows "postContainersCreate (swarm_backend re mt rids apis http tunnel) dec r (c, d) =
    Some (httpError (Error (conflict_error name)) 409, c, d)"
proof -
  have "\<not> checkNameUniqueness c name"
    using assms(6,7) by (fastforce simp: checkNameUniqueness_def Cluster_Containers_def list_ex_iff)
  moreover have "conflict_status (conflict_error name) = 409"
    by (simp add: conflict_status_def conflict_error_def errorf_def HasPrefix_def)
  ultimately show ?thesis
    using assms(1-5)
    by (simp add: postContainersCreate_def swarm_CreateContainer CreateContainer_taken and_then_def ret_def Let_def)
qed

text \<open>What a successful creation leaves behind.\<close>

lemma at_engine_Some:
  assumes "at_engine apis eid m (c, d) = Some (x, c', d')"
  shows "\<exists>e e'. map_of (engines c) eid = Some e \<and> m (apis (e_Addr e)) (e, d) = Some (x, e', d') \<and>
    c' = c\<lparr>engines := AList.update eid e' (engines c)\<rparr>"
  using assms by (auto simp: at_engine_def split: option.split_asm)

lemma CreateContainer_stored:
  assumes "CreateContainer api config name pull au (e, d) = Some (Inr k, e', d')"
  shows "c_ID k \<in> c_ID ` set (Engine_Containers e')"
proof -
  have last: "c_ID k \<in> c_ID ` set (Engine_Containers e')"
    if "(and_then the_engine (\<lambda>e. ret (case map_of (containers e) cid of
            None \<Rightarrow> Inl (errorf ''Container created but refresh didn't report it back'') | Some c \<Rightarrow> Inr c))) s = Some (Inr k, e', d')" for s cid
  proof -
    have "map_of (containers e') cid = Some k" using that by (cases s) (auto simp: the_engine_def op_simps split: option.split_asm)
    then have "k\<lparr>c_Engine := engine_spec e'\<rparr> \<in> set (Engine_Containers e')"
      unfolding Engine_Containers_def by (force dest: map_of_SomeD)
    then show ?thesis by (rule image_eqI [rotated]) simp
  qed
  from assms obtain cid s1 where "(and_then (refreshContainer api cid True) (\<lambda>_.
     and_then the_engine (\<lambda>e.
     ret (case map_of (containers e) cid of
            None \<Rightarrow> Inl (errorf ''Container created but refresh didn't report it back'')
          | Some c \<Rightarrow> Inr c)))) s1 = Some (Inr k, e', d')"
    unfolding CreateContainer_def Let_def the_engine_step by (auto simp only: or_return_success)
  then show ?thesis unfolding and_then_Some [of "refreshContainer api cid True"] using last by blast
qed

definition stored :: "ContainerConfig \<times> Container result \<Rightarrow> 'd cstate \<Rightarrow> bool" where
  "stored r s = (case snd r of Inl _ \<Rightarrow> True | Inr k \<Rightarrow> c_ID k \<in> c_ID ` set (Cluster_Containers (fst s)))"

lemma createContainer_stored: "Cluster_createContainer apis config name aff au s = Some (r, s') \<Longrightarrow> stored r s'"
proof (cases s)
  fix c d
  assume run: "Cluster_createContainer apis config name aff au s = Some (r, s')" and s: "s = (c, d)"
  obtain config' x c1 where res: "reserve config name aff c = Some ((config', x), c1)"
    using run s by (auto simp: Cluster_createContainer_def and_then_def split: option.split_asm)
  show "stored r s'"
  proof (cases x)
    case (Inl err)
    with run s res show ?thesis by (auto simp: Cluster_createContainer_def and_then_def ret_def stored_def)
  next
    case (Inr p)
    obtain swarmID eid where p: "p = (swarmID, eid)" by fastforce
    from run s res Inr p obtain k c2 d2 where at: "at_engine apis eid (\<lambda>api. CreateContainer api config' name True au) (c1, d) = Some (k, c2, d2)"
      and r: "r = (config', k)" "s' = (forget_pending swarmID c2, d2)"
      by (auto simp: Cluster_createContainer_def and_then_def ret_def on_cluster_def modify_def split: option.split_asm)
    from at_engine_Some [OF at] obtain e e' where e: "map_of (engines c1) eid = Some e"
      "CreateContainer (apis (e_Addr e)) config' name True au (e, d) = Some (k, e', d2)" "c2 = c1\<lparr>engines := AList.update eid e' (engines c1)\<rparr>" by blast
    have "(eid, e') \<in> set (engines c2)" unfolding e(3) by (simp add: update_conv' map_of_SomeD)
    then have sub: "set (Engine_Containers e') \<subseteq> set (Cluster_Containers (fst s'))"
      using r(2) by (force simp: Cluster_Containers_def forget_pending_def)
    show ?thesis
    proof (cases k)
      case (Inr k')
      with CreateContainer_stored [of "apis (e_Addr e)" config' name True au e d k' e' d2] e(2) sub r(1) show ?thesis
        by (auto simp: stored_def)
    qed (simp add: stored_def r(1))
  qed
qed

lemma retry_stored: "stored r s \<Longrightarrow> retry_create n apis name au r s = Some (r', s') \<Longrightarrow> stored r' s'"
proof (induction n arbitrary: r s)
  case (Suc n)
  show ?case
  proof (cases "snd r")
    case (Inl err)
    with Suc.prems(2) obtain r1 s1 where "Cluster_createContainer apis (fst r) name False au s = Some (r1, s1)"
      "retry_create n apis name au r1 s1 = Some (r', s')" by (auto simp: and_then_Some)
    with Suc.IH createContainer_stored show ?thesis by blast
  next
    case (Inr k)
    with Suc.prems show ?thesis by (simp add: ret_def)
  qed
qed (simp add: ret_def)

lemma if_either: "(if b then x else y) s = z \<Longrightarrow> x s = z \<or> y s = z"
  by (cases b) auto

lemma Cluster_CreateContainer_stored:
  assumes "Cluster_CreateContainer mt apis config name au s = Some (r, s')"
  shows "stored r s'"
proof -
  from assms obtain x s1 where x: "Cluster_createContainer apis config name False au s = Some (x, s1)"
    and rest: "(case x of (config, r) \<Rightarrow> case r of Inr k \<Rightarrow> ret (config, Inr k)
     | Inl err \<Rightarrow>
         and_then the_cluster (\<lambda>c.
         if image_missing mt err \<and> \<not> HaveNodeConstraint config \<and> Cluster_Image c (Image config) \<noteq> None
         then and_then (Cluster_createContainer apis config name True au) (retry_create (nat (createRetry c - 1)) apis name au)
         else retry_create (nat (createRetry c)) apis name au (config, Inl err))) s1 = Some (r, s')"
    unfolding Cluster_CreateContainer_def and_then_Some by blast
  obtain config1 r1 where x1: "x = (config1, r1)" by (cases x)
  note one = x [unfolded x1] and rest = rest [unfolded x1 prod.case]
  note first = createContainer_stored [OF one]
  show ?thesis
  proof (cases r1)
    case (Inr k)
    with rest first show ?thesis by (simp add: ret_def)
  next
    case (Inl err)
    from rest obtain c where "(if image_missing mt err \<and> \<not> HaveNodeConstraint config1 \<and> Cluster_Image c (Image config1) \<noteq> None
         then and_then (Cluster_createContainer apis config1 name True au) (retry_create (nat (createRetry c - 1)) apis name au)
         else retry_create (nat (createRetry c)) apis name au (config1, Inl err)) s1 = Some (r, s')"
      unfolding Inl by (auto simp: the_cluster_def and_then_def read_def)
    from if_either [OF this] show ?thesis
    proof
      assume "and_then (Cluster_createContainer apis config1 name True au) (retry_create (nat (createRetry c - 1)) apis name au) s1 = Some (r, s')"
      then show ?thesis unfolding and_then_Some using createContainer_stored retry_stored by blast
    next
      assume "retry_create (nat (createRetry c)) apis name au (config1, Inl err) s1 = Some (r, s')"
      with first show ?thesis unfolding Inl by (rule retry_stored)
    qed
  qed
qed

lemma status_httpError [simp]: "status_code (httpError msg n) = n"
  by (simp add: httpError_def)

lemma postContainersCreate_201:
  assumes "postContainersCreate be dec r s = Some (rs, s')" "status_code rs = 201"
  shows "\<exists>config au k. be_CreateContainer be config (FormValue r ''name'') au s = Some (Inr (Some k), s') \<and> rs = created (c_ID k)"
proof -
  from assms obtain config au where "(and_then (be_CreateContainer be config (FormValue r ''name'') au) (\<lambda>res. case res of
      Inl err \<Rightarrow> ret (httpError (Error err) (conflict_status err))
    | Inr k \<Rightarrow> or_panic k (\<lambda>k. ret (created (c_ID k))))) s = Some (rs, s')"
    by (auto simp: postContainersCreate_def Let_def ret_def split: option.split_asm sum.split_asm)
  then obtain res s1 where res: "be_CreateContainer be config (FormValue r ''name'') au s = Some (res, s1)"
    and rest: "(case res of Inl err \<Rightarrow> ret (httpError (Error err) (conflict_status err))
      | Inr k \<Rightarrow> or_panic k (\<lambda>k. ret (created (c_ID k)))) s1 = Some (rs, s')"
    unfolding and_then_Some by blast
  have "conflict_status err \<noteq> 201" for err by (simp add: conflict_status_def)
  then obtain k where "res = Inr (Some k)" "rs = created (c_ID k)" "s1 = s'"
    using rest assms(2) by (auto simp: op_simps split: sum.split_asm option.split_asm)
  with res show ?thesis by blast
qed

text \<open>
  C24. A request to create a container that is answered with status 201 has created one: the answer carries the identifier of
  a container that the cluster lists in the state after the request.
\<close>

theorem create_answers_stored:
  assumes "postContainersCreate (swarm_backend re mt rids apis http tunnel) dec r (c, d) = Some (rs, c', d')" "status_code rs = 201"
  shows "\<exists>k \<in> set (Cluster_Containers c'). rs = created (c_ID k)"
proof -
  from postContainersCreate_201 [OF assms] obtain config au k where
    "be_CreateContainer (swarm_backend re mt rids apis http tunnel) config (FormValue r ''name'') au (c, d) = Some (Inr (Some k), c', d')"
    and rs: "rs = created (c_ID k)" by blast
  then obtain x r' where run': "Cluster_CreateContainer mt apis config (FormValue r ''name'') au (c, d) = Some ((x, r'), c', d')"
    and r': "(case r' of Inl err \<Rightarrow> Inl err | Inr k \<Rightarrow> Inr (Some k)) = (Inr (Some k) :: Container option result)"
    by (auto simp: swarm_CreateContainer and_then_Some ret_def)
  from r' have "r' = Inr k" by (cases r') simp_all
  note run = run' [unfolded this]
  from Cluster_CreateContainer_stored [OF run] rs show ?thesis by (auto simp: stored_def)
qed

subsection \<open>Unknown and unreachable containers\<close>

text \<open>
  What the handlers rely on in a back end: looking up containers changes its state at most in a way that is harmless
  (\<open>calm\<close>). A swarm does not change at all; on Mesos the names of containers in memory are rewritten.
\<close>

locale lookup_backend =
  fixes be :: "'s Backend" and calm :: "'s \<Rightarrow> 's \<Rightarrow> bool"
  assumes lookup_calm: "be_Container be q s = Some (k, s') \<Longrightarrow> calm s s'"
    and containers_calm: "be_Containers be s = Some (ks, s') \<Longrightarrow> calm s s'"
begin

lemma unknown:
  assumes "map_of vars ''name'' = Some name" "be_Container be name s = Some (None, s')"
  shows "with_container be vars f s = Some (httpError (''No such container: '' @ name) 404, s') \<and> calm s s'"
  using assms lookup_calm by (simp add: with_container_def getContainerFromVars_def and_then_def ret_def errorf_def)

lemma unhealthy:
  assumes "map_of vars ''name'' = Some name" "be_Container be name s = Some (Some k, s')" "\<not> IsHealthy be (c_Engine k) s'"
  shows "with_container be vars f s = Some (httpError (''Container '' @ name @ '' running on unhealthy node '' @ e_Name (c_Engine k)) 500, s') \<and>
    calm s s'"
  using assms lookup_calm by (simp add: with_container_def getContainerFromVars_def and_then_def ret_def read_def errorf_def)

lemma unknown_exec:
  assumes "map_of vars ''name'' = None" "map_of vars ''execid'' = Some i" "be_Containers be s = Some (ks, s')"
    and "\<forall>k \<in> set ks. i \<notin> set (ExecIDs (Info k))"
  shows "with_container be vars f s = Some (httpError (''Exec '' @ i @ '' not found'') 404, s') \<and> calm s s'"
proof -
  have "first_such (\<lambda>k. i \<in> set (ExecIDs (Info k))) ks = None" using assms(4) by (simp add: first_such_None)
  with assms(1-3) containers_calm show ?thesis
    by (simp add: with_container_def getContainerFromVars_def and_then_def ret_def errorf_def)
qed

end

interpretation swarm: lookup_backend "swarm_backend re mt rids apis http tunnel" "(=)"
  for re mt rids apis http tunnel
  by unfold_locales (auto simp: swarm_backend_reads)

text \<open>On Mesos the daemons are left alone, and the agents are those that formatting the containers gives.\<close>

definition mesos_calm :: "'d mstate \<Rightarrow> 'd mstate \<Rightarrow> bool" where
  "mesos_calm s s' \<longleftrightarrow> snd s' = snd s \<and> (fst s' = fst s \<or> format_agents (fst s) = Some (fst s'))"

interpretation mesos: lookup_backend "mesos_backend extra drv apis http tunnel" mesos_calm
  for extra drv apis http tunnel
proof
  show "mesos_calm s s'" if "be_Containers (mesos_backend extra drv apis http tunnel) s = Some (ks, s')" for s ks s'
    using that by (cases s) (auto simp: mesos_backend_def Mesos_Containers_def mesos_calm_def bind_eq_Some_conv)
  show "mesos_calm s s'" if "be_Container (mesos_backend extra drv apis http tunnel) q s = Some (k, s')" for q s k s'
    using that by (cases s) (auto simp: mesos_backend_def Mesos_Container_def Mesos_Containers_def mesos_calm_def bind_eq_Some_conv
        split: if_split_asm option.split_asm)
qed

lemma swarm_unknown:
  assumes "map_of vars ''name'' = Some name" "Cluster_Container c name = None"
  shows "with_container (swarm_backend re mt rids apis http tunnel) vars f (c, d) =
    Some (httpError (''No such container: '' @ name) 404, c, d)"
  using swarm.unknown [OF assms(1), where s = "(c, d)"] assms(2) by (simp add: swarm_backend_reads)

lemma swarm_unhealthy:
  assumes "map_of vars ''name'' = Some name" "Cluster_Container c name = Some k"
    and "(case map_of (engines c) (e_ID (c_Engine k)) of None \<Rightarrow> True | Some e \<Rightarrow> \<not> isHealthy e)"
  shows "with_container (swarm_backend re mt rids apis http tunnel) vars f (c, d) =
    Some (httpError (''Container '' @ name @ '' running on unhealthy node '' @ e_Name (c_Engine k)) 500, c, d)"
proof -
  have "\<not> IsHealthy (swarm_backend re mt rids apis http tunnel) (c_Engine k) (c, d)"
    using assms(3) by (simp add: swarm_healthy split: option.splits)
  with swarm.unhealthy [OF assms(1), where s = "(c, d)"] assms(2) show ?thesis by (simp add: swarm_backend_reads)
qed

text \<open>The same on Mesos.\<close>

lemma mesos_unknown:
  assumes "map_of vars ''name'' = Some name" "Mesos_Container m name = Some (None, m')"
  shows "with_container (mesos_backend extra drv apis http tunnel) vars f (m, d) =
    Some (httpError (''No such container: '' @ name) 404, m', d)"
  using mesos.unknown [OF assms(1), where s = "(m, d)"] assms(2) by (simp add: mesos_backend_def)

text \<open>
  A request about a container that the swarm does not know is answered with status 404, and one about a container on
  an engine that is not healthy with status 500, by every handler that renames, forwards, refreshes or attaches; no daemon is called
  and the cluster does not change.
\<close>

lemma unknown_container_untouched:
  assumes "be = swarm_backend re mt rids apis http tunnel" "map_of (r_Vars r) ''name'' = Some name"
    and "h \<in> {proxyContainer be, proxyContainerAndForceRefresh be, proxyHijack be, postRenameContainer be}"
    and "case Cluster_Container c name of None \<Rightarrow> status = 404
      | Some k \<Rightarrow> status = 500 \<and> (case map_of (engines c) (e_ID (c_Engine k)) of None \<Rightarrow> True | Some e \<Rightarrow> \<not> isHealthy e)"
  shows "\<exists>msg. h r (c, d) = Some (httpError msg status, c, d)"
proof -
  from assms(3) obtain f where h: "h r = with_container be (r_Vars r) f"
    by (auto simp: proxyContainer_def proxyContainerAndForceRefresh_def proxyHijack_def postRenameContainer_def)
  show ?thesis
  proof (cases "Cluster_Container c name")
    case None
    with assms(4) have st: "status = 404" by simp
    from swarm_unknown [OF assms(2) None] show ?thesis unfolding h assms(1) st by (rule exI)
  next
    case (Some k)
    with assms(4) have st: "status = 500" and "(case map_of (engines c) (e_ID (c_Engine k)) of None \<Rightarrow> True | Some e \<Rightarrow> \<not> isHealthy e)"
      by simp_all
    from swarm_unhealthy [OF assms(2) Some this(2)] show ?thesis unfolding h assms(1) st by (rule exI)
  qed
qed

subsection \<open>Where a request is forwarded to\<close>

lemma str_Index_at:
  "str_Index s p = Some i \<longleftrightarrow> i \<le> length s \<and> HasPrefix (drop i s) p \<and> (\<forall>j < i. \<not> HasPrefix (drop j s) p)"
proof (induction s arbitrary: i)
  case Nil
  show ?case by (auto simp: HasPrefix_def)
next
  case (Cons a s)
  show ?case
  proof (cases "HasPrefix (a # s) p")
    case True
    then show ?thesis by (auto simp: gr0_conv_Suc)
  next
    case False
    then show ?thesis
    proof (cases i)
      case (Suc j)
      with False Cons.IH [of j] show ?thesis by (auto simp: All_less_Suc2 less_Suc_eq_0_disj)
    qed auto
  qed
qed

text \<open>The name is replaced where it occurs first, which is the right place only if it does not occur before.\<close>

lemma full_id_path:
  assumes "name \<noteq> []" "\<forall>j < length pre. \<not> HasPrefix (drop j (pre @ name @ post)) name"
  shows "full_id name k (pre @ name @ post) = pre @ c_ID k @ post"
proof -
  have "str_Index (pre @ name @ post) name = Some (length pre)"
    using assms(2) by (auto simp: str_Index_at HasPrefix_def)
  then show ?thesis using assms(1) by (simp add: full_id_def Replace1_def)
qed

lemma short_id_breaks_path:
  "full_id ''c'' k ''/containers/c/json'' = ''/'' @ c_ID k @ ''ontainers/c/json''"
  by (simp add: full_id_def Replace1_def HasPrefix_def)

text \<open>
  C26. A request that \<open>proxyContainer\<close> serves (the archive, export, changes, top, logs, stats, resize and copy of a container), about a
  container on a healthy, connected engine, goes to the daemon of that engine, with the full identifier in place of the
  name, provided that the name does not occur in the path before its own place; if the daemon answers, its answer goes back to
  the client with its status and headers, and the engine notes a successful call.
\<close>

theorem forward_to_engine:
  assumes "map_of (r_Vars r) ''name'' = Some name" "Cluster_Container c name = Some k"
    and "map_of (engines c) (e_ID (c_Engine k)) = Some e" "isHealthy e" "Engine.connected e"
    and "r_Path r = pre @ name @ post" "\<forall>j < length pre. \<not> HasPrefix (drop j (pre @ name @ post)) name"
    and "http (e_Addr (c_Engine k)) (r\<lparr>r_Path := pre @ c_ID k @ post\<rparr>) d = (Inr resp, d')"
  shows "proxyContainer (swarm_backend re mt rids apis http tunnel) r (c, d) =
    Some (copyHeader (hr_Header resp) @ [WriteHeader (hr_Status resp), Write (Text (hr_Body resp))],
      c\<lparr>engines := AList.update (e_ID (c_Engine k)) (CheckConnectionErr (clock (apis (e_Addr e)) d') None e) (engines c)\<rparr>, d')"
proof -
  let ?be = "swarm_backend re mt rids apis http tunnel"
  have "name \<noteq> []" using assms(2) by (auto simp: Cluster_Container_def)
  then have path: "full_id name k (r_Path r) = pre @ c_ID k @ post" using full_id_path assms(6,7) by simp
  have found: "getContainerFromVars ?be (r_Vars r) (c, d) = Some ((name, Some k, None), c, d)"
    using assms(1-4) by (simp add: getContainerFromVars_def and_then_def swarm_backend_reads swarm_healthy ret_def read_def)
  have client: "http_client ?be (c_Engine k) (c, d) = Inr ()"
    using assms(3,5) by (simp add: http_client_def swarm_backend_def HTTPClientAndScheme_def)
  have "be_Do ?be (c_Engine k) (r\<lparr>r_Path := pre @ c_ID k @ post\<rparr>) (c, d) = Some (Inr resp, c, d')"
    using assms(8) by (simp add: swarm_backend_def)
  then have sent: "proxy ?be (c_Engine k) (r\<lparr>r_Path := pre @ c_ID k @ post\<rparr>) (c, d) =
      Some ((copyHeader (hr_Header resp) @ [WriteHeader (hr_Status resp), Write (Text (hr_Body resp))], None), c, d')"
    by (simp add: proxy_def proxyAsync_def and_then_def read_def client ret_def)
  have "be_CheckConnectionErr ?be (c_Engine k) None (c, d') =
      Some ((), c\<lparr>engines := AList.update (e_ID (c_Engine k)) (CheckConnectionErr (clock (apis (e_Addr e)) d') None e) (engines c)\<rparr>, d')"
    using assms(3) by (simp add: swarm_backend_def swarm_engine_def of_engine_def at_engine_def checked_def and_then_def ret_def)
  with found sent path show ?thesis
    by (simp add: proxyContainer_def with_container_def forwarded_def and_then_def or_panic_def ret_def)
qed

text \<open>
  Starting a command without the header \<open>Connection\<close> reaches the engine twice: the first answer is written, and then the same
  request goes out over a raw connection.
\<close>

lemma exec_start_twice:
  assumes "Header_Get r ''Connection'' = []" "proxyContainer be r s = Some (rs, s1)" "proxyHijack be r s1 = Some (rs', s2)"
  shows "postExecStart be r s = Some (rs @ rs', s2)"
  using assms by (simp add: postExecStart_def and_then_def ret_def)

text \<open>When the engine of an image cannot be reached, the client gets an empty answer with status 200.\<close>

lemma image_error_hidden:
  assumes "proxy be (i_Engine im) r s = Some (([], Some err), s1)" "be_CheckConnectionErr be (i_Engine im) (Some err) s1 = Some (u, s2)"
  shows "\<exists>rs. forward_image be r im s = Some (rs, s2) \<and> status_code rs = 200"
  using assms by (simp add: forward_image_def and_then_def ret_def)

subsection \<open>Requests to a swarm\<close>

definition demo_request :: "string \<Rightarrow> Request" where
  "demo_request name = \<lparr>r_Path = ''/containers/'' @ name @ ''/top'', r_RawQuery = [], r_Vars = [(''name'', name)],
     r_Form = [(''name'', [name])], r_ParseForm = None, r_Header = [], r_Body = [], r_RemoteAddr = []\<rparr>"

definition demo_old :: OldContainerConfig where
  "demo_old = \<lparr>Env = [], Labels = Map.empty, Image = ''nginx'', ExposedPorts = [], HostConfig = zero_host, NetworkingConfig = [],
     OldMemory = 0, OldMemorySwap = 0, OldCPUShares = 0, OldCPUSet = []\<rparr>"

definition demo_decoder :: Decoder where
  "demo_decoder = \<lparr>dec_Create = (\<lambda>_. Inr demo_old), dec_Auth = (\<lambda>_. None), dec_Network = (\<lambda>_. Inl refused), dec_Volume = (\<lambda>_. Inl refused),
     dec_Start = (\<lambda>_. Inl refused), dec_ExecID = (\<lambda>_. Inl refused), dec_Connect = (\<lambda>_. Inl refused),
     dec_Disconnect = (\<lambda>_. Inl refused), dec_Scale = (\<lambda>_. Inl refused), dec_BuildArgs = (\<lambda>_. []), dec_Ulimits = (\<lambda>_. []),
     dec_Labels = (\<lambda>_. Map.empty), dec_AuthConfigs = (\<lambda>_. Map.empty)\<rparr>"

text \<open>A daemon that answers with the path it was asked for.\<close>

definition echo_http :: "string \<Rightarrow> Request \<Rightarrow> (demo_daemon, HttpResponse) call" where
  "echo_http addr r d = (Inr \<lparr>hr_Status = 200, hr_Header = [], hr_Body = addr @ r_Path r\<rparr>, d)"

definition demo_backend :: "demo_daemon cstate Backend" where
  "demo_backend = swarm_backend (\<lambda>_. None) (=) (\<lambda>_ _ _. 0) demo_apis echo_http (\<lambda>_ _ d. (Inl refused, d))"

lemma demo_valid: "Validate (BuildContainerConfig (Config.truncate (ConsolidateResourceFields demo_old))
    (HostConfig (ConsolidateResourceFields demo_old)) (NetworkingConfig (ConsolidateResourceFields demo_old))) = None"
  by code_simp

theorem create_conflict_witness:
  "postContainersCreate demo_backend demo_decoder (demo_request ''web'') demo_validated =
     Some (httpError (Error (conflict_error ''web'')) 409, demo_validated)"
proof -
  have "''/web'' \<in> set (concat (map Names (Cluster_Containers (fst demo_validated))))"
    unfolding demo_validated_names by simp
  then have taken: "\<exists>k \<in> set (Cluster_Containers (fst demo_validated)). ''web'' \<in> set (Names k) \<or> CHR ''/'' # ''web'' \<in> set (Names k)" by auto
  have pars: "r_ParseForm (demo_request ''web'') = None" "FormValue (demo_request ''web'') ''name'' = ''web''"
    "dec_Create demo_decoder (r_Body (demo_request ''web'')) = Inr demo_old"
    by (simp_all add: demo_request_def FormValue_def demo_decoder_def)
  show ?thesis
    using create_conflict [OF pars(1,3) refl demo_valid pars(2) _ disjI1 [OF taken]]
    unfolding demo_backend_def by (metis list.distinct(1) prod.collapse)
qed

lemma demo_create_201: "(case postContainersCreate demo_backend demo_decoder (demo_request ''db'') demo_validated of
    None \<Rightarrow> False | Some (rs, _) \<Rightarrow> status_code rs = 201)"
  by code_simp

theorem create_answers_stored_witness:
  "\<exists>rs c' d'. postContainersCreate demo_backend demo_decoder (demo_request ''db'') demo_validated = Some (rs, c', d') \<and>
     (\<exists>k \<in> set (Cluster_Containers c'). rs = created (c_ID k))"
proof -
  obtain rs c' d' where run: "postContainersCreate demo_backend demo_decoder (demo_request ''db'') (fst demo_validated, snd demo_validated) = Some (rs, c', d')"
    and "status_code rs = 201" using demo_create_201 by (auto split: option.split_asm)
  from create_answers_stored [OF run [unfolded demo_backend_def] this(2)] run show ?thesis by auto
qed

lemma demo_unknown: "Cluster_Container list_cluster ''gone'' = None"
  by code_simp

lemma unknown_container_untouched_witness:
  "\<exists>msg. proxyContainer demo_backend (demo_request ''gone'') (list_cluster, demo_world) = Some (httpError msg 404, list_cluster, demo_world)"
  by (rule unknown_container_untouched [OF demo_backend_def, where name = "''gone''"])
    (simp_all add: demo_unknown, simp add: demo_request_def)

lemma demo_forward:
  "(case Cluster_Container list_cluster ''c2'' of None \<Rightarrow> False
    | Some k \<Rightarrow> c_ID k = ''c2'' \<and> e_ID (c_Engine k) = ''E1'' \<and> e_Addr (c_Engine k) = ''10.0.0.1:2375'')"
  "(case map_of (engines list_cluster) ''E1'' of None \<Rightarrow> False | Some e \<Rightarrow> isHealthy e \<and> Engine.connected e)"
  by code_simp+

lemma demo_forward_path: "\<forall>j < length ''/containers/''. \<not> HasPrefix (drop j (''/containers/'' @ ''c2'' @ ''/top'')) ''c2''"
  by code_simp

theorem forward_to_engine_witness:
  "\<exists>c'. proxyContainer demo_backend (demo_request ''c2'') (list_cluster, demo_world) =
     Some ([WriteHeader 200, Write (Text ''10.0.0.1:2375/containers/c2/top'')], c', demo_world)"
proof -
  obtain k where k: "Cluster_Container list_cluster ''c2'' = Some k" and i: "c_ID k = ''c2''" "e_ID (c_Engine k) = ''E1''"
    "e_Addr (c_Engine k) = ''10.0.0.1:2375''" using demo_forward(1) by (auto split: option.split_asm)
  obtain e where e: "map_of (engines list_cluster) (e_ID (c_Engine k)) = Some e" "isHealthy e" "Engine.connected e"
    unfolding i using demo_forward(2) by (auto split: option.split_asm)
  let ?resp = "\<lparr>hr_Status = 200, hr_Header = [], hr_Body = ''10.0.0.1:2375/containers/c2/top''\<rparr>"
  have "echo_http (e_Addr (c_Engine k)) ((demo_request ''c2'')\<lparr>r_Path := ''/containers/'' @ c_ID k @ ''/top''\<rparr>) demo_world = (Inr ?resp, demo_world)"
    by (simp add: echo_http_def i)
  note run = forward_to_engine [where pre = "''/containers/''" and post = "''/top''" and name = "''c2''" and http = echo_http
      and r = "demo_request ''c2''" and d = demo_world, OF _ k e _ demo_forward_path this]
  show ?thesis
    unfolding demo_backend_def by (rule exI, rule trans [OF run]) (simp_all add: demo_request_def copyHeader_def)
qed

end
