(* ===== verification/Api_Events.thy ===== *)
theory Api_Events
  imports Api_Http
begin

section \<open>Listeners of events (\<open>api/events.go\<close>)\<close>

text \<open>
  \<open>eventsHandler\<close> keeps a writer and a channel for each client that listens. The goroutine of a client (\<open>getEvents\<close>) adds itself and
  waits for its channel, for the client to go away or for a timer; \<open>Handle\<close> writes an event to all writers and closes the
  channels of those that fail. The channels are numbered in the order of their creation. Closing a channel twice, or no channel, is a
  panic.
\<close>

subsection \<open>The state\<close>

text \<open>Where the goroutine of a client is; \<open>Selecting\<close> has the channel that was looked up when the \<open>select\<close> began.\<close>

datatype listener = Away | Added | Selecting_on "nat option" | Timed_out | Cleaning

record eventsHandler =
  ws :: "string list"
  cs :: "(string \<times> nat) list"
  made :: nat
  closed :: "nat list"
  listener_of :: "string \<Rightarrow> listener"
  panicked :: bool

definition newEventsHandler :: eventsHandler where
  "newEventsHandler = \<lparr>ws = [], cs = [], made = 0, closed = [], listener_of = (\<lambda>_. Away), panicked = False\<rparr>"

definition listen :: "string \<Rightarrow> listener \<Rightarrow> eventsHandler \<Rightarrow> eventsHandler" where
  "listen a p eh = eh\<lparr>listener_of := (listener_of eh)(a := p)\<rparr>"

definition events_Add :: "string \<Rightarrow> eventsHandler \<Rightarrow> eventsHandler" where
  "events_Add a eh = eh\<lparr>ws := List.insert a (ws eh), cs := AList.update a (made eh) (cs eh), made := Suc (made eh)\<rparr>"

text \<open>\<open>close(ch)\<close>.\<close>

definition close_chan :: "nat option \<Rightarrow> eventsHandler \<Rightarrow> eventsHandler" where
  "close_chan ch eh =
     (case ch of
        None \<Rightarrow> eh\<lparr>panicked := True\<rparr>
      | Some n \<Rightarrow> if n \<in> set (closed eh) then eh\<lparr>panicked := True\<rparr> else eh\<lparr>closed := n # closed eh\<rparr>)"

definition cleanupHandler :: "string \<Rightarrow> eventsHandler \<Rightarrow> eventsHandler" where
  "cleanupHandler a eh = eh\<lparr>cs := AList.delete a (cs eh), ws := removeAll a (ws eh)\<rparr>"

text \<open>The last part of \<open>Handle\<close>: the channels of the writers that failed.\<close>

definition drop_failed :: "string list \<Rightarrow> eventsHandler \<Rightarrow> eventsHandler" where
  "drop_failed failed eh =
     fold (\<lambda>key eh.
       (case map_of (cs eh) key of None \<Rightarrow> eh | Some ch \<Rightarrow> close_chan (Some ch) eh)\<lparr>cs := AList.delete key (cs eh)\<rparr>) failed eh"

text \<open>\<open>fails\<close> tells which writers return an error.\<close>

definition events_Handle :: "(string \<Rightarrow> bool) \<Rightarrow> eventsHandler \<Rightarrow> eventsHandler" where
  "events_Handle fails eh = drop_failed (filter fails (ws eh)) eh"

definition events_Size :: "eventsHandler \<Rightarrow> nat" where
  "events_Size eh = length (ws eh)"

text \<open>
  The handler up to the point where it waits: the replies so far, the time limit it waits with, and the listeners. The
  text of an error is abbreviated.
\<close>

definition getEvents :: "Request \<Rightarrow> eventsHandler \<Rightarrow> (reply list \<times> int option) \<times> eventsHandler" where
  "getEvents r eh =
     (case r_ParseForm r of
        Some err \<Rightarrow> ((httpError (Error err) 400, None), eh)
      | None \<Rightarrow>
          let u = FormValue r ''until''; (v, ok) = Atoi u in
          if u \<noteq> [] \<and> \<not> ok then ((httpError (''strconv.ParseInt: parsing '' @ u) 400, None), eh)
          else (([AddHeader ''Content-Type'' ''application/json''], Some (if u \<noteq> [] then v else -1)), events_Add (r_RemoteAddr r) eh))"

text \<open>
  Everything that a client is sent in the end: the events that \<open>Handle\<close> writes to it after \<open>Add\<close> and before the header is set, and those until
  the wait is over. The flush sends the header and status 200.
\<close>

definition events_replies :: "string list \<times> string list \<Rightarrow> Request \<Rightarrow> eventsHandler \<Rightarrow> reply list" where
  "events_replies written r eh =
     (case fst (getEvents r eh) of
        (rs, None) \<Rightarrow> rs
      | (rs, Some _) \<Rightarrow> map (\<lambda>ev. Write (Text ev)) (fst written) @ rs @ map (\<lambda>ev. Write (Text ev)) (snd written))"

subsection \<open>Steps\<close>

text \<open>
  \<open>timers\<close> tells whether clients give a time limit. When several cases of the \<open>select\<close> are ready, any of them is taken.
\<close>

inductive events_step :: "bool \<Rightarrow> eventsHandler \<Rightarrow> eventsHandler \<Rightarrow> bool" for timers where
  ev_add: "listener_of eh a = Away \<Longrightarrow> events_step timers eh (listen a Added (events_Add a eh))"
| ev_select: "listener_of eh a = Added \<Longrightarrow> events_step timers eh (listen a (Selecting_on (map_of (cs eh) a)) eh)"
| ev_closed: "listener_of eh a = Selecting_on (Some ch) \<Longrightarrow> ch \<in> set (closed eh) \<Longrightarrow> events_step timers eh (listen a Cleaning eh)"
| ev_client: "listener_of eh a = Selecting_on ch \<Longrightarrow> events_step timers eh (listen a Cleaning eh)"
| ev_timer: "listener_of eh a = Selecting_on ch \<Longrightarrow> timers \<Longrightarrow> events_step timers eh (listen a Timed_out eh)"
| ev_close: "listener_of eh a = Timed_out \<Longrightarrow> events_step timers eh (listen a Cleaning (close_chan (map_of (cs eh) a) eh))"
| ev_clean: "listener_of eh a = Cleaning \<Longrightarrow> events_step timers eh (listen a Away (cleanupHandler a eh))"
| ev_handle: "events_step timers eh (events_Handle fails eh)"

text \<open>A request for events that is not refused makes the first of these steps; one that is refused adds nothing.\<close>

lemma getEvents_adds:
  assumes "getEvents r eh = ((rs, Some until), eh')" "listener_of eh (r_RemoteAddr r) = Away"
  shows "events_step timers eh (listen (r_RemoteAddr r) Added eh')"
proof -
  have "eh' = events_Add (r_RemoteAddr r) eh"
    using assms(1) by (auto simp: getEvents_def Let_def split: option.split_asm prod.split_asm if_split_asm)
  with ev_add [OF assms(2)] show ?thesis by simp
qed

lemma getEvents_replies:
  "fst (getEvents r eh) = (rs, u) \<Longrightarrow>
     (if u = None then \<exists>msg. rs = httpError msg 400 else rs = [AddHeader ''Content-Type'' ''application/json''])"
proof -
  let ?u = "FormValue r ''until''"
  have "fst (getEvents r eh) = (case r_ParseForm r of Some err \<Rightarrow> (httpError (Error err) 400, None)
      | None \<Rightarrow> if ?u \<noteq> [] \<and> \<not> snd (Atoi ?u) then (httpError (''strconv.ParseInt: parsing '' @ ?u) 400, None)
        else ([AddHeader ''Content-Type'' ''application/json''], Some (if ?u \<noteq> [] then fst (Atoi ?u) else -1)))"
    by (simp add: getEvents_def Let_def split_beta split: option.split)
  moreover assume "fst (getEvents r eh) = (rs, u)"
  ultimately show ?thesis by (cases "r_ParseForm r") (auto split: if_split_asm)
qed

lemma getEvents_refused: "getEvents r eh = ((rs, None), eh') \<Longrightarrow> eh' = eh \<and> status_code rs = 400"
  by (auto simp: getEvents_def Let_def httpError_def split: option.split_asm prod.split_asm if_split_asm)

subsection \<open>An invariant\<close>

text \<open>Without time limits, the channels in the map are open, and no two clients have the same one.\<close>

definition events_ok :: "eventsHandler \<Rightarrow> bool" where
  "events_ok eh \<longleftrightarrow>
     \<not> panicked eh \<and> distinct (map fst (cs eh)) \<and> distinct (map snd (cs eh)) \<and>
     (\<forall>ch \<in> snd ` set (cs eh). ch < made eh \<and> ch \<notin> set (closed eh)) \<and>
     (\<forall>ch \<in> set (closed eh). ch < made eh) \<and> (\<forall>a. listener_of eh a \<noteq> Timed_out)"

lemma listen_ok: "events_ok eh \<Longrightarrow> p \<noteq> Timed_out \<Longrightarrow> events_ok (listen a p eh)"
  by (simp add: listen_def events_ok_def)

lemma delete_sub: "set (AList.delete a xs) \<subseteq> set xs"
  by (auto simp: AList.delete_eq)

lemma distinct_snd_delete: "distinct (map snd xs) \<Longrightarrow> distinct (map snd (AList.delete a xs))"
  unfolding AList.delete_eq by (simp add: distinct_map_filter)

lemma drop_one_ok:
  assumes "events_ok eh"
  shows "events_ok ((case map_of (cs eh) key of None \<Rightarrow> eh | Some ch \<Rightarrow> close_chan (Some ch) eh)\<lparr>cs := AList.delete key (cs eh)\<rparr>)"
proof (cases "map_of (cs eh) key")
  case None
  with assms show ?thesis using delete_sub [of key "cs eh"] distinct_snd_delete [of "cs eh" key]
    by (auto simp: events_ok_def distinct_delete)
next
  case (Some ch)
  then have mem: "(key, ch) \<in> set (cs eh)" by (rule map_of_SomeD)
  with assms have "ch \<notin> set (closed eh)" by (force simp: events_ok_def)
  moreover have "ch \<notin> snd ` set (AList.delete key (cs eh))"
  proof
    assume "ch \<in> snd ` set (AList.delete key (cs eh))"
    then obtain k where k: "(k, ch) \<in> set (cs eh)" "k \<noteq> key" by (auto simp: AList.delete_eq)
    have "inj_on snd (set (cs eh))" using assms by (simp add: events_ok_def distinct_map)
    from inj_onD [OF this _ mem k(1)] k(2) show False by simp
  qed
  ultimately show ?thesis
    using Some assms mem delete_sub [of key "cs eh"] distinct_snd_delete [of "cs eh" key]
    by (auto simp: events_ok_def close_chan_def distinct_delete)
qed

lemma drop_failed_ok: "events_ok eh \<Longrightarrow> events_ok (drop_failed failed eh)"
  unfolding drop_failed_def by (induction failed arbitrary: eh) (simp_all add: drop_one_ok)

lemma events_Add_ok:
  assumes "events_ok eh"
  shows "events_ok (events_Add a eh)"
proof -
  have sub: "set (AList.update a n xs) \<subseteq> insert (a, n) (set xs)" for xs and n :: nat
    by (induction xs) auto
  have old: "ch < made eh" "ch \<notin> set (closed eh)" if "(k, ch) \<in> set (cs eh)" for k ch using assms that by (force simp: events_ok_def)+
  have "distinct (map snd (AList.update a (made eh) (cs eh)))"
  proof -
    have "distinct (map snd xs) \<Longrightarrow> n \<notin> snd ` set xs \<Longrightarrow> distinct (map snd (AList.update a n xs)) \<and>
        snd ` set (AList.update a n xs) \<subseteq> insert n (snd ` set xs)" for xs and n :: nat
      by (induction xs) auto
    moreover have "made eh \<notin> snd ` set (cs eh)" using old(1) by force
    ultimately show ?thesis using assms by (simp add: events_ok_def)
  qed
  moreover have "ch < Suc (made eh) \<and> ch \<notin> set (closed eh)" if "ch \<in> snd ` set (AList.update a (made eh) (cs eh))" for ch
  proof -
    from that sub [of "made eh" "cs eh"] consider "ch = made eh" | k where "(k, ch) \<in> set (cs eh)" by auto
    then show ?thesis
    proof cases
      case 1
      with assms show ?thesis by (auto simp: events_ok_def)
    next
      case (2 k)
      with old show ?thesis by (auto intro: less_SucI)
    qed
  qed
  moreover have "ch < Suc (made eh)" if "ch \<in> set (closed eh)" for ch
    using assms that by (auto simp: events_ok_def intro: less_SucI)
  ultimately show ?thesis using assms by (simp add: events_ok_def events_Add_def distinct_update)
qed

lemma events_ok_step: "events_step False eh eh' \<Longrightarrow> events_ok eh \<Longrightarrow> events_ok eh'"
proof (induction rule: events_step.induct)
  case (ev_add eh a)
  then show ?case by (simp add: listen_ok events_Add_ok)
next
  case (ev_clean eh a)
  have "events_ok (cleanupHandler a eh)"
    using ev_clean delete_sub [of a "cs eh"] distinct_snd_delete [of "cs eh" a]
    by (auto simp: events_ok_def cleanupHandler_def distinct_delete)
  then show ?case by (simp add: listen_ok)
next
  case (ev_close eh a)
  then show ?case by (simp add: events_ok_def)
next
  case (ev_handle eh fails)
  then show ?case by (simp add: events_Handle_def drop_failed_ok)
qed (simp_all add: listen_ok)

lemma events_ok_reached: "(events_step False)\<^sup>*\<^sup>* newEventsHandler eh \<Longrightarrow> events_ok eh"
proof (induction rule: rtranclp_induct)
  case base
  show ?case by (simp add: events_ok_def newEventsHandler_def)
qed (rule events_ok_step)

subsection \<open>Time limits\<close>

text \<open>
  A writer fails, \<open>Handle\<close> closes and forgets its channel, and the time limit of the client passes before its goroutine runs: then both
  cases of the \<open>select\<close> are ready, and the case of the timer closes a channel that is no longer there.
\<close>

lemma panic_reachable: "\<exists>eh. (events_step True)\<^sup>*\<^sup>* newEventsHandler eh \<and> panicked eh"
proof -
  define s1 where "s1 = listen ''a'' Added (events_Add ''a'' newEventsHandler)"
  define s2 where "s2 = listen ''a'' (Selecting_on (map_of (cs s1) ''a'')) s1"
  define s3 where "s3 = events_Handle (\<lambda>_. True) s2"
  define s4 where "s4 = listen ''a'' Timed_out s3"
  define s5 where "s5 = listen ''a'' Cleaning (close_chan (map_of (cs s4) ''a'') s4)"
  note defs = s1_def s2_def s3_def s4_def s5_def listen_def events_Add_def newEventsHandler_def events_Handle_def drop_failed_def
    close_chan_def
  have "events_step True newEventsHandler s1" unfolding s1_def by (rule ev_add) (simp add: newEventsHandler_def)
  moreover have "events_step True s1 s2" unfolding s2_def by (rule ev_select) (simp add: defs)
  moreover have "events_step True s2 s3" unfolding s3_def by (rule ev_handle)
  moreover have "events_step True s3 s4" unfolding s4_def by (rule ev_timer [of _ _ "Some 0"]) (simp_all add: defs)
  moreover have "events_step True s4 s5" unfolding s5_def by (rule ev_close) (simp add: defs)
  ultimately have "(events_step True)\<^sup>*\<^sup>* newEventsHandler s5" by (simp add: converse_rtranclp_into_rtranclp)
  moreover have "panicked s5" by (simp add: defs)
  ultimately show ?thesis by blast
qed

text \<open>
  C34. The handler of events can panic exactly when clients may give a time limit: without one, no sequence of additions,
  failing writes, departures and clean-ups closes a channel twice or closes a missing one; with one, a failing write and a
  timer at the same moment do.
\<close>

theorem events_panic_iff: "(\<exists>eh. (events_step timers)\<^sup>*\<^sup>* newEventsHandler eh \<and> panicked eh) \<longleftrightarrow> timers"
  using panic_reachable events_ok_reached by (cases timers) (auto simp: events_ok_def)

end
