(* ===== verification/Api_Routes.thy ===== *)
theory Api_Routes
  imports Api_Guarantees Api_Events
begin

section \<open>Routes, replicas and the dispatcher (\<open>api/primary.go\<close>, \<open>api/replica.go\<close>, \<open>api/server.go\<close>)\<close>

text \<open>
  The table of routes, the matching of a request by \<open>gorilla/mux\<close>, and the call of a handler with the variables of its route.
  Go ranges over the table in any order; that the order does not matter is shown for the table of the code. A handler in the table is its name,
  and \<open>run_handler\<close> calls it. The handler for events waits; what is written meanwhile is a parameter of the context, and
  \<open>Api_Events\<close> has the steps of the listeners.
\<close>

subsection \<open>The table\<close>

datatype api_handler =
    Ping | GetEvents | GetInfo | GetVersion | GetImagesJSON | NotImplementedHandler | ProxyRandom | GetImages
  | ProxyImageGet | ProxyImage | GetContainersJSON | ProxyContainer | GetContainerJSON | ProxyHijack | GetNetworks
  | GetNetwork | GetVolumes | GetVolume | PostCommit | PostBuild | PostImagesCreate | PostImagesLoad | ProxyImagePush
  | PostTagImage | PostContainersCreate | ProxyContainerAndForceRefresh | PostRenameContainer | PostContainersStart
  | PostContainersExec | PostExecStart | PostNetworksCreate | ProxyNetworkConnect | PostScale | NetworkDisconnect'
  | PostVolumesCreate | DeleteContainers | DeleteImages | DeleteNetworks | DeleteVolumes | OptionsHandler

definition routes :: "(string \<times> (string \<times> api_handler) list) list" where
  "routes =
    [(''HEAD'',
       [(''/containers/{name:.*}/archive'', ProxyContainer)]),
     (''GET'',
       [(''/_ping'', Ping),
        (''/events'', GetEvents),
        (''/info'', GetInfo),
        (''/version'', GetVersion),
        (''/images/json'', GetImagesJSON),
        (''/images/viz'', NotImplementedHandler),
        (''/images/search'', ProxyRandom),
        (''/images/get'', GetImages),
        (''/images/{name:.*}/get'', ProxyImageGet),
        (''/images/{name:.*}/history'', ProxyImage),
        (''/images/{name:.*}/json'', ProxyImage),
        (''/containers/ps'', GetContainersJSON),
        (''/containers/json'', GetContainersJSON),
        (''/containers/{name:.*}/archive'', ProxyContainer),
        (''/containers/{name:.*}/export'', ProxyContainer),
        (''/containers/{name:.*}/changes'', ProxyContainer),
        (''/containers/{name:.*}/json'', GetContainerJSON),
        (''/containers/{name:.*}/top'', ProxyContainer),
        (''/containers/{name:.*}/logs'', ProxyContainer),
        (''/containers/{name:.*}/stats'', ProxyContainer),
        (''/containers/{name:.*}/attach/ws'', ProxyHijack),
        (''/exec/{execid:.*}/json'', ProxyContainer),
        (''/networks'', GetNetworks),
        (''/networks/{networkid:.*}'', GetNetwork),
        (''/volumes'', GetVolumes),
        (''/volumes/{volumename:.*}'', GetVolume)]),
     (''POST'',
       [(''/auth'', ProxyRandom),
        (''/commit'', PostCommit),
        (''/build'', PostBuild),
        (''/images/create'', PostImagesCreate),
        (''/images/load'', PostImagesLoad),
        (''/images/{name:.*}/push'', ProxyImagePush),
        (''/images/{name:.*}/tag'', PostTagImage),
        (''/containers/create'', PostContainersCreate),
        (''/containers/{name:.*}/kill'', ProxyContainerAndForceRefresh),
        (''/containers/{name:.*}/pause'', ProxyContainerAndForceRefresh),
        (''/containers/{name:.*}/unpause'', ProxyContainerAndForceRefresh),
        (''/containers/{name:.*}/rename'', PostRenameContainer),
        (''/containers/{name:.*}/restart'', ProxyContainerAndForceRefresh),
        (''/containers/{name:.*}/start'', PostContainersStart),
        (''/containers/{name:.*}/stop'', ProxyContainerAndForceRefresh),
        (''/containers/{name:.*}/update'', ProxyContainerAndForceRefresh),
        (''/containers/{name:.*}/wait'', ProxyContainerAndForceRefresh),
        (''/containers/{name:.*}/resize'', ProxyContainer),
        (''/containers/{name:.*}/attach'', ProxyHijack),
        (''/containers/{name:.*}/copy'', ProxyContainer),
        (''/containers/{name:.*}/exec'', PostContainersExec),
        (''/exec/{execid:.*}/start'', PostExecStart),
        (''/exec/{execid:.*}/resize'', ProxyContainer),
        (''/networks/create'', PostNetworksCreate),
        (''/networks/{networkid:.*}/connect'', ProxyNetworkConnect),
        (''/scale'', PostScale),
        (''/networks/{networkid:.*}/disconnect'', NetworkDisconnect'),
        (''/volumes/create'', PostVolumesCreate)]),
     (''PUT'',
       [(''/containers/{name:.*}/archive'', ProxyContainer)]),
     (''DELETE'',
       [(''/containers/{name:.*}'', DeleteContainers),
        (''/images/{name:.*}'', DeleteImages),
        (''/networks/{networkid:.*}'', DeleteNetworks),
        (''/volumes/{name:.*}'', DeleteVolumes)])]"

subsection \<open>Matching\<close>

text \<open>
  A template with a variable, as the text before it, its name, its pattern and the text after it.
\<close>

definition braces :: "string \<Rightarrow> (string \<times> string \<times> string \<times> string) option" where
  "braces tpl =
     (let pre = takeWhile (\<lambda>c. c \<noteq> CHR ''{'') tpl; rest = drop (Suc (length pre)) tpl;
          inner = takeWhile (\<lambda>c. c \<noteq> CHR ''}'') rest; name = takeWhile (\<lambda>c. c \<noteq> CHR '':'') inner
      in if CHR ''{'' \<in> set tpl
         then Some (pre, name, drop (Suc (length name)) inner, drop (Suc (length inner)) rest) else None)"

text \<open>
  The match of a template against a path, and the variables: all patterns of the table are \<open>.*\<close> (see
  \<open>all_patterns_any\<close>), which matches any text without a newline.
\<close>

definition template_vars :: "string \<Rightarrow> string \<Rightarrow> (string \<times> string) list option" where
  "template_vars tpl p =
     (case braces tpl of
        None \<Rightarrow> if p = tpl then Some [] else None
      | Some (pre, name, _, suf) \<Rightarrow>
          let x = take (length p - length pre - length suf) (drop (length pre) p)
          in if p = pre @ x @ suf \<and> CHR 0x0A \<notin> set x then Some [(name, x)] else None)"

text \<open>The text of a version: \<open>[0-9]+.[0-9]+\<close>, where the dot is any character but a newline.\<close>

definition is_version :: "string \<Rightarrow> bool" where
  "is_version v =
     list_ex (\<lambda>i. 0 < i \<and> list_all is_digit (take i v) \<and> v ! i \<noteq> CHR 0x0A \<and> drop (Suc i) v \<noteq> [] \<and>
       list_all is_digit (drop (Suc i) v)) [0..<length v]"

definition versioned_vars :: "string \<Rightarrow> string \<Rightarrow> (string \<times> string) list option" where
  "versioned_vars tpl p =
     (if HasPrefix p ''/v'' then
        let q = drop 2 p in
        case first_such (\<lambda>i. is_version (take i q) \<and> template_vars tpl (drop i q) \<noteq> None) (rev [0..<length q]) of
          None \<Rightarrow> None
        | Some i \<Rightarrow> map_option ((#) (''version'', take i q)) (template_vars tpl (drop i q))
      else None)"

text \<open>
  A registered route: whether it starts with the version, its method, its template and its handler; \<open>setupPrimaryRouter\<close> makes
  two for each entry of the table, and with CORS two more for \<open>OPTIONS\<close>.
\<close>

type_synonym route = "bool \<times> string \<times> string \<times> api_handler"

definition register :: "bool \<Rightarrow> string \<Rightarrow> string \<times> api_handler \<Rightarrow> route list" where
  "register enableCors method = (\<lambda>(tpl, h).
     [(True, method, tpl, h), (False, method, tpl, h)] @
     (if enableCors then [(True, ''OPTIONS'', tpl, OptionsHandler), (False, ''OPTIONS'', tpl, OptionsHandler)] else []))"

definition setupPrimaryRouter :: "bool \<Rightarrow> route list" where
  "setupPrimaryRouter enableCors =
     concat (map (\<lambda>(method, mappings). concat (map (register enableCors method) mappings)) routes)"

fun route_vars :: "string \<Rightarrow> string \<Rightarrow> route \<Rightarrow> (string \<times> string) list option" where
  "route_vars m p (versioned, method, tpl, h) =
     (if method \<noteq> m then None else if versioned then versioned_vars tpl p else template_vars tpl p)"

text \<open>The first route that matches is taken.\<close>

fun router_match :: "route list \<Rightarrow> string \<Rightarrow> string \<Rightarrow> ((string \<times> string) list \<times> api_handler) option" where
  "router_match [] m p = None"
| "router_match (rt # rts) m p =
     (case route_vars m p rt of
        Some vars \<Rightarrow> Some (vars, snd (snd (snd rt)))
      | None \<Rightarrow> router_match rts m p)"

subsection \<open>Serving\<close>

record 's api_context =
  ctx_cluster :: "'s Backend"
  ctx_env :: Env
  ctx_decoder :: Decoder
  ctx_sort_containers :: "(Container \<times> ContainerState \<Rightarrow> Container \<times> ContainerState \<Rightarrow> bool) \<Rightarrow> (Container \<times> ContainerState) list \<Rightarrow> (Container \<times> ContainerState) list"
  ctx_sort_images :: "(Image \<Rightarrow> Image \<Rightarrow> bool) \<Rightarrow> Image list \<Rightarrow> Image list"
  ctx_marshal :: "Engine \<Rightarrow> string result"
  ctx_is_v4 :: "string \<Rightarrow> bool option"
  ctx_zero_auth :: AuthConfig
  ctx_listeners :: nat
  ctx_status :: "(string \<times> string) list"
  ctx_build :: BuildInfo
  ctx_events :: eventsHandler
  ctx_written :: "Request \<Rightarrow> string list \<times> string list"

fun run_handler :: "'s api_context \<Rightarrow> api_handler \<Rightarrow> Request \<Rightarrow> ('s, reply list) op" where
  "run_handler cx Ping r = ping"
| "run_handler cx GetInfo r = getInfo (ctx_cluster cx) (ctx_env cx) (ctx_listeners cx) (ctx_status cx)"
| "run_handler cx GetImagesJSON r = getImagesJSON (ctx_cluster cx) (ctx_env cx) (ctx_sort_images cx) r"
| "run_handler cx NotImplementedHandler r = notImplementedHandler"
| "run_handler cx ProxyRandom r = proxyRandom (ctx_cluster cx) r"
| "run_handler cx GetImages r = getImages (ctx_cluster cx) r"
| "run_handler cx ProxyImageGet r = proxyImageGet (ctx_cluster cx) r"
| "run_handler cx ProxyImage r = proxyImage (ctx_cluster cx) r"
| "run_handler cx GetContainersJSON r = getContainersJSON (ctx_cluster cx) (ctx_env cx) (ctx_sort_containers cx) r"
| "run_handler cx ProxyContainer r = proxyContainer (ctx_cluster cx) r"
| "run_handler cx GetContainerJSON r = getContainerJSON (ctx_cluster cx) (ctx_marshal cx) (ctx_is_v4 cx) r"
| "run_handler cx ProxyHijack r = proxyHijack (ctx_cluster cx) r"
| "run_handler cx GetNetworks r = getNetworks (ctx_cluster cx) (ctx_env cx) r"
| "run_handler cx GetNetwork r = getNetwork (ctx_cluster cx) r"
| "run_handler cx GetVolumes r = getVolumes (ctx_cluster cx) (ctx_env cx) r"
| "run_handler cx GetVolume r = getVolume (ctx_cluster cx) r"
| "run_handler cx PostCommit r = postCommit (ctx_cluster cx) r"
| "run_handler cx PostImagesCreate r = postImagesCreate (ctx_cluster cx) (ctx_decoder cx) (ctx_zero_auth cx) r"
| "run_handler cx PostImagesLoad r = postImagesLoad (ctx_cluster cx) r"
| "run_handler cx ProxyImagePush r = proxyImagePush (ctx_cluster cx) r"
| "run_handler cx PostTagImage r = postTagImage (ctx_cluster cx) r"
| "run_handler cx PostContainersCreate r = postContainersCreate (ctx_cluster cx) (ctx_decoder cx) r"
| "run_handler cx ProxyContainerAndForceRefresh r = proxyContainerAndForceRefresh (ctx_cluster cx) r"
| "run_handler cx PostRenameContainer r = postRenameContainer (ctx_cluster cx) r"
| "run_handler cx PostContainersStart r = postContainersStart (ctx_cluster cx) (ctx_decoder cx) r"
| "run_handler cx PostContainersExec r = postContainersExec (ctx_cluster cx) (ctx_decoder cx) r"
| "run_handler cx PostExecStart r = postExecStart (ctx_cluster cx) r"
| "run_handler cx PostNetworksCreate r = postNetworksCreate (ctx_cluster cx) (ctx_decoder cx) r"
| "run_handler cx ProxyNetworkConnect r = proxyNetworkConnect (ctx_cluster cx) (ctx_decoder cx) r"
| "run_handler cx PostScale r = postScale (ctx_cluster cx) (ctx_decoder cx) r"
| "run_handler cx NetworkDisconnect' r = networkDisconnect (ctx_cluster cx) (ctx_decoder cx) r"
| "run_handler cx PostVolumesCreate r = postVolumesCreate (ctx_cluster cx) (ctx_decoder cx) r"
| "run_handler cx DeleteContainers r = deleteContainers (ctx_cluster cx) r"
| "run_handler cx DeleteImages r = deleteImages (ctx_cluster cx) r"
| "run_handler cx DeleteNetworks r = deleteNetworks (ctx_cluster cx) r"
| "run_handler cx DeleteVolumes r = deleteVolumes (ctx_cluster cx) r"
| "run_handler cx OptionsHandler r = optionsHandler"
| "run_handler cx GetVersion r = getVersion (ctx_build cx)"
| "run_handler cx GetEvents r = ret (events_replies (ctx_written cx r) r (ctx_events cx))"
| "run_handler cx PostBuild r = postBuild (ctx_cluster cx) (ctx_decoder cx) r"

definition writeCorsHeaders :: "reply list" where
  "writeCorsHeaders =
     [AddHeader ''Access-Control-Allow-Origin'' ''*'',
      AddHeader ''Access-Control-Allow-Headers'' ''Origin, X-Requested-With, Content-Type, Accept'',
      AddHeader ''Access-Control-Allow-Methods'' ''GET, POST, DELETE, PUT, OPTIONS, HEAD'']"

text \<open>The function that wraps a handler.\<close>

definition wrap :: "bool \<Rightarrow> 's api_context \<Rightarrow> api_handler \<Rightarrow> Request \<Rightarrow> ('s, reply list) op" where
  "wrap enableCors cx h r =
     and_then (run_handler (cx\<lparr>ctx_env := (ctx_env cx)\<lparr>apiVersion := Var r ''version''\<rparr>\<rparr>) h r) (\<lambda>rs.
     ret ((if enableCors then writeCorsHeaders else []) @ rs))"

text \<open>
  The router: \<open>redirect\<close> is where \<open>mux\<close> sends a client whose path is not in canonical form. A request without a route gets status 404.
\<close>

definition serve ::
    "route list \<Rightarrow> (Request \<Rightarrow> string option) \<Rightarrow> bool \<Rightarrow> 's api_context \<Rightarrow> string \<Rightarrow> Request \<Rightarrow> ('s, reply list) op" where
  "serve rts redirect enableCors cx method r =
     (case redirect r of
        Some location \<Rightarrow> ret [AddHeader ''Location'' location, WriteHeader 301]
      | None \<Rightarrow>
          (case router_match rts method (r_Path r) of
             None \<Rightarrow> ret (httpError ''404 page not found'' 404)
           | Some (vars, h) \<Rightarrow> wrap enableCors cx h (r\<lparr>r_Vars := vars\<rparr>)))"

text \<open>The dispatcher of the server.\<close>

definition dispatcher_ServeHTTP :: "(Request \<Rightarrow> ('s, reply list) op) option \<Rightarrow> Request \<Rightarrow> ('s, reply list) op" where
  "dispatcher_ServeHTTP h r =
     (case h of None \<Rightarrow> ret (httpError ''No dispatcher defined'' 500) | Some h \<Rightarrow> h r)"

text \<open>
  A replica serves three paths itself and forwards everything else to the primary; \<open>tunnel\<close> is the raw connection.
\<close>

definition HasSuffix :: "string \<Rightarrow> string \<Rightarrow> bool" where
  "HasSuffix s suf = HasPrefix (rev s) (rev suf)"

definition localRoutes :: "string list" where
  "localRoutes = [''/_ping'', ''/info'', ''/debug'']"

definition replica_ServeHTTP ::
    "(Request \<Rightarrow> ('s, reply list) op) \<Rightarrow> (string \<Rightarrow> Request \<Rightarrow> ('s, go_error option result) op) \<Rightarrow> string \<Rightarrow> Request \<Rightarrow> ('s, reply list) op" where
  "replica_ServeHTTP h tunnel primary r =
     (if list_ex (HasSuffix (r_Path r)) localRoutes then h r
      else if primary = [] then ret (httpError ''No elected primary cluster manager'' 500)
      else
        let parts = SplitN2 primary ''://''; addr = (if length parts = 2 then parts ! 1 else primary);
            failed = (\<lambda>err. httpError (''Unable to reach primary cluster manager ('' @ Error err @ ''): '' @ primary) 500)
        in and_then (tunnel addr r) (\<lambda>res. ret (case res of
             Inl err \<Rightarrow> failed err
           | Inr None \<Rightarrow> [Hijacked addr]
           | Inr (Some err) \<Rightarrow> Hijacked addr # failed err)))"

text \<open>The protocol and address of a host that the server listens on, or an error.\<close>

definition listen_address :: "string \<Rightarrow> (string \<times> string) result" where
  "listen_address host =
     (let parts = SplitN2 host ''://'';
          parts = (if length parts = 1 then ''tcp'' # parts else parts)
      in if parts ! 0 = ''unix'' \<or> parts ! 0 = ''tcp'' then Inr (parts ! 0, parts ! 1)
         else Inl (errorf (''unsupported protocol: '' @ quoted (parts ! 0))))"

subsection \<open>No two routes of a method match the same path\<close>

text \<open>
  The fixed text at the start of a template and, reversed, at its end, and for a template with a variable the length of the
  shortest path it matches.
\<close>

definition parts :: "string \<Rightarrow> string \<times> string \<times> nat option" where
  "parts tpl = (case braces tpl of
     None \<Rightarrow> (tpl, rev tpl, None) | Some (pre, _, _, suf) \<Rightarrow> (pre, rev suf, Some (length pre + length suf)))"

fun comparable :: "string \<Rightarrow> string \<Rightarrow> bool" where
  "comparable (x # xs) (y # ys) \<longleftrightarrow> x = y \<and> comparable xs ys"
| "comparable _ _ \<longleftrightarrow> True"

text \<open>Whether there can be a path that both templates match.\<close>

fun clash :: "string \<times> string \<times> nat option \<Rightarrow> string \<times> string \<times> nat option \<Rightarrow> bool" where
  "clash (h, t, n) (h', t', n') \<longleftrightarrow>
     comparable h h' \<and> comparable t t' \<and>
     (case (n, n') of (None, Some k) \<Rightarrow> k \<le> length h | (Some k, None) \<Rightarrow> k \<le> length h' | _ \<Rightarrow> True)"

text \<open>The start of a template: a slash, then no version.\<close>

definition plain_start :: "string \<Rightarrow> bool" where
  "plain_start tpl \<longleftrightarrow>
     (let h = fst (parts tpl) in 3 \<le> length h \<and> h ! 0 = CHR ''/'' \<and> \<not> is_digit (h ! 1) \<and> \<not> is_digit (h ! 2))"

lemma all_patterns_any:
  "list_all (\<lambda>(_, mappings). list_all (\<lambda>(tpl, _).
     plain_start tpl \<and> (case braces tpl of None \<Rightarrow> True | Some (_, _, patt, _) \<Rightarrow> patt = ''.*'')) mappings) routes"
  by code_simp

lemma routes_disjoint:
  "list_all (\<lambda>(m, mappings). m \<noteq> ''OPTIONS'' \<and> sorted_wrt (\<lambda>x y. \<not> clash x y) (map (parts \<circ> fst) mappings)) routes"
  by code_simp

lemma routes_methods: "distinct (map fst routes)"
  by code_simp

lemma comparable_prefix: "comparable a b" if "a @ x = b @ y"
  using that by (induction a b rule: comparable.induct) auto

lemma template_vars_parts:
  assumes "template_vars tpl p = Some vars" "parts tpl = (h, t, n)"
  shows "\<exists>x. p = h @ x" "\<exists>x. rev p = t @ x" "case n of None \<Rightarrow> length p = length h | Some k \<Rightarrow> k \<le> length p"
proof -
  consider "braces tpl = None" "p = tpl" | pre name patt suf x where "braces tpl = Some (pre, name, patt, suf)" "p = pre @ x @ suf"
    using assms(1) by (auto simp: template_vars_def Let_def split: option.split_asm if_split_asm prod.split_asm)
  then have "(\<exists>x. p = h @ x) \<and> (\<exists>x. rev p = t @ x) \<and> (case n of None \<Rightarrow> length p = length h | Some k \<Rightarrow> k \<le> length p)"
  proof cases
    case 1
    with assms(2) show ?thesis by (auto simp: parts_def)
  next
    case 2
    with assms(2) show ?thesis by (auto simp: parts_def)
  qed
  then show "\<exists>x. p = h @ x" "\<exists>x. rev p = t @ x" "case n of None \<Rightarrow> length p = length h | Some k \<Rightarrow> k \<le> length p"
    by blast+
qed

lemma both_match_clash:
  assumes "template_vars tpl p = Some vs" "template_vars tpl' p = Some vs'"
  shows "clash (parts tpl) (parts tpl')"
proof -
  obtain h t n h' t' n' where parts: "parts tpl = (h, t, n)" "parts tpl' = (h', t', n')" by (metis prod_cases3)
  note 1 = template_vars_parts [OF assms(1) parts(1)] and 2 = template_vars_parts [OF assms(2) parts(2)]
  from 1(1) 2(1) obtain x y where "h @ x = h' @ y" by metis
  moreover from 1(2) 2(2) obtain x y where "t @ x = t' @ y" by metis
  moreover have "case (n, n') of (None, Some k) \<Rightarrow> k \<le> length h | (Some k, None) \<Rightarrow> k \<le> length h' | _ \<Rightarrow> True"
    using 1(3) 2(3) by (auto split: option.splits)
  ultimately show ?thesis unfolding parts by (simp add: comparable_prefix)
qed

lemma plain_start_match:
  assumes "template_vars tpl p = Some vs" "plain_start tpl"
  shows "3 \<le> length p" "p ! 0 = CHR ''/''" "\<not> is_digit (p ! 1)" "\<not> is_digit (p ! 2)"
proof -
  obtain h t n where parts: "parts tpl = (h, t, n)" by (metis prod_cases3)
  obtain x where "p = h @ x" using template_vars_parts(1) [OF assms(1) parts] by blast
  moreover have "3 \<le> length h" using assms(2) parts by (simp add: plain_start_def)
  ultimately show "3 \<le> length p" "p ! 0 = CHR ''/''" "\<not> is_digit (p ! 1)" "\<not> is_digit (p ! 2)"
    using assms(2) parts by (auto simp: plain_start_def nth_append)
qed

subsection \<open>Versions\<close>

lemma is_version_shape:
  assumes "is_version v"
  shows "\<exists>i. 0 < i \<and> Suc i < length v \<and> (\<forall>j < length v. j \<noteq> i \<longrightarrow> is_digit (v ! j))"
proof -
  obtain i where i: "i < length v" "0 < i" "list_all is_digit (take i v)" "drop (Suc i) v \<noteq> []" "list_all is_digit (drop (Suc i) v)"
    using assms by (auto simp: is_version_def list_ex_iff)
  have "is_digit (v ! j)" if "j < length v" "j \<noteq> i" for j
  proof (cases "j < i")
    case True
    with i(1,3) have "is_digit (take i v ! j)" by (simp add: list_all_length)
    with True show ?thesis by simp
  next
    case False
    with that have "Suc i \<le> j" by simp
    then obtain k where k: "j = Suc i + k" using le_Suc_ex by blast
    with i(5) that have "is_digit (drop (Suc i) v ! k)" by (simp add: list_all_length del: nth_drop)
    with k that show ?thesis by simp
  qed
  with i show ?thesis by (intro exI [of _ i]) auto
qed

lemma not_digit_slash: "\<not> is_digit (CHR ''/'')"
  by code_simp

text \<open>What follows a version starts with a slash and no digit, so a version cannot be cut off earlier.\<close>

lemma version_not_longer:
  assumes "is_version v" "is_version v'" "v @ q = v' @ q'" "q ! 0 = CHR ''/''" "\<not> is_digit (q ! 1)"
  shows "length v' \<le> length v"
proof (rule ccontr)
  assume "\<not> length v' \<le> length v"
  then have longer: "length v < length v'" by simp
  have nth: "v' ! (length v + k) = q ! k" if "length v + k < length v'" for k
    using assms(3) that by (metis nth_append nth_append_length_plus)
  obtain i where i: "Suc i < length v'" "\<forall>j < length v'. j \<noteq> i \<longrightarrow> is_digit (v' ! j)"
    using is_version_shape [OF assms(2)] by blast
  have "\<not> is_digit (v' ! length v)" using nth [of 0] longer assms(4) not_digit_slash by simp
  with i(2) longer have "i = length v" by blast
  with i have "is_digit (v' ! (length v + 1))" by simp
  with nth [of 1] i(1) \<open>i = length v\<close> assms(5) show False by simp
qed

lemma version_unique:
  assumes "is_version v" "is_version v'" "v @ q = v' @ q'" "q ! 0 = CHR ''/''" "\<not> is_digit (q ! 1)"
    and "q' ! 0 = CHR ''/''" "\<not> is_digit (q' ! 1)"
  shows "v = v' \<and> q = q'"
proof -
  have "length v = length v'"
    using version_not_longer [OF assms(1-5)] version_not_longer [OF assms(2,1) assms(3) [symmetric] assms(6,7)] by simp
  with assms(3) show ?thesis by simp
qed

lemma versioned_vars_Some:
  assumes "versioned_vars tpl p = Some vs"
  shows "\<exists>v q vars. p = ''/v'' @ v @ q \<and> is_version v \<and> template_vars tpl q = Some vars \<and> vs = (''version'', v) # vars"
proof -
  let ?q = "drop 2 p"
  have pre: "HasPrefix p ''/v''" using assms by (simp add: versioned_vars_def split: if_split_asm)
  then have p: "p = ''/v'' @ ?q" by (auto simp: HasPrefix_iff)
  from assms pre obtain i vars where i: "is_version (take i ?q)" "template_vars tpl (drop i ?q) = Some vars"
    "vs = (''version'', take i ?q) # vars"
    by (auto simp: versioned_vars_def Let_def dest!: first_such_Some split: option.split_asm)
  have "p = ''/v'' @ take i ?q @ drop i ?q" using p unfolding append_take_drop_id .
  with i show ?thesis by blast
qed

lemma versioned_vars_intro:
  assumes "plain_start tpl" "is_version v" "template_vars tpl q = Some vars"
  shows "versioned_vars tpl (''/v'' @ v @ q) = Some ((''version'', v) # vars)"
proof -
  let ?q = "v @ q" and ?P = "\<lambda>i. is_version (take i (v @ q)) \<and> template_vars tpl (drop i (v @ q)) \<noteq> None"
  note q = plain_start_match [OF assms(3,1)]
  have "first_such ?P (rev [0..<length ?q]) = Some (length v)"
  proof (rule first_such_unique)
    show "length v \<in> set (rev [0..<length ?q])" using q(1) by auto
    show "?P (length v)" using assms by simp
  next
    fix i assume i: "?P i" and "i \<in> set (rev [0..<length ?q])"
    then have len: "length (take i ?q) = i" by simp
    from i obtain vs where "template_vars tpl (drop i ?q) = Some vs" by blast
    note q' = plain_start_match [OF this assms(1)]
    have "take i ?q = v \<and> drop i ?q = q"
      by (rule version_unique [OF conjunct1 [OF i] assms(2) append_take_drop_id q'(2,3) q(2,3)])
    with len show "i = length v" by metis
  qed
  then show ?thesis using assms(3) by (simp add: versioned_vars_def HasPrefix_def)
qed

lemma versioned_not_plain:
  assumes "versioned_vars tpl p = Some vs" "template_vars tpl' p = Some vs'" "plain_start tpl'"
  shows False
proof -
  obtain v q where "p = ''/v'' @ v @ q" "is_version v" using versioned_vars_Some [OF assms(1)] by blast
  with is_version_shape [of v] have "is_digit (p ! 2)" by (auto simp: nth_append)
  with plain_start_match(4) [OF assms(2,3)] show False by simp
qed

subsection \<open>One route at most\<close>

lemma routes_entry:
  assumes "(m, mappings) \<in> set routes" "(tpl, h) \<in> set mappings"
  shows "plain_start tpl" "m \<noteq> ''OPTIONS''"
  using all_patterns_any routes_disjoint assms by (auto simp: list_all_iff split: prod.split_asm) blast+

lemma sorted_wrt_pair:
  assumes "sorted_wrt (\<lambda>x y. \<not> R (f x) (f y)) xs" "x \<in> set xs" "y \<in> set xs" "R (f x) (f y)" "R (f y) (f x)"
  shows "x = y"
  using assms by (induction xs) auto

lemma same_entry:
  assumes "(m, mappings) \<in> set routes" "(m, mappings') \<in> set routes" "(tpl, h) \<in> set mappings" "(tpl', h') \<in> set mappings'"
    and "template_vars tpl p = Some vs" "template_vars tpl' p = Some vs'"
  shows "tpl = tpl' \<and> h = h'"
proof -
  have "mappings = mappings'" using routes_methods assms(1,2) by (rule eq_key_imp_eq_value)
  moreover have "sorted_wrt (\<lambda>x y. \<not> clash (parts (fst x)) (parts (fst y))) mappings"
    using routes_disjoint assms(1) by (auto simp: list_all_iff sorted_wrt_map)
  ultimately have "(tpl, h) = (tpl', h')"
    using assms(3,4) both_match_clash [OF assms(5,6)] both_match_clash [OF assms(6,5)]
    by (intro sorted_wrt_pair [where R = clash and f = "\<lambda>x. parts (fst x)" and xs = mappings]) auto
  then show ?thesis by simp
qed

lemma in_setupPrimaryRouter:
  "(ver, m, tpl, h) \<in> set (setupPrimaryRouter cors) \<longleftrightarrow>
     (\<exists>m' mappings h'. (m', mappings) \<in> set routes \<and> (tpl, h') \<in> set mappings \<and>
       (m = m' \<and> h = h' \<or> cors \<and> m = ''OPTIONS'' \<and> h = OptionsHandler))"
  unfolding setupPrimaryRouter_def register_def by (cases ver) (auto split: if_splits, blast+)

lemma route_unique:
  assumes "rt \<in> set (setupPrimaryRouter cors)" "rt' \<in> set (setupPrimaryRouter cors)" "m \<noteq> ''OPTIONS''"
    and "route_vars m p rt = Some vs" "route_vars m p rt' = Some vs'"
  shows "rt = rt'"
proof -
  obtain ver tpl h ver' tpl' h' where rt: "rt = (ver, m, tpl, h)" "rt' = (ver', m, tpl', h')"
    using assms(4,5) by (cases rt; cases rt') (auto split: if_split_asm)
  obtain ms where ms: "(m, ms) \<in> set routes" "(tpl, h) \<in> set ms"
    using assms(1,3) unfolding rt in_setupPrimaryRouter by blast
  obtain ms' where ms': "(m, ms') \<in> set routes" "(tpl', h') \<in> set ms'"
    using assms(2,3) unfolding rt in_setupPrimaryRouter by blast
  note plain = routes_entry(1) [OF ms] routes_entry(1) [OF ms']
  note same = same_entry [OF ms(1) ms'(1) ms(2) ms'(2)]
  show ?thesis
  proof (cases ver)
    case True
    with assms(4) rt have v: "versioned_vars tpl p = Some vs" by simp
    with assms(5) rt plain(2) have "ver'" by (auto dest: versioned_not_plain)
    with assms(5) rt have v': "versioned_vars tpl' p = Some vs'" by simp
    obtain x q vars where 1: "p = ''/v'' @ x @ q" "is_version x" "template_vars tpl q = Some vars"
      using versioned_vars_Some [OF v] by blast
    obtain x' q' vars' where 2: "p = ''/v'' @ x' @ q'" "is_version x'" "template_vars tpl' q' = Some vars'"
      using versioned_vars_Some [OF v'] by blast
    have "x @ q = x' @ q'" using 1(1) 2(1) by simp
    from version_unique [OF 1(2) 2(2) this] plain_start_match(2,3) [OF 1(3) plain(1)] plain_start_match(2,3) [OF 2(3) plain(2)]
    have "q = q'" by blast
    with same 1(3) 2(3) rt True \<open>ver'\<close> show ?thesis by blast
  next
    case False
    with assms(4) rt have v: "template_vars tpl p = Some vs" by simp
    with assms(5) rt plain(1) have "\<not> ver'" by (auto dest: versioned_not_plain)
    with assms(5) rt have "template_vars tpl' p = Some vs'" by simp
    with same v rt False \<open>\<not> ver'\<close> show ?thesis by blast
  qed
qed

lemma router_match_Some:
  "router_match rts m p = Some (vs, h) \<Longrightarrow> \<exists>rt \<in> set rts. route_vars m p rt = Some vs \<and> h = snd (snd (snd rt))"
  by (induction rts) (auto split: option.split_asm)

lemma router_match_None: "router_match rts m p = None \<longleftrightarrow> (\<forall>rt \<in> set rts. route_vars m p rt = None)"
  by (induction rts) (auto split: option.splits)

lemma router_match_unique:
  assumes "rt \<in> set rts" "set rts = set (setupPrimaryRouter cors)" "m \<noteq> ''OPTIONS''" "route_vars m p rt = Some vs"
  shows "router_match rts m p = Some (vs, snd (snd (snd rt)))"
proof (cases "router_match rts m p")
  case None
  with assms show ?thesis by (auto simp: router_match_None)
next
  case (Some found)
  then obtain vs' h rt' where rt': "found = (vs', h)" "rt' \<in> set rts" "route_vars m p rt' = Some vs'" "h = snd (snd (snd rt'))"
    by (cases found) (auto dest!: router_match_Some)
  then have "rt' = rt" using route_unique assms by metis
  with rt' assms(4) Some show ?thesis by simp
qed

text \<open>
  C28. Whatever order the routes are registered in, a request whose path matches an entry of the table for its method, with or without a
  version in front, is served by the handler of that entry, with the text in place of the variable and the version as the
  variables of the route: no other entry takes it.
\<close>

theorem route_serves:
  assumes "set rts = set (setupPrimaryRouter cors)" "(m, mappings) \<in> set routes" "(tpl, h) \<in> set mappings"
    and "template_vars tpl q = Some vars" "redirect r = None"
    and "r_Path r = q \<and> vs = vars \<or> (\<exists>v. is_version v \<and> r_Path r = ''/v'' @ v @ q \<and> vs = (''version'', v) # vars)"
  shows "serve rts redirect cors cx m r = wrap cors cx h (r\<lparr>r_Vars := vs\<rparr>)"
proof -
  note entry = routes_entry [OF assms(2,3)]
  have rt: "(ver, m, tpl, h) \<in> set rts" for ver
    unfolding assms(1) in_setupPrimaryRouter using assms(2,3) by blast
  have "\<exists>ver. route_vars m (r_Path r) (ver, m, tpl, h) = Some vs"
    using assms(6)
  proof
    assume "r_Path r = q \<and> vs = vars"
    with assms(4) have "route_vars m (r_Path r) (False, m, tpl, h) = Some vs" by simp
    then show ?thesis ..
  next
    assume "\<exists>v. is_version v \<and> r_Path r = ''/v'' @ v @ q \<and> vs = (''version'', v) # vars"
    then obtain v where v: "is_version v" "r_Path r = ''/v'' @ v @ q" "vs = (''version'', v) # vars" by blast
    with versioned_vars_intro [OF entry(1) v(1) assms(4)] have "route_vars m (r_Path r) (True, m, tpl, h) = Some vs" by simp
    then show ?thesis ..
  qed
  then obtain ver where "route_vars m (r_Path r) (ver, m, tpl, h) = Some vs" ..
  from router_match_unique [OF rt assms(1) entry(2) this] assms(5) show ?thesis by (simp add: serve_def)
qed

lemma options_only:
  assumes "set rts = set (setupPrimaryRouter cors)" "router_match rts ''OPTIONS'' p = Some (vs, h)"
  shows "h = OptionsHandler"
proof -
  obtain rt where rt: "rt \<in> set rts" "route_vars ''OPTIONS'' p rt = Some vs" "h = snd (snd (snd rt))"
    using router_match_Some [OF assms(2)] by blast
  obtain ver m tpl h' where "rt = (ver, m, tpl, h')" by (cases rt)
  with rt have "(ver, ''OPTIONS'', tpl, h) \<in> set (setupPrimaryRouter cors)" by (auto simp: assms(1) split: if_split_asm)
  then show ?thesis unfolding in_setupPrimaryRouter using routes_entry(2) by blast
qed

lemma router_match_same:
  assumes "set rts = set rts'"
  shows "router_match rts m p = None \<longleftrightarrow> router_match rts' m p = None"
  using assms by (simp add: router_match_None)

text \<open>
  C29. The table is a Go map, over which the registration ranges in an order that changes from run to run, and the router takes the first
  route that matches. The answer to a request is the same for every order, for \<open>OPTIONS\<close> requests too, which many routes
  match.
\<close>

theorem routes_order_irrelevant:
  assumes "set rts = set (setupPrimaryRouter cors)"
  shows "serve rts redirect cors cx m r = serve (setupPrimaryRouter cors) redirect cors cx m r"
proof (cases "router_match rts m (r_Path r)")
  case None
  moreover from None have "router_match (setupPrimaryRouter cors) m (r_Path r) = None" using router_match_same [OF assms] by blast
  ultimately show ?thesis by (cases "redirect r") (simp_all add: serve_def)
next
  case (Some found)
  obtain vs h where found: "found = (vs, h)" by (cases found)
  have "router_match (setupPrimaryRouter cors) m (r_Path r) \<noteq> None" using Some unfolding router_match_same [OF assms, symmetric] by simp
  then obtain vs' h' where some': "router_match (setupPrimaryRouter cors) m (r_Path r) = Some (vs', h')" by fastforce
  show ?thesis
  proof (cases "m = ''OPTIONS''")
    case True
    then have "h = OptionsHandler" "h' = OptionsHandler"
      using options_only [OF assms] options_only [OF refl] Some some' found by blast+
    then show ?thesis using Some some' found by (auto simp: serve_def wrap_def optionsHandler_def split: option.splits)
  next
    case False
    obtain rt where "rt \<in> set rts" "route_vars m (r_Path r) rt = Some vs" "h = snd (snd (snd rt))"
      using router_match_Some Some found by blast
    then have "router_match (setupPrimaryRouter cors) m (r_Path r) = Some found"
      using router_match_unique [OF _ refl False] assms found by metis
    with Some show ?thesis by (cases "redirect r") (simp_all add: serve_def)
  qed
qed

theorem routes_order_irrelevant_witness:
  "\<forall>cx :: demo_daemon cstate api_context. serve (rev (setupPrimaryRouter True)) (\<lambda>_. None) True cx ''GET'' (demo_request ''web'') =
     serve (setupPrimaryRouter True) (\<lambda>_. None) True cx ''GET'' (demo_request ''web'')"
  by (intro allI routes_order_irrelevant) simp

lemma demo_route: "(''GET'', snd (routes ! 1)) \<in> set routes" "(''/containers/{name:.*}/json'', GetContainerJSON) \<in> set (snd (routes ! 1))"
  "template_vars ''/containers/{name:.*}/json'' ''/containers/web/json'' = Some [(''name'', ''web'')]" "is_version ''1.24''"
  by (code_simp, code_simp, code_simp, code_simp)

theorem route_serves_witness:
  "\<forall>cx :: demo_daemon cstate api_context.
     serve (rev (setupPrimaryRouter False)) (\<lambda>_. None) False cx ''GET'' ((demo_request ''web'')\<lparr>r_Path := ''/v1.24/containers/web/json''\<rparr>) =
       wrap False cx GetContainerJSON ((demo_request ''web'')\<lparr>r_Path := ''/v1.24/containers/web/json'',
         r_Vars := [(''version'', ''1.24''), (''name'', ''web'')]\<rparr>)"
proof
  fix cx :: "demo_daemon cstate api_context"
  let ?r = "(demo_request ''web'')\<lparr>r_Path := ''/v1.24/containers/web/json''\<rparr>"
  have "\<exists>v. is_version v \<and> r_Path ?r = ''/v'' @ v @ ''/containers/web/json'' \<and>
      [(''version'', ''1.24''), (''name'', ''web'')] = (''version'', v) # [(''name'', ''web'')]"
    by (rule exI [of _ "''1.24''"]) (simp add: demo_route(4))
  from route_serves [OF set_rev demo_route(1-3) _ disjI2 [OF this], where cx = cx and redirect = "\<lambda>_. None" and cors = False]
  show "serve (rev (setupPrimaryRouter False)) (\<lambda>_. None) False cx ''GET'' ?r =
      wrap False cx GetContainerJSON ((demo_request ''web'')\<lparr>r_Path := ''/v1.24/containers/web/json'',
         r_Vars := [(''version'', ''1.24''), (''name'', ''web'')]\<rparr>)" by simp
qed

subsection \<open>Replicas\<close>

text \<open>
  A replica tells its own paths by their end: a request about a network, a volume or an image called \<open>info\<close> is not forwarded to the
  primary, and the pages of the profiler are.
\<close>

lemma replica_info_suffix:
  "replica_ServeHTTP h tunnel primary (r\<lparr>r_Path := p @ ''/info''\<rparr>) = h (r\<lparr>r_Path := p @ ''/info''\<rparr>)"
  by (simp add: replica_ServeHTTP_def localRoutes_def HasSuffix_def HasPrefix_def)

lemma replica_profiler_forwarded:
  "tunnel primary (r\<lparr>r_Path := ''/debug/pprof/''\<rparr>) s = Some (Inr None, s') \<Longrightarrow> primary \<noteq> [] \<Longrightarrow> str_Index primary ''://'' = None \<Longrightarrow>
     replica_ServeHTTP h tunnel primary (r\<lparr>r_Path := ''/debug/pprof/''\<rparr>) s = Some ([Hijacked primary], s')"
  by (simp add: replica_ServeHTTP_def localRoutes_def HasSuffix_def HasPrefix_def and_then_def ret_def SplitN2_def Let_def)

end
