(* ===== verification/Api_Replies.thy ===== *)
theory Api_Replies
  imports Api_Routes
begin

section \<open>The form of an answer\<close>

text \<open>
  What a handler does to the client's connection: header lines, then at most one status, then the body; or the connection is
  handed over, and an error after that is written to a connection that no longer takes it. Three handlers do not always keep to this: the start
  of a command without the header \<open>Connection\<close> answers twice (\<open>exec_start_twice\<close>), a build whose output breaks off answers with an error
  behind the output, and an event can come before the header of its answer.
\<close>

subsection \<open>Answers\<close>

definition is_write :: "reply \<Rightarrow> bool" where
  "is_write x = (case x of Write _ \<Rightarrow> True | _ \<Rightarrow> False)"

fun well_formed :: "nat set \<Rightarrow> reply list \<Rightarrow> bool" where
  "well_formed D [] \<longleftrightarrow> True"
| "well_formed D (AddHeader k v # rs) \<longleftrightarrow> well_formed D rs"
| "well_formed D (WriteHeader c # rs) \<longleftrightarrow> c \<in> D \<and> list_all is_write rs"
| "well_formed D (Write b # rs) \<longleftrightarrow> list_all is_write rs"
| "well_formed D (Hijacked a # rs) \<longleftrightarrow> rs = [] \<or> (\<exists>msg c. rs = httpError msg c)"

text \<open>The status codes that the API itself uses.\<close>

definition api_codes :: "nat set" where
  "api_codes = {200, 201, 204, 301, 400, 404, 409, 500, 501}"

text \<open>The statuses of the daemons' responses.\<close>

definition daemon_codes :: "'s Backend \<Rightarrow> nat set" where
  "daemon_codes be = {c. \<exists>spec r s resp s'. be_Do be spec r s = Some (Inr resp, s') \<and> hr_Status resp = c}"

definition answers :: "'s Backend \<Rightarrow> ('s, reply list) op \<Rightarrow> bool" where
  "answers be m \<longleftrightarrow> (\<forall>s rs s'. m s = Some (rs, s') \<longrightarrow> well_formed (api_codes \<union> daemon_codes be) rs)"

text \<open>The result of forwarding: an answer; or an error, with nothing written or the connection handed over.\<close>

definition forwards :: "'s Backend \<Rightarrow> ('s, reply list \<times> go_error option) op \<Rightarrow> bool" where
  "forwards be m \<longleftrightarrow>
     (\<forall>s rs err s'. m s = Some ((rs, err), s') \<longrightarrow>
        (if err = None then well_formed (api_codes \<union> daemon_codes be) rs else rs = [] \<or> (\<exists>a. rs = [Hijacked a])))"

subsection \<open>Rules\<close>

named_theorems answer_rules "operations whose result is an answer"

lemma well_formed_httpError [simp]: "well_formed D (httpError msg c) \<longleftrightarrow> c \<in> D"
  by (simp add: httpError_def is_write_def)

lemma well_formed_json [simp]: "well_formed D (json b)"
  by (simp add: json_def)

lemma well_formed_created [simp]: "well_formed D (created i) \<longleftrightarrow> 201 \<in> D"
  by (simp add: created_def is_write_def)

lemma well_formed_copyHeader [simp]: "well_formed D (copyHeader hs @ rs) \<longleftrightarrow> well_formed D rs"
proof -
  have "well_formed D (map (AddHeader k) vs @ rs) \<longleftrightarrow> well_formed D rs" for k vs rs by (induction vs) auto
  then show ?thesis by (induction hs) (auto simp: copyHeader_def)
qed

lemma well_formed_writes: "list_all is_write rs \<Longrightarrow> well_formed D rs"
  by (cases rs) (auto simp: is_write_def split: reply.splits)

lemma well_formed_cors [simp]: "well_formed D (writeCorsHeaders @ rs) \<longleftrightarrow> well_formed D rs"
  by (simp add: writeCorsHeaders_def)

lemma api_code [simp]: "c \<in> api_codes \<longleftrightarrow> c \<in> {200, 201, 204, 301, 400, 404, 409, 500, 501}"
  by (simp add: api_codes_def)

lemma answers_ret [answer_rules]: "well_formed (api_codes \<union> daemon_codes be) rs \<Longrightarrow> answers be (ret rs)"
  by (simp add: answers_def ret_def)

lemma answers_then [answer_rules]: "(\<And>x. answers be (f x)) \<Longrightarrow> answers be (and_then m f)"
  unfolding answers_def and_then_Some by blast

lemma answers_or_panic [answer_rules]: "(\<And>x. answers be (f x)) \<Longrightarrow> answers be (or_panic v f)"
  by (cases v) (simp_all add: or_panic_def answers_def panic_def)

lemma answers_if [answer_rules]: "answers be m \<Longrightarrow> answers be n \<Longrightarrow> answers be (if b then m else n)"
  by simp

lemma answers_option [answer_rules]: "answers be m \<Longrightarrow> (\<And>x. answers be (f x)) \<Longrightarrow> answers be (case v of None \<Rightarrow> m | Some x \<Rightarrow> f x)"
  by (cases v) simp_all

lemma answers_sum [answer_rules]: "(\<And>x. v = Inl x \<Longrightarrow> answers be (f x)) \<Longrightarrow> (\<And>x. v = Inr x \<Longrightarrow> answers be (g x)) \<Longrightarrow> answers be (case v of Inl x \<Rightarrow> f x | Inr x \<Rightarrow> g x)"
  by (cases v) simp_all

lemma answers_prod [answer_rules]: "(\<And>x y. answers be (f x y)) \<Longrightarrow> answers be (case v of (x, y) \<Rightarrow> f x y)"
  by (cases v) simp

lemma answers_Let [answer_rules]: "(\<And>x. answers be (f x)) \<Longrightarrow> answers be (Let v f)"
  by (simp add: Let_def)

lemma answers_with_container [answer_rules]: "(\<And>name k. answers be (f name k)) \<Longrightarrow> answers be (with_container be vars f)"
  unfolding with_container_def by (intro answer_rules) simp_all

lemma forwardsD: "forwards be m \<Longrightarrow> m s = Some ((rs, err), s') \<Longrightarrow>
    if err = None then well_formed (api_codes \<union> daemon_codes be) rs else rs = [] \<or> (\<exists>a. rs = [Hijacked a])"
  unfolding forwards_def by blast

lemma forwards_well_formed: "forwards be m \<Longrightarrow> m s = Some ((rs, err), s') \<Longrightarrow> well_formed (api_codes \<union> daemon_codes be) rs"
  using forwardsD [of be m s rs err s'] by (cases err) auto

lemma forwards_proxyAsync [answer_rules]: "forwards be (proxyAsync be spec r callback)"
  unfolding forwards_def
proof (intro allI impI)
  fix s rs err s'
  assume run: "proxyAsync be spec r callback s = Some ((rs, err), s')"
  show "if err = None then well_formed (api_codes \<union> daemon_codes be) rs else rs = [] \<or> (\<exists>a. rs = [Hijacked a])"
  proof (cases "http_client be spec s")
    case (Inr u)
    with run obtain res s1 where res: "be_Do be spec r s = Some (res, s1)"
      by (auto simp: proxyAsync_def and_then_def read_def split: option.split_asm)
    show ?thesis
    proof (cases res)
      case [simp]: (Inr resp)
      have "hr_Status resp \<in> daemon_codes be" using res unfolding daemon_codes_def Inr by blast
      with run res \<open>http_client be spec s = Inr u\<close> show ?thesis
        by (auto simp: proxyAsync_def and_then_def read_def ret_def is_write_def split: option.split_asm)
    qed (use run res Inr in \<open>auto simp: proxyAsync_def and_then_def read_def ret_def\<close>)
  qed (use run in \<open>auto simp: proxyAsync_def and_then_def read_def ret_def\<close>)
qed

lemma forwards_proxy [answer_rules]: "forwards be (proxy be spec r)"
  unfolding proxy_def by (rule forwards_proxyAsync)

lemma forwards_hijack [answer_rules]: "forwards be (hijack be spec r)"
  by (auto simp: forwards_def hijack_def Let_def and_then_def ret_def split: option.split_asm sum.split_asm)

lemma answers_forwarded [answer_rules]:
  assumes "forwards be m" "c \<in> api_codes"
  shows "answers be (forwarded be spec c m)"
  unfolding answers_def
proof (intro allI impI)
  fix s rs s'
  assume "forwarded be spec c m s = Some (rs, s')"
  then obtain rs0 err s1 where m: "m s = Some ((rs0, err), s1)"
    and rs: "rs = rs0 @ (case err of None \<Rightarrow> [] | Some err \<Rightarrow> httpError (Error err) c)"
    by (auto simp: forwarded_def and_then_def ret_def split: option.split_asm)
  show "well_formed (api_codes \<union> daemon_codes be) rs"
  proof (cases err)
    case (Some x)
    with forwardsD [OF assms(1) m] consider "rs0 = []" | a where "rs0 = [Hijacked a]" by auto
    then show ?thesis
    proof cases
      case 2
      have "\<exists>msg c'. httpError (Error x) c = httpError msg c'" by blast
      with 2 rs Some show ?thesis by simp
    qed (use rs Some assms(2) in \<open>simp del: api_code\<close>)
  qed (use forwardsD [OF assms(1) m] rs in simp)
qed

lemma answers_forward_only [answer_rules]: "answers be (and_then m (\<lambda>(rs, err). ret rs))" if "forwards be m"
  unfolding answers_def
proof (intro allI impI)
  fix s rs s'
  assume "and_then m (\<lambda>(rs, err). ret rs) s = Some (rs, s')"
  then obtain err s1 where "m s = Some ((rs, err), s1)" by (auto simp: and_then_def ret_def split: option.split_asm)
  with that show "well_formed (api_codes \<union> daemon_codes be) rs" by (rule forwards_well_formed)
qed

lemma answers_forward_image [answer_rules]: "answers be (forward_image be r im)"
  unfolding answers_def
proof (intro allI impI)
  fix s rs s'
  assume "forward_image be r im s = Some (rs, s')"
  then obtain err s1 where "proxy be (i_Engine im) r s = Some ((rs, err), s1)"
    by (auto simp: forward_image_def and_then_def ret_def split: option.split_asm)
  with forwards_proxy show "well_formed (api_codes \<union> daemon_codes be) rs" by (rule forwards_well_formed)
qed

lemma writes_report_calls: "list_all is_write (report_calls say calls)"
  by (auto simp: report_calls_def sendJSONMessage_def sendErrorJSONMessage_def list_all_iff is_write_def split: option.splits)


subsection \<open>Every handler\<close>

lemma answers_changing:
  "answers be (postContainersCreate be dec r)" "answers be (deleteContainers be r)" "answers be (postContainersStart be dec r)"
  "answers be (postRenameContainer be r)" "answers be (postNetworksCreate be dec r)" "answers be (postVolumesCreate be dec r)"
  "answers be (deleteNetworks be r)" "answers be (deleteVolumes be r)" "answers be (networkDisconnect be dec r)"
  "answers be (deleteImages be r)" "answers be (postTagImage be r)" "answers be (postScale be dec r)"
  unfolding postContainersCreate_def deleteContainers_def postContainersStart_def postRenameContainer_def postNetworksCreate_def
    postVolumesCreate_def deleteNetworks_def deleteVolumes_def networkDisconnect_def deleteImages_def postTagImage_def postScale_def
  by (intro answer_rules; simp add: is_write_def conflict_status_def)+

lemma answers_listing:
  "answers be (getInfo be en n st)" "answers be (getImagesJSON be en srt r)" "answers be (getContainersJSON be en srt' r)"
  "answers be (getNetworks be en r)" "answers be (getNetwork be r)" "answers be (getVolumes be en r)" "answers be (getVolume be r)"
  "answers be (getContainerJSON be marshal is_v4 r)"
  unfolding getInfo_def getImagesJSON_def getContainersJSON_def getNetworks_def getNetwork_def getVolumes_def getVolume_def getContainerJSON_def
  by (intro answer_rules; simp split: option.split)+

lemma answers_forwarding:
  "answers be (proxyContainer be r)" "answers be (proxyContainerAndForceRefresh be r)" "answers be (proxyHijack be r)"
  "answers be (postCommit be r)" "answers be (proxyNetworkConnect be dec r)" "answers be (proxyRandom be r)"
  "answers be (proxyImage be r)" "answers be (proxyImageGet be r)" "answers be (proxyImagePush be r)"
  unfolding proxyContainer_def proxyContainerAndForceRefresh_def proxyHijack_def postCommit_def proxyNetworkConnect_def proxyRandom_def
    proxyImage_def proxyImageGet_def proxyImagePush_def
  by (intro answer_rules; simp)+

lemma answers_rest:
  "answers be (postImagesCreate be dec au r)" "answers be (postImagesLoad be r)" "answers be ping" "answers be notImplementedHandler"
  "answers be optionsHandler" "answers be (getVersion b)"
  unfolding postImagesCreate_def Let_def postImagesLoad_def ping_def notImplementedHandler_def optionsHandler_def getVersion_def
  by (intro answer_rules; simp add: well_formed_writes writes_report_calls)+

lemma answers_Do:
  assumes "\<And>res. (\<And>resp. res = Inr resp \<Longrightarrow> hr_Status resp \<in> daemon_codes be) \<Longrightarrow> answers be (f res)"
  shows "answers be (and_then (be_Do be spec r) f)"
  unfolding answers_def and_then_Some
proof (intro allI impI)
  fix s rs s'
  assume "\<exists>res s1. be_Do be spec r s = Some (res, s1) \<and> f res s1 = Some (rs, s')"
  then obtain res s1 where res: "be_Do be spec r s = Some (res, s1)" "f res s1 = Some (rs, s')" by blast
  have "hr_Status resp \<in> daemon_codes be" if "res = Inr resp" for resp
    using res(1) unfolding daemon_codes_def that by blast
  with res(2) assms [of res] show "well_formed (api_codes \<union> daemon_codes be) rs" unfolding answers_def by blast
qed

lemma answers_postContainersExec: "answers be (postContainersExec be dec r)"
  unfolding postContainersExec_def
  by (rule answers_then, rule answers_option, rule answers_ret, simp, rule answers_then, rule answers_sum, rule answers_ret, simp,
      rule answers_Do) (intro answer_rules; simp add: is_write_def)

lemma answers_getImages: "answers be (getImages be r)"
  unfolding getImages_def Let_def
  by (intro answers_then answers_option answers_prod answers_forward_only forwards_proxy answers_ret; simp)

lemma answers_postExecStart: "Header_Get r ''Connection'' \<noteq> [] \<Longrightarrow> answers be (postExecStart be r)"
  unfolding postExecStart_def by (simp add: answers_forwarding)

lemmas all_answers = answers_changing answers_listing answers_forwarding answers_rest answers_postContainersExec answers_getImages
  answers_postExecStart

lemma answers_run_handler:
  assumes "h = PostExecStart \<Longrightarrow> Header_Get r ''Connection'' \<noteq> []" "h \<noteq> PostBuild" "h \<noteq> GetEvents"
  shows "answers (ctx_cluster cx) (run_handler cx h r)"
  using assms by (cases h) (simp_all add: all_answers)

text \<open>The three handlers that can break the form, and how.\<close>

definition two_answers :: "nat set \<Rightarrow> reply list \<Rightarrow> bool" where
  "two_answers D rs \<longleftrightarrow> (\<exists>rs1 rs2. rs = rs1 @ rs2 \<and> well_formed D rs1 \<and> well_formed D rs2)"

definition late_error :: "reply list \<Rightarrow> bool" where
  "late_error rs \<longleftrightarrow>
     (\<exists>out msg. out \<noteq> [] \<and> rs = [AddHeader ''Content-Type'' ''application/json'', Write (Text out)] @ httpError msg 500)"

definition late_header :: "reply list \<Rightarrow> bool" where
  "late_header rs \<longleftrightarrow> (\<exists>evs evs'. evs \<noteq> [] \<and>
     rs = map (\<lambda>ev. Write (Text ev)) evs @ [AddHeader ''Content-Type'' ''application/json''] @ map (\<lambda>ev. Write (Text ev)) evs')"

lemma exec_start_answer:
  assumes "postExecStart be r s = Some (rs, s')"
  shows "if Header_Get r ''Connection'' = [] then two_answers (api_codes \<union> daemon_codes be) rs
    else well_formed (api_codes \<union> daemon_codes be) rs"
proof (cases "Header_Get r ''Connection'' = []")
  case True
  with assms obtain rs1 rs2 s1 where "proxyContainer be r s = Some (rs1, s1)" "proxyHijack be r s1 = Some (rs2, s')" "rs = rs1 @ rs2"
    by (auto simp: postExecStart_def and_then_Some ret_def)
  with answers_forwarding(1,3) True show ?thesis unfolding answers_def two_answers_def by (metis (no_types, lifting))
next
  case False
  from answers_postExecStart [OF False, of be] assms have "well_formed (api_codes \<union> daemon_codes be) rs" unfolding answers_def by blast
  with False show ?thesis by simp
qed

lemma build_answer:
  assumes "postBuild be dec r s = Some (rs, s')"
  shows "well_formed (api_codes \<union> D) rs \<or> late_error rs"
proof (cases "r_ParseForm r")
  case None
  with assms obtain out err where rs: "rs = build_replies out err"
    by (auto simp: postBuild_def and_then_Some ret_def)
  show ?thesis
  proof (cases "out = [] \<or> err = None")
    case True
    then show ?thesis unfolding rs build_replies_def by (auto split: option.split)
  next
    case False
    then obtain x where "out \<noteq> []" "err = Some x" by blast
    then have "late_error rs" unfolding late_error_def rs build_replies_def by (intro exI [of _ out] exI [of _ "Error x"]) simp
    then show ?thesis ..
  qed
qed (use assms in \<open>auto simp: postBuild_def ret_def\<close>)

lemma events_answer: "well_formed (api_codes \<union> D) (events_replies written r eh) \<or> late_header (events_replies written r eh)"
proof -
  obtain rs u where rs: "fst (getEvents r eh) = (rs, u)" by force
  note form = getEvents_replies [OF rs]
  show ?thesis
  proof (cases u)
    case None
    then obtain msg where "rs = httpError msg 400" using form by auto
    then show ?thesis by (simp add: events_replies_def rs None)
  next
    case (Some x)
    then have eq: "events_replies written r eh = map (\<lambda>ev. Write (Text ev)) (fst written) @
        [AddHeader ''Content-Type'' ''application/json''] @ map (\<lambda>ev. Write (Text ev)) (snd written)"
      using form by (simp add: events_replies_def rs)
    have "list_all is_write (map (\<lambda>ev. Write (Text ev)) evs)" for evs by (simp add: list_all_iff is_write_def)
    then have "well_formed (api_codes \<union> D) ([AddHeader ''Content-Type'' ''application/json''] @ map (\<lambda>ev. Write (Text ev)) (snd written))"
      by (simp add: well_formed_writes)
    moreover have "late_header (events_replies written r eh)" if "fst written \<noteq> []"
      unfolding eq late_header_def using that by blast
    ultimately show ?thesis unfolding eq by (cases "fst written = []") simp_all
  qed
qed

text \<open>
  C27. Every answer of the API has the same form, for any cluster behind it: header lines, then at most one status, which is one of
  the nine that the API uses or comes from a daemon, then the body; or the connection is handed over, and at most an error is written
  after that. There are three exceptions and no others: the start of a command without the header \<open>Connection\<close>, which gives two answers of
  this form one after the other; a build whose output breaks off after it began, where status 500 and the error come behind the output;
  and a listener for events that is sent an event before the header of its answer.
\<close>

theorem one_answer:
  assumes "serve rts redirect cors cx m r s = Some (rs, s')"
  shows "well_formed (api_codes \<union> daemon_codes (ctx_cluster cx)) rs \<or>
    (\<exists>vars h rs0. router_match rts m (r_Path r) = Some (vars, h) \<and> rs = (if cors then writeCorsHeaders else []) @ rs0 \<and>
      (h = PostExecStart \<and> Header_Get r ''Connection'' = [] \<and> two_answers (api_codes \<union> daemon_codes (ctx_cluster cx)) rs0 \<or>
       h = PostBuild \<and> late_error rs0 \<or> h = GetEvents \<and> late_header rs0))"
proof (cases "redirect r")
  case None
  let ?D = "api_codes \<union> daemon_codes (ctx_cluster cx)"
  show ?thesis
  proof (cases "router_match rts m (r_Path r)")
    case no: None
    with assms(1) None show ?thesis by (auto simp: serve_def ret_def)
  next
    case (Some found)
    obtain vars h where found: "found = (vars, h)" by (cases found)
    let ?r = "r\<lparr>r_Vars := vars\<rparr>" and ?cx = "cx\<lparr>ctx_env := (ctx_env cx)\<lparr>apiVersion := Var (r\<lparr>r_Vars := vars\<rparr>) ''version''\<rparr>\<rparr>"
    obtain rs0 where run: "run_handler ?cx h ?r s = Some (rs0, s')" and rs: "rs = (if cors then writeCorsHeaders else []) @ rs0"
      using assms(1) None Some found by (auto simp: serve_def wrap_def and_then_def ret_def split: option.split_asm)
    have same: "Header_Get ?r ''Connection'' = Header_Get r ''Connection''" by (simp add: Header_Get_def)
    have "well_formed ?D rs0 \<or> h = PostExecStart \<and> Header_Get r ''Connection'' = [] \<and> two_answers ?D rs0 \<or>
        h = PostBuild \<and> late_error rs0 \<or> h = GetEvents \<and> late_header rs0"
    proof (cases "h = PostExecStart \<or> h = PostBuild \<or> h = GetEvents")
      case False
      then have "answers (ctx_cluster ?cx) (run_handler ?cx h ?r)" by (intro answers_run_handler) blast+
      with run have "well_formed (api_codes \<union> daemon_codes (ctx_cluster ?cx)) rs0" unfolding answers_def by blast
      then show ?thesis by simp
    next
      case True
      then consider "h = PostExecStart" | "h = PostBuild" | "h = GetEvents" by blast
      then show ?thesis
      proof cases
        case 1
        with run have "postExecStart (ctx_cluster cx) ?r s = Some (rs0, s')" by simp
        from exec_start_answer [OF this] 1 show ?thesis unfolding same by (auto split: if_split_asm)
      next
        case 2
        with run have "postBuild (ctx_cluster cx) (ctx_decoder cx) ?r s = Some (rs0, s')" by simp
        from build_answer [OF this] 2 show ?thesis by blast
      next
        case 3
        with run have "rs0 = events_replies (ctx_written cx ?r) ?r (ctx_events cx)" by (simp add: ret_def)
        with events_answer 3 show ?thesis by blast
      qed
    qed
    with rs Some found show ?thesis by auto
  qed
qed (use assms(1) in \<open>auto simp: serve_def ret_def\<close>)

subsection \<open>An answer\<close>

definition demo_context :: "demo_daemon cstate api_context" where
  "demo_context = \<lparr>ctx_cluster = demo_backend, ctx_env = list_env, ctx_decoder = demo_decoder, ctx_sort_containers = insertionSort,
     ctx_sort_images = insertionSort, ctx_marshal = (\<lambda>_. Inl refused), ctx_is_v4 = (\<lambda>_. None), ctx_zero_auth = \<lparr>Username = [], Password = [], Auth = [], Email = [], ServerAddress = [], IdentityToken = [], RegistryToken = []\<rparr>,
     ctx_listeners = 0, ctx_status = [], ctx_build = \<lparr>GITCOMMIT = ''HEAD'', BUILDTIME = ''<unknown>'', ENABLED = False, go_Version = ''go1.7'',
       GOOS = ''linux'', GOARCH = ''amd64'', GetKernelVersion = Inl refused\<rparr>, ctx_events = newEventsHandler, ctx_written = (\<lambda>_. ([], []))\<rparr>"

definition demo_top :: Request where
  "demo_top = (demo_request ''c2'')\<lparr>r_Path := ''/containers/c2/top''\<rparr>"

lemma demo_top_route: "router_match (setupPrimaryRouter True) ''GET'' (r_Path demo_top) = Some ([(''name'', ''c2'')], ProxyContainer)"
proof -
  have "(''/containers/{name:.*}/top'', ProxyContainer) \<in> set (snd (routes ! 1))" by code_simp
  with demo_route(1) have rt: "(False, ''GET'', ''/containers/{name:.*}/top'', ProxyContainer) \<in> set (setupPrimaryRouter True)"
    unfolding in_setupPrimaryRouter by blast
  have "template_vars ''/containers/{name:.*}/top'' (r_Path demo_top) = Some [(''name'', ''c2'')]" by code_simp
  then have "route_vars ''GET'' (r_Path demo_top) (False, ''GET'', ''/containers/{name:.*}/top'', ProxyContainer) = Some [(''name'', ''c2'')]"
    by simp
  from router_match_unique [OF rt refl _ this] show ?thesis by simp
qed

lemma demo_top_run: "proxyContainer demo_backend (demo_top\<lparr>r_Vars := [(''name'', ''c2'')]\<rparr>) (list_cluster, demo_world) \<noteq> None"
  by code_simp

theorem one_answer_witness:
  "\<exists>rs s'. serve (setupPrimaryRouter True) (\<lambda>_. None) True demo_context ''GET'' demo_top (list_cluster, demo_world) = Some (rs, s') \<and>
     well_formed (api_codes \<union> daemon_codes demo_backend) rs"
proof -
  have cluster: "ctx_cluster demo_context = demo_backend" by (simp add: demo_context_def)
  from demo_top_run obtain rs s' where run: "serve (setupPrimaryRouter True) (\<lambda>_. None) True demo_context ''GET'' demo_top (list_cluster, demo_world) = Some (rs, s')"
    by (auto simp: serve_def wrap_def demo_top_route cluster and_then_def ret_def)
  from one_answer [OF run] have "well_formed (api_codes \<union> daemon_codes (ctx_cluster demo_context)) rs"
    unfolding demo_top_route by simp
  with run cluster show ?thesis by metis
qed

end
