(* ===== verification/Cli_Replication.thy ===== *)
theory Cli_Replication
  imports Api_Routes Swarm_Watchdog
begin

section \<open>Replicated managers (\<open>cli/manage.go\<close>)\<close>

text \<open>
  With replication several managers run; one is the leader and serves requests, the others forward to it. In each of them
  \<open>run\<close> takes the messages of the candidate and \<open>follow\<close> those of the follower, next to the goroutine that set them up.
  The election is \<open>docker/leadership\<close>: the candidate says that it is not the leader, takes the lock, says that it is,
  and starts over when it has lost it; an error can only come while it is not the leader, and ends \<open>run\<close>, which is started again
  later. The follower reports the address of the leader whenever it changes.
\<close>

subsection \<open>The state\<close>

datatype role = Primary | Replica

text \<open>Where the candidate is: about to say that it does not lead, waiting for the lock, leading, or stopped by an error.\<close>

datatype campaign = Starting | Locking | Leading | Failed

text \<open>
  The handler of the server, the address of the primary in the replica, the registered watchdogs and the number of those made, the variable
  \<open>watchdog\<close> of \<open>run\<close>, the candidate, and whether the goroutine that started the others has yet to set the handler.
\<close>

record manager =
  sv_handler :: "role option"
  rp_primary :: string
  watchdogs :: "nat list"
  watchdogs_made :: nat
  watchdog :: "nat option"
  candidate :: campaign
  set_up :: bool

text \<open>\<open>setupReplication\<close> up to the start of the goroutines, and its last line.\<close>

definition setupReplication :: manager where
  "setupReplication = \<lparr>sv_handler = None, rp_primary = [], watchdogs = [], watchdogs_made = 0, watchdog = None, candidate = Starting, set_up = False\<rparr>"

definition finish_setup :: "manager \<Rightarrow> manager" where
  "finish_setup mg = mg\<lparr>sv_handler := Some Primary, set_up := True\<rparr>"

definition NewWatchdog :: "manager \<Rightarrow> nat \<times> manager" where
  "NewWatchdog mg =
     (let n = watchdogs_made mg
      in (n, mg\<lparr>watchdogs := snd (handlers_Register n (watchdogs mg)), watchdogs_made := Suc n\<rparr>))"

text \<open>What \<open>run\<close> does with a message; to unregister the nil pointer has no effect.\<close>

definition run_elected :: "bool \<Rightarrow> manager \<Rightarrow> manager" where
  "run_elected isElected mg =
     (if isElected then
        (let (w, mg) = NewWatchdog mg in mg\<lparr>watchdog := Some w, sv_handler := Some Primary\<rparr>)
      else mg\<lparr>watchdogs := (case watchdog mg of None \<Rightarrow> watchdogs mg | Some w \<Rightarrow> handlers_Unregister w (watchdogs mg)),
             sv_handler := Some Replica\<rparr>)"

definition follow_leader :: "string \<Rightarrow> string \<Rightarrow> manager \<Rightarrow> manager" where
  "follow_leader addr leader mg =
     (if leader = [] then mg
      else if leader = addr then mg\<lparr>rp_primary := []\<rparr>
      else mg\<lparr>rp_primary := leader\<rparr>)"

text \<open>The status that \<open>docker info\<close> shows; \<open>leads\<close> is \<open>candidate.IsLeader\<close>, \<open>None\<close> without replication.\<close>

definition statusHandler_Status :: "bool option \<Rightarrow> string \<Rightarrow> (string \<times> string) list \<Rightarrow> (string \<times> string) list" where
  "statusHandler_Status leads leader clusterInfo =
     (if leads = Some False then [(''Role'', ''replica''), (''Primary'', leader)] else [(''Role'', ''primary'')]) @ clusterInfo"

text \<open>How a manager serves a request, given its router for the primary's role.\<close>

definition manager_serve ::
    "(Request \<Rightarrow> ('s, reply list) op) \<Rightarrow> (string \<Rightarrow> Request \<Rightarrow> ('s, go_error option result) op) \<Rightarrow> manager \<Rightarrow> Request \<Rightarrow> ('s, reply list) op" where
  "manager_serve router tunnel mg =
     dispatcher_ServeHTTP (case sv_handler mg of
       None \<Rightarrow> None
     | Some Primary \<Rightarrow> Some router
     | Some Replica \<Rightarrow> Some (replica_ServeHTTP router tunnel (rp_primary mg)))"

subsection \<open>Steps\<close>

text \<open>
  \<open>addr\<close> is the manager's own address. With \<open>early\<close> the handler is set before the goroutines do anything, which the code does
  not ensure: it starts them first.
\<close>

inductive manager_step :: "string \<Rightarrow> bool \<Rightarrow> manager \<Rightarrow> manager \<Rightarrow> bool" for addr early where
  mg_setup: "\<not> set_up mg \<Longrightarrow> manager_step addr early mg (finish_setup mg)"
| mg_lost: "candidate mg = Starting \<Longrightarrow> early \<longrightarrow> set_up mg \<Longrightarrow> manager_step addr early mg (run_elected False mg\<lparr>candidate := Locking\<rparr>)"
| mg_elected: "candidate mg = Locking \<Longrightarrow> manager_step addr early mg (run_elected True mg\<lparr>candidate := Leading\<rparr>)"
| mg_down: "candidate mg = Leading \<Longrightarrow> manager_step addr early mg (mg\<lparr>candidate := Starting\<rparr>)"
| mg_error: "candidate mg = Locking \<Longrightarrow> manager_step addr early mg (mg\<lparr>candidate := Failed\<rparr>)"
| mg_again: "candidate mg = Failed \<Longrightarrow> manager_step addr early mg (mg\<lparr>candidate := Starting, watchdog := None\<rparr>)"
| mg_follow: "manager_step addr early mg (follow_leader addr leader mg)"

inductive_cases manager_stepE: "manager_step addr early mg mg'"

abbreviation reachable_manager :: "string \<Rightarrow> bool \<Rightarrow> manager \<Rightarrow> bool" where
  "reachable_manager addr early \<equiv> (manager_step addr early)\<^sup>*\<^sup>* setupReplication"

subsection \<open>The invariant\<close>

definition waits :: "manager \<Rightarrow> bool" where
  "waits mg \<longleftrightarrow> candidate mg = Locking \<or> candidate mg = Failed"

definition manager_ok :: "string \<Rightarrow> bool \<Rightarrow> manager \<Rightarrow> bool" where
  "manager_ok addr early mg \<longleftrightarrow>
     (\<forall>w \<in> set (watchdogs mg). w < watchdogs_made mg) \<and> rp_primary mg \<noteq> addr \<and>
     (waits mg \<longrightarrow> watchdogs mg = []) \<and>
     (candidate mg = Leading \<longrightarrow> (\<exists>w. watchdog mg = Some w \<and> watchdogs mg = [w]) \<and> sv_handler mg = Some Primary) \<and>
     (candidate mg = Starting \<longrightarrow> watchdogs mg = [] \<or> (\<exists>w. watchdog mg = Some w \<and> watchdogs mg = [w])) \<and>
     (early \<longrightarrow> (waits mg \<longrightarrow> sv_handler mg = Some Replica) \<and> (\<not> set_up mg \<longrightarrow> candidate mg = Starting))"

lemma manager_ok_start: "addr \<noteq> [] \<Longrightarrow> manager_ok addr early setupReplication"
  by (simp add: manager_ok_def setupReplication_def waits_def)

lemmas manager_simps = finish_setup_def run_elected_def NewWatchdog_def handlers_Register_def handlers_Unregister_def follow_leader_def Let_def

lemma manager_ok_step: "manager_ok addr early mg \<Longrightarrow> addr \<noteq> [] \<Longrightarrow> manager_step addr early mg mg' \<Longrightarrow> manager_ok addr early mg'"
  by (erule manager_stepE) (auto simp: manager_ok_def waits_def manager_simps split: option.splits if_splits)

lemma manager_ok_reachable:
  assumes "reachable_manager addr early mg" "addr \<noteq> []"
  shows "manager_ok addr early mg"
  using assms(1)
proof induction
  case base
  show ?case by (rule manager_ok_start [OF assms(2)])
next
  case (step mg mg')
  from manager_ok_step [OF step.IH assms(2) step.hyps(2)] show ?case .
qed

lemma manager_ok_roles:
  assumes "manager_ok addr early mg"
  shows "length (watchdogs mg) \<le> 1 \<and> rp_primary mg \<noteq> addr \<and>
      (candidate mg = Leading \<longrightarrow> length (watchdogs mg) = 1 \<and> sv_handler mg = Some Primary) \<and> (waits mg \<longrightarrow> watchdogs mg = [])"
  using assms by (cases "candidate mg") (auto simp: manager_ok_def waits_def)

lemma overtaken_setup: "\<exists>mg. reachable_manager addr False mg \<and> waits mg \<and> sv_handler mg \<noteq> Some Replica"
proof -
  let ?mg = "run_elected False setupReplication\<lparr>candidate := Locking\<rparr>"
  have "manager_step addr False setupReplication ?mg" by (rule mg_lost) (simp_all add: setupReplication_def)
  moreover have "manager_step addr False ?mg (finish_setup ?mg)" by (rule mg_setup) (simp add: setupReplication_def manager_simps)
  ultimately have "reachable_manager addr False (finish_setup ?mg)" by (meson rtranclp.rtrancl_into_rtrancl r_into_rtranclp)
  moreover have "waits (finish_setup ?mg)" "sv_handler (finish_setup ?mg) \<noteq> Some Replica" by (simp_all add: waits_def manager_simps)
  ultimately show ?thesis by blast
qed

text \<open>
  C30. At any time a manager has at most one watchdog; it has one while it leads and serves
  as the primary then, and none while it waits for the lock; and a replica never forwards to its own address. If the
  handler were set before the goroutines run, the manager would serve as a replica whenever it waits; as the code starts them
  first, a manager that has not been elected can be left serving as the primary.
\<close>

theorem manager_roles:
  assumes "addr \<noteq> []"
  shows "(\<forall>mg. reachable_manager addr early mg \<longrightarrow> length (watchdogs mg) \<le> 1 \<and> rp_primary mg \<noteq> addr \<and>
      (candidate mg = Leading \<longrightarrow> length (watchdogs mg) = 1 \<and> sv_handler mg = Some Primary) \<and> (waits mg \<longrightarrow> watchdogs mg = [])) \<and>
    ((\<exists>mg. reachable_manager addr early mg \<and> waits mg \<and> sv_handler mg \<noteq> Some Replica) \<longleftrightarrow> \<not> early)"
proof
  show "\<forall>mg. reachable_manager addr early mg \<longrightarrow> length (watchdogs mg) \<le> 1 \<and> rp_primary mg \<noteq> addr \<and>
      (candidate mg = Leading \<longrightarrow> length (watchdogs mg) = 1 \<and> sv_handler mg = Some Primary) \<and> (waits mg \<longrightarrow> watchdogs mg = [])"
    using manager_ok_roles manager_ok_reachable [OF _ assms] by blast
  show "(\<exists>mg. reachable_manager addr early mg \<and> waits mg \<and> sv_handler mg \<noteq> Some Replica) \<longleftrightarrow> \<not> early"
  proof (cases early)
    case True
    then have "sv_handler mg = Some Replica" if "reachable_manager addr early mg" "waits mg" for mg
      using manager_ok_reachable [OF that(1) assms] that(2) by (simp add: manager_ok_def)
    then have "\<not> (\<exists>mg. reachable_manager addr early mg \<and> waits mg \<and> sv_handler mg \<noteq> Some Replica)" by blast
    with True show ?thesis by simp
  next
    case False
    with overtaken_setup [of addr] show ?thesis by simp
  qed
qed

theorem manager_roles_witness:
  "length (watchdogs (finish_setup setupReplication)) \<le> 1 \<and>
   (\<exists>mg. reachable_manager ''10.0.0.1:3375'' False mg \<and> waits mg \<and> sv_handler mg \<noteq> Some Replica)"
proof -
  have "reachable_manager ''10.0.0.1:3375'' False (finish_setup setupReplication)"
    by (rule r_into_rtranclp, rule mg_setup) (simp add: setupReplication_def)
  with manager_roles [of "''10.0.0.1:3375''" False] show ?thesis by simp
qed

text \<open>
  How a manager in each role answers: the primary with its router; a replica, for a path that is not its own, by the primary it was told of,
  and with status 500 as long as it knows of none.
\<close>

lemma manager_serves:
  "sv_handler mg = Some Primary \<Longrightarrow> manager_serve router tunnel mg r = router r"
  "sv_handler mg = Some Replica \<Longrightarrow> rp_primary mg = [] \<Longrightarrow> \<not> list_ex (HasSuffix (r_Path r)) localRoutes \<Longrightarrow>
     manager_serve router tunnel mg r = ret (httpError ''No elected primary cluster manager'' 500)"
  by (simp_all add: manager_serve_def dispatcher_ServeHTTP_def replica_ServeHTTP_def)

end
