(* ===== verification/Cluster_Report.thy ===== *)
theory Cluster_Report
  imports Cli_Replication
begin

section \<open>What \<open>docker info\<close> reports (\<open>Cluster.Info\<close> of both back ends)\<close>

text \<open>
  The lines about the cluster, which \<open>statusHandler.Status\<close> puts below the role of the manager and \<open>getInfo\<close> sends to the
  client. The library's formats, the order in which a map of labels is ranged over and the sorts are parameters.
\<close>

subsection \<open>The lines\<close>

record Report_Format =
  BytesSize :: "rat \<Rightarrow> string"
  UTC :: "int \<Rightarrow> string"
  label_list :: "(string \<rightharpoonup> string) \<Rightarrow> (string \<times> string) list"
  sort_Strings :: "string list \<Rightarrow> string list"
  sort_engines :: "Engine list \<Rightarrow> Engine list"
  sort_offers :: "(Offer \<Rightarrow> Offer \<Rightarrow> bool) \<Rightarrow> Offer list \<Rightarrow> Offer list"

text \<open>A line of an engine starts with two spaces and the character U+2514.\<close>

definition item :: "string \<Rightarrow> string" where
  "item k = ''  '' @ [CHR 0xE2, CHR 0x94, CHR 0x94] @ '' '' @ k"

text \<open>The containers of a healthy engine by their state; a container without one is a nil dereference.\<close>

definition state_counts :: "Containers \<Rightarrow> (nat \<times> nat \<times> nat) option" where
  "state_counts ks =
     map_option (\<lambda>kst.
       (length (filter (\<lambda>(_, st). \<not> Paused st \<and> Running st) kst),
        length (filter (\<lambda>(_, st). Paused st) kst),
        length (filter (\<lambda>(_, st). \<not> Paused st \<and> \<not> Running st) kst))) (with_states ks)"

definition containers_line :: "Engine \<Rightarrow> string option" where
  "containers_line e =
     (let n = Itoa (int (length (Engine_Containers e))) in
      if isHealthy e then
        map_option (\<lambda>(running, paused, stopped).
          n @ '' ('' @ Itoa (int running) @ '' Running, '' @ Itoa (int paused) @ '' Paused, '' @ Itoa (int stopped) @ '' Stopped)'')
          (state_counts (Engine_Containers e))
      else Some n)"

definition engine_lines :: "Report_Format \<Rightarrow> Engine \<Rightarrow> (string \<times> string) list option" where
  "engine_lines fmt e =
     map_option (\<lambda>count.
       [('' '' @ (if e_Name e \<noteq> [] then e_Name e else ''(unknown)''), e_Addr e),
        (item ''ID'', e_ID e),
        (item ''Status'', Status e),
        (item ''Containers'', count),
        (item ''Reserved CPUs'', Itoa (Engine_UsedCpus e) @ '' / '' @ Itoa (Engine_TotalCpus e)),
        (item ''Reserved Memory'', BytesSize fmt (f64 (of_int (Engine_UsedMemory e))) @ '' / '' @ BytesSize fmt (f64 (of_int (Engine_TotalMemory e)))),
        (item ''Labels'', str_Join (sort_Strings fmt (map (\<lambda>(k, v). k @ ''='' @ v) (label_list fmt (e_Labels e)))) '', '')] @
       (if lastError e \<noteq> [] then [(item ''Error'', lastError e)] else []) @
       [(item ''UpdatedAt'', UTC fmt (updatedAt e)), (item ''ServerVersion'', Version e)]) (containers_line e)"

definition Cluster_Info :: "Report_Format \<Rightarrow> Cluster \<Rightarrow> (string \<times> string) list option" where
  "Cluster_Info fmt c =
     map_option (\<lambda>ls.
       [(''Strategy'', Scheduler_Strategy (cl_scheduler c)), (''Filters'', Scheduler_Filters (cl_scheduler c)),
        (''Nodes'', Itoa (int (length (engines c) + length (pendingEngines c))))] @ concat ls)
       (those (map (engine_lines fmt) (sort_engines fmt (listEngines c))))"

subsection \<open>Mesos\<close>

definition formatResource :: "Report_Format \<Rightarrow> Resource \<Rightarrow> string" where
  "formatResource fmt r =
     (let v = (case r_Scalar r of None \<Rightarrow> 0 | Some v \<Rightarrow> v) in
      case r_Type r of
        SCALAR \<Rightarrow>
          if r_Name r = ''disk'' \<or> r_Name r = ''mem'' then BytesSize fmt (f64 (f64 (v * 1024) * 1024)) else Itoa (f64_to_int64 v)
      | RANGES \<Rightarrow> str_Join (map (\<lambda>(b, e). Itoa (int (unat b)) @ ''-'' @ Itoa (int (unat e))) (r_Ranges r)) '', ''
      | _ \<Rightarrow> ''?'')"

definition offer_before :: "Offer \<Rightarrow> Offer \<Rightarrow> bool" where
  "offer_before x y \<longleftrightarrow> o_Id x < o_Id y"

definition offer_lines :: "Report_Format \<Rightarrow> Offer \<Rightarrow> (string \<times> string) list" where
  "offer_lines fmt offer =
     (''  Offer'', o_Id offer) #
     map (\<lambda>r. (''   '' @ [CHR 0xE2, CHR 0x94, CHR 0x94] @ '' '' @ r_Name r, formatResource fmt r)) (o_Resources offer)"

definition Mesos_Info :: "Report_Format \<Rightarrow> MesosCluster \<Rightarrow> (string \<times> string) list" where
  "Mesos_Info fmt m =
     [(''Strategy'', Scheduler_Strategy (m_scheduler m)), (''Filters'', Scheduler_Filters (m_scheduler m)),
      (''Offers'', Itoa (int (length (listOffers m))))] @
     concat (map (offer_lines fmt) (sort_offers fmt offer_before (listOffers m)))"

subsection \<open>The report reaches every client\<close>

lemma those_Some: "those xs = Some ys \<longleftrightarrow> xs = map Some ys"
  by (induction xs arbitrary: ys) (auto split: option.splits simp: Cons_eq_map_conv)

lemma state_counts_sum: "state_counts ks = Some (a, b, c) \<Longrightarrow> a + b + c = length ks"
proof -
  assume "state_counts ks = Some (a, b, c)"
  then obtain kst where kst: "with_states ks = Some kst"
    and abc: "a = length (filter (\<lambda>(_, st). \<not> Paused st \<and> Running st) kst)" "b = length (filter (\<lambda>(_, st). Paused st) kst)"
      "c = length (filter (\<lambda>(_, st). \<not> Paused st \<and> \<not> Running st) kst)"
    by (auto simp: state_counts_def)
  have "length kst = length ks" using arg_cong [OF kst [unfolded with_states_def those_Some], of length] by simp
  moreover have "length (filter (\<lambda>(_, st). \<not> Paused st \<and> Running st) xs) + length (filter (\<lambda>(_, st). Paused st) xs) +
      length (filter (\<lambda>(_, st). \<not> Paused st \<and> \<not> Running st) xs) = length xs" for xs :: "(Container \<times> ContainerState) list"
    by (induction xs) auto
  ultimately show ?thesis using abc by simp
qed

lemma engine_lines_keys: "engine_lines fmt e = Some ls \<Longrightarrow> [] \<notin> fst ` set ls"
  by (auto simp: engine_lines_def item_def)

lemma Cluster_Info_keys:
  assumes "Cluster_Info fmt c = Some ls"
  shows "[] \<notin> fst ` set ls"
proof -
  obtain lss where lss: "map (engine_lines fmt) (sort_engines fmt (listEngines c)) = map Some lss"
    and ls: "set ls \<subseteq> {(''Strategy'', Scheduler_Strategy (cl_scheduler c)), (''Filters'', Scheduler_Filters (cl_scheduler c)),
      (''Nodes'', Itoa (int (length (engines c) + length (pendingEngines c))))} \<union> set (concat lss)"
    using assms by (auto simp: Cluster_Info_def those_Some)
  have part: "[] \<notin> fst ` set l" if "l \<in> set lss" for l
  proof -
    have "Some l \<in> set (map (engine_lines fmt) (sort_engines fmt (listEngines c)))" unfolding lss using that by simp
    then obtain e where "engine_lines fmt e = Some l" by auto
    then show ?thesis by (rule engine_lines_keys)
  qed
  show ?thesis
  proof
    assume "[] \<in> fst ` set ls"
    then obtain x where x: "x \<in> set ls" "fst x = []" by auto
    obtain k v where "x = (k, v)" by fastforce
    with x have "([], v) \<in> set ls" by simp
    then have "([], v) \<in> set (concat lss)" using ls by (auto dest!: subsetD)
    then obtain l where "l \<in> set lss" "([], v) \<in> set l" by auto
    from imageI [OF this(2), of fst] part [OF this(1)] show False by simp
  qed
qed

lemma Mesos_Info_keys: "[] \<notin> fst ` set (Mesos_Info fmt m)"
  by (auto simp: Mesos_Info_def offer_lines_def)

lemma old_status_total: "[] \<notin> fst ` set status \<Longrightarrow> old_status status \<noteq> None"
  by (induction status) (auto simp: old_status_def)

text \<open>
  The request for information is answered for clients of every version, the old ones included, whose status lines are cut at
  their first character; and every engine is in the report, those that wait for their validation too.
\<close>

lemma info_reported:
  assumes "Cluster_Info fmt c = Some ls" "with_states (Cluster_Containers c) \<noteq> None"
    and "\<And>es. set (sort_engines fmt es) = set es"
  shows "(\<exists>rs. getInfo (swarm_backend re mt rids apis http tunnel) en n (statusHandler_Status leads leader ls) (c, d) = Some (rs, c, d)) \<and>
    (\<forall>e \<in> set (engines c) \<union> set (pendingEngines c). (item ''ID'', e_ID (snd e)) \<in> set ls)"
proof
  have "[] \<notin> fst ` set (statusHandler_Status leads leader ls)"
    using Cluster_Info_keys [OF assms(1)] by (auto simp: statusHandler_Status_def)
  then obtain shown where "old_status (statusHandler_Status leads leader ls) = Some shown" using old_status_total by blast
  with assms(2) show "\<exists>rs. getInfo (swarm_backend re mt rids apis http tunnel) en n (statusHandler_Status leads leader ls) (c, d) = Some (rs, c, d)"
    by (auto simp: getInfo_def swarm_backend_def op_simps Let_def)
  show "\<forall>e \<in> set (engines c) \<union> set (pendingEngines c). (item ''ID'', e_ID (snd e)) \<in> set ls"
  proof
    fix e assume "e \<in> set (engines c) \<union> set (pendingEngines c)"
    then have "snd e \<in> set (sort_engines fmt (listEngines c))" using assms(3) by (auto simp: listEngines_def)
    moreover obtain lss where lss: "map (engine_lines fmt) (sort_engines fmt (listEngines c)) = map Some lss" "set (concat lss) \<subseteq> set ls"
    proof -
      obtain lss where "map (engine_lines fmt) (sort_engines fmt (listEngines c)) = map Some lss" "\<exists>front. ls = front @ concat lss"
        using assms(1) by (auto simp: Cluster_Info_def those_Some)
      with that show ?thesis by auto
    qed
    ultimately obtain l where "engine_lines fmt (snd e) = Some l" "l \<in> set lss"
      using arg_cong [OF lss(1), of set] by (metis (no_types, lifting) image_eqI image_iff list.set_map)
    moreover from this(1) have "(item ''ID'', e_ID (snd e)) \<in> set l" by (auto simp: engine_lines_def)
    ultimately show "(item ''ID'', e_ID (snd e)) \<in> set ls" using lss(2) by auto
  qed
qed

end
