(* ===== verification/Cli_Manage.thy ===== *)
theory Cli_Manage
  imports Sched_Strategy Engine_Invariants Scale_Utils Go_Float
begin

section \<open>The command line and token discovery (\<open>cli/\<close>, \<open>discovery/token\<close>)\<close>

text \<open>
  What the commands check of their flags before they start anything, the request of \<open>cattle scale\<close>, and the discovery of engines
  through the hosted service. \<open>log.Fatal\<close> ends the process with a message, here \<open>Inl\<close>; the flags are those of the
  command line package, by name. \<open>parseDuration\<close> is \<open>time.ParseDuration\<close>, in nanoseconds.
\<close>

subsection \<open>Addresses\<close>

text \<open>\<open>net.SplitHostPort\<close>; the texts of its errors are not told apart by the callers.\<close>

definition SplitHostPort :: "string \<Rightarrow> (string \<times> string) result" where
  "SplitHostPort hostport =
     (let bad = Inl (errorf (''address '' @ hostport @ '': missing port, too many colons or unexpected brackets'')) in
      case str_LastIndex (CHR '':'') hostport of
        None \<Rightarrow> bad
      | Some i \<Rightarrow>
          if hd hostport = CHR ''['' then
            let end = length (takeWhile (\<lambda>c. c \<noteq> CHR '']'') hostport) in
            if end = length hostport \<or> Suc end \<noteq> i \<or> CHR ''['' \<in> set (drop 1 hostport) \<or> CHR '']'' \<in> set (drop (Suc end) hostport) then bad
            else Inr (take (end - 1) (drop 1 hostport), drop (Suc i) hostport)
          else if CHR '':'' \<in> set (take i hostport) \<or> CHR ''['' \<in> set hostport \<or> CHR '']'' \<in> set hostport then bad
          else Inr (take i hostport, drop (Suc i) hostport))"

definition checkAddrFormat :: "string \<Rightarrow> bool" where
  "checkAddrFormat addr =
     (case SplitHostPort addr of
        Inl _ \<Rightarrow> False
      | Inr (_, port) \<Rightarrow> let (portNum, ok) = Atoi port in ok \<and> portNum > 0 \<and> portNum \<le> 65535)"

subsection \<open>Flags\<close>

record Flags =
  fl_Args :: "string list"
  fl_String :: "string \<Rightarrow> string"
  fl_StringSlice :: "string \<Rightarrow> string list"
  fl_Bool :: "string \<Rightarrow> bool"
  fl_Int :: "string \<Rightarrow> int"
  fl_Duration :: "string \<Rightarrow> int"
  fl_IsSet :: "string \<Rightarrow> bool"

definition second :: int where
  "second = 1000000000"

text \<open>A check that may end the process.\<close>

definition fatal_if :: "bool \<Rightarrow> string \<Rightarrow> 'a result \<Rightarrow> 'a result" where
  "fatal_if b msg k = (if b then Inl (errorf msg) else k)"

definition or_fatal :: "'a result \<Rightarrow> ('a \<Rightarrow> 'b result) \<Rightarrow> 'b result" where
  "or_fatal r k = (case r of Inl err \<Rightarrow> Inl err | Inr x \<Rightarrow> k x)"

definition getDiscovery :: "(string \<Rightarrow> string) \<Rightarrow> Flags \<Rightarrow> string" where
  "getDiscovery getenv c = (case fl_Args c of [d] \<Rightarrow> d | _ \<Rightarrow> getenv ''SWARM_DISCOVERY'')"

fun discovery_opts :: "string list \<Rightarrow> (string \<times> string) list \<Rightarrow> (string \<times> string) list result" where
  "discovery_opts [] m = Inr m"
| "discovery_opts (opt # opts) m =
     fatal_if (\<not> Contains opt ''='') ''--discovery-opt must contain key=value strings''
       (let kv = SplitN2 opt ''='' in discovery_opts opts (AList.update (kv ! 0) (kv ! 1) m))"

definition getDiscoveryOpt :: "Flags \<Rightarrow> (string \<times> string) list result" where
  "getDiscoveryOpt c =
     or_fatal (discovery_opts (fl_StringSlice c ''discovery-opt'') []) (\<lambda>m.
     Inr (if map_of m ''kv.path'' = None then AList.update ''kv.path'' ''docker/swarm/nodes'' m else m))"

text \<open>\<open>new\<close> is \<open>discovery.New\<close>, with the heartbeat, the time to live and the options.\<close>

definition createDiscovery ::
    "(string \<Rightarrow> int result) \<Rightarrow> (string \<Rightarrow> int \<Rightarrow> int \<Rightarrow> (string \<times> string) list \<Rightarrow> 'b result) \<Rightarrow> string \<Rightarrow> Flags \<Rightarrow> 'b result" where
  "createDiscovery parseDuration new uri c =
     or_fatal (parseDuration (fl_String c ''heartbeat'')) (\<lambda>hb.
     fatal_if (hb < second) ''--heartbeat should be at least one second''
     (or_fatal (getDiscoveryOpt c) (\<lambda>opts. new uri hb 0 opts)))"

text \<open>\<open>cattle join\<close>, up to the loop that registers: the address, the period of registration and the delay before it.\<close>

definition join_checks ::
    "(string \<Rightarrow> int result) \<Rightarrow> (string \<Rightarrow> int \<Rightarrow> int \<Rightarrow> (string \<times> string) list \<Rightarrow> 'b result) \<Rightarrow> (string \<Rightarrow> string) \<Rightarrow> Flags \<Rightarrow> (string \<times> int \<times> int \<times> 'b) result" where
  "join_checks parseDuration new getenv c =
     (let dflag = getDiscovery getenv c; addr = fl_String c ''advertise'' in
      fatal_if (dflag = []) ''discovery required to join a cluster''
      (fatal_if (addr = []) ''missing mandatory --advertise flag''
      (fatal_if (\<not> checkAddrFormat addr) ''--advertise should be of the form ip:port or hostname:port''
      (or_fatal (parseDuration (fl_String c ''delay'')) (\<lambda>joinDelay.
      fatal_if (joinDelay < 0) ''--delay should not be a negative number''
      (or_fatal (parseDuration (fl_String c ''heartbeat'')) (\<lambda>hb.
      fatal_if (hb < second) ''--heartbeat should be at least one second''
      (or_fatal (parseDuration (fl_String c ''ttl'')) (\<lambda>ttl.
      fatal_if (ttl \<le> hb) ''--ttl must be strictly superior to the heartbeat value''
      (or_fatal (getDiscoveryOpt c) (\<lambda>opts.
      or_fatal (new dflag hb ttl opts) (\<lambda>d. Inr (addr, hb, joinDelay, d)))))))))))))"

text \<open>\<open>cattle list\<close>, up to the wait for the entries.\<close>

definition list_checks ::
    "(string \<Rightarrow> int result) \<Rightarrow> (string \<Rightarrow> int \<Rightarrow> int \<Rightarrow> (string \<times> string) list \<Rightarrow> 'b result) \<Rightarrow> (string \<Rightarrow> string) \<Rightarrow> Flags \<Rightarrow> 'b result" where
  "list_checks parseDuration new getenv c =
     (let dflag = getDiscovery getenv c in
      fatal_if (dflag = []) ''discovery required to list a cluster''
      (or_fatal (parseDuration (fl_String c ''timeout'')) (\<lambda>timeout.
      fatal_if (timeout \<le> 0) ''--timeout should be a positive number''
      (or_fatal (getDiscoveryOpt c) (\<lambda>opts. new dflag timeout 0 opts)))))"

subsection \<open>\<open>cattle manage\<close>\<close>

text \<open>The flags for TLS; \<open>load\<close> is \<open>loadTLSConfig\<close>, and no configuration means no TLS.\<close>

definition tls_checks :: "(string \<Rightarrow> string \<Rightarrow> string \<Rightarrow> bool \<Rightarrow> 't result) \<Rightarrow> Flags \<Rightarrow> 't option result" where
  "tls_checks load c =
     (if fl_Bool c ''tls'' \<or> fl_Bool c ''tlsverify'' then
        fatal_if (\<not> fl_IsSet c ''tlscert'' \<or> \<not> fl_IsSet c ''tlskey'') ''--tlscert and --tlskey must be provided when using --tls''
        (fatal_if (fl_Bool c ''tlsverify'' \<and> \<not> fl_IsSet c ''tlscacert'') ''--tlscacert must be provided when using --tlsverify''
        (or_fatal (load (fl_String c ''tlscacert'') (fl_String c ''tlscert'') (fl_String c ''tlskey'') (fl_Bool c ''tlsverify'')) (\<lambda>t. Inr (Some t))))
      else fatal_if (fl_IsSet c ''tlscert'' \<or> fl_IsSet c ''tlskey'' \<or> fl_IsSet c ''tlscacert'')
        ''--tlscert, --tlskey and --tlscacert require the use of either --tls or --tlsverify'' (Inr None))"

record EngineOpts =
  RefreshMinInterval :: int
  RefreshMaxInterval :: int
  opt_FailureRetry :: int

definition engine_opts :: "Flags \<Rightarrow> EngineOpts result" where
  "engine_opts c =
     (let lo = fl_Duration c ''engine-refresh-min-interval''; hi = fl_Duration c ''engine-refresh-max-interval'';
          failureRetry = fl_Int c ''engine-failure-retry'' in
      fatal_if (lo \<le> 0) ''min refresh interval should be a positive number''
      (fatal_if (hi < lo) ''max refresh interval cannot be less than min refresh interval''
      (fatal_if (fl_Int c ''engine-refresh-retry'' \<noteq> 3) ''--engine-refresh-retry is deprecated. Use --engine-failure-retry''
      (fatal_if (failureRetry \<le> 0) ''invalid failure retry count''
      (Inr \<lparr>RefreshMinInterval = lo, RefreshMaxInterval = hi, opt_FailureRetry = failureRetry\<rparr>)))))"

text \<open>
  The values of a list flag start with its default ones, which are cut off when the flag is given; too few values are out of
  range, which panics.
\<close>

definition given_values :: "Flags \<Rightarrow> string \<Rightarrow> string \<Rightarrow> nat \<Rightarrow> string list option" where
  "given_values c long short n =
     (let vs = fl_StringSlice c long in
      if fl_IsSet c long \<or> fl_IsSet c short then if n \<le> length vs then Some (drop n vs) else None else Some vs)"

text \<open>The manager that is started: engine options, scheduler, hosts, and with replication its address and the time to live.\<close>

record 't Plan =
  pl_tls :: "'t option"
  pl_opts :: EngineOpts
  pl_scheduler :: Scheduler
  pl_driver :: string
  pl_hosts :: "string list"
  pl_replication :: "(string \<times> int) option"

text \<open>The checks of replication; \<open>is_kv\<close> tells whether the discovery is a key-value store (\<open>getCandidateAndFollower\<close>).\<close>

definition replication_checks :: "(string \<Rightarrow> int result) \<Rightarrow> bool \<Rightarrow> Flags \<Rightarrow> (string \<times> int) option result" where
  "replication_checks parseDuration is_kv c =
     (if fl_Bool c ''replication'' then
        let addr = fl_String c ''advertise'' in
        fatal_if (addr = []) ''--advertise address must be provided when using --leader-election''
        (fatal_if (\<not> checkAddrFormat addr) ''--advertise should be of the form ip:port or hostname:port''
        (or_fatal (parseDuration (fl_String c ''replication-ttl'')) (\<lambda>ttl.
        fatal_if (ttl \<le> 0) ''--replication-ttl should be a positive number''
        (fatal_if (\<not> is_kv) ''Leader election is only supported with consul, etcd and zookeeper discovery.''
        (Inr (Some (addr, ttl)))))))
      else Inr None)"

text \<open>
  \<open>new_cluster\<close> tells what the chosen driver's \<open>NewCluster\<close> returns, \<open>is_kv\<close> which discovery back-ends are key-value stores.
\<close>

definition manage ::
    "sorter \<Rightarrow> (nat \<Rightarrow> nat) \<Rightarrow> regexp \<Rightarrow> (string \<Rightarrow> int result) \<Rightarrow> (string \<Rightarrow> int \<Rightarrow> int \<Rightarrow> (string \<times> string) list \<Rightarrow> 'b result) \<Rightarrow>
     (string \<Rightarrow> string \<Rightarrow> string \<Rightarrow> bool \<Rightarrow> 't result) \<Rightarrow> (string \<Rightarrow> Scheduler \<Rightarrow> 'b \<Rightarrow> go_error option) \<Rightarrow> ('b \<Rightarrow> bool) \<Rightarrow> (string \<Rightarrow> string) \<Rightarrow> Flags \<Rightarrow>
     't Plan result option" where
  "manage srt rnd re parseDuration new load new_cluster is_kv getenv c =
     (let uri = getDiscovery getenv c; driver = fl_String c ''cluster-driver'' in
      case or_fatal (tls_checks load c) (\<lambda>t. or_fatal (engine_opts c) (\<lambda>opts.
             fatal_if (uri = []) ''discovery required to manage a cluster''
             (or_fatal (createDiscovery parseDuration new uri c) (\<lambda>d.
              or_fatal (strategy_New srt rnd (fl_String c ''strategy'')) (\<lambda>s. Inr (t, opts, d, s)))))) of
        Inl err \<Rightarrow> Some (Inl err)
      | Inr (t, opts, d, s) \<Rightarrow>
          (case given_values c ''filter'' ''f'' (length (filters re)) of
             None \<Rightarrow> None
           | Some names \<Rightarrow>
               (case filter_New re names of
                  Inl err \<Rightarrow> Some (Inl err)
                | Inr fs \<Rightarrow>
                    let sched = scheduler_New s fs in
                    if driver \<noteq> ''mesos-experimental'' \<and> driver \<noteq> ''swarm'' then Some (Inl (errorf (''unsupported cluster '' @ driver)))
                    else case new_cluster driver sched d of
                      Some err \<Rightarrow> Some (Inl err)
                    | None \<Rightarrow>
                        (case given_values c ''host'' ''H'' 1 of
                           None \<Rightarrow> None
                         | Some hosts \<Rightarrow>
                             Some (or_fatal (replication_checks parseDuration (is_kv d) c) (\<lambda>rep.
                               Inr \<lparr>pl_tls = t, pl_opts = opts, pl_scheduler = sched, pl_driver = driver, pl_hosts = hosts,
                                  pl_replication = rep\<rparr>))))))"

subsection \<open>\<open>cattle scale\<close>\<close>

fun label_map :: "string list \<Rightarrow> (string \<rightharpoonup> string) \<Rightarrow> (string \<rightharpoonup> string) result" where
  "label_map [] m = Inr m"
| "label_map (v # vs) m =
     (let kv = SplitN2 v ''='' in
      if length kv = 2 then label_map vs (m(kv ! 0 \<mapsto> kv ! 1)) else Inl (errorf ''invalid label''))"

definition buildRequestBody :: "Flags \<Rightarrow> ScaleItem list result" where
  "buildRequestBody c =
     (case label_map (fl_StringSlice c ''l'') Map.empty of
        Inl err \<Rightarrow> Inl err
      | Inr labels \<Rightarrow> Inr [\<lparr>item_Filters = fl_StringSlice c ''f'', Number = fl_Int c ''n'', ENVs = fl_StringSlice c ''e'', item_Labels = labels\<rparr>])"

subsection \<open>Token discovery\<close>

record Discovery =
  t_heartbeat :: int
  t_ttl :: int
  t_url :: string
  t_token :: string

text \<open>
  \<open>Initialize\<close>; without a token the times are not set, but the rest is. \<open>CreateCluster\<close> relies on that.
\<close>

definition token_Initialize :: "string \<Rightarrow> int \<Rightarrow> int \<Rightarrow> Discovery \<Rightarrow> go_error option \<times> Discovery" where
  "token_Initialize urltoken heartbeat ttl s =
     (let s = (case str_LastIndex (CHR ''/'') urltoken of
                 Some i \<Rightarrow> s\<lparr>t_url := ''https://'' @ take i urltoken, t_token := drop (Suc i) urltoken\<rparr>
               | None \<Rightarrow> s\<lparr>t_url := ''https://discovery.hub.docker.com/v1'', t_token := urltoken\<rparr>)
      in if t_token s = [] then (Some (errorf ''token is empty''), s)
         else (None, s\<lparr>t_heartbeat := heartbeat, t_ttl := ttl\<rparr>))"

text \<open>\<open>CreateEntries\<close> of \<open>docker/pkg/discovery\<close>: an entry is a host and a port, and empty addresses are skipped.\<close>

fun CreateEntries :: "string list \<Rightarrow> (string \<times> string) list result" where
  "CreateEntries [] = Inr []"
| "CreateEntries (addr # addrs) =
     (if addr = [] then CreateEntries addrs
      else or_fatal (SplitHostPort addr) (\<lambda>entry. or_fatal (CreateEntries addrs) (\<lambda>entries. Inr (entry # entries))))"

text \<open>
  \<open>get\<close> is the request to the service: an error, or the status and what the decoder makes of the body.
\<close>

definition token_fetch :: "(string \<Rightarrow> (int \<times> string list result) result) \<Rightarrow> Discovery \<Rightarrow> (string \<times> string) list result" where
  "token_fetch get s =
     or_fatal (get (t_url s @ ''/clusters/'' @ t_token s)) (\<lambda>(status, decoded).
     if status = 200 then
       (case decoded of
          Inl err \<Rightarrow> Inl (errorf (''Failed to decode response: '' @ Error err))
        | Inr addrs \<Rightarrow> CreateEntries addrs)
     else Inl (errorf (''Failed to fetch entries, Discovery service returned '' @ Itoa status @ '' HTTP status code'')))"

text \<open>
  \<open>Watch\<close>: the first fetch, then one at every tick. The messages to the two channels, in order, for the results of
  the fetches; \<open>Equals\<close> on entries is equality.
\<close>

datatype watch_message = Entries "(string \<times> string) list" | Fetch_error go_error

fun watch_ticks :: "(string \<times> string) list \<Rightarrow> (string \<times> string) list result list \<Rightarrow> watch_message list" where
  "watch_ticks currentEntries [] = []"
| "watch_ticks currentEntries (Inl err # fetches) = Fetch_error err # watch_ticks currentEntries fetches"
| "watch_ticks currentEntries (Inr newEntries # fetches) =
     (if newEntries \<noteq> currentEntries then [Entries newEntries] else []) @ watch_ticks newEntries fetches"

fun token_Watch :: "(string \<times> string) list result list \<Rightarrow> watch_message list" where
  "token_Watch [] = []"
| "token_Watch (Inl err # fetches) = Fetch_error err # watch_ticks [] fetches"
| "token_Watch (Inr entries # fetches) = Entries entries # watch_ticks entries fetches"

subsection \<open>What the checks ensure\<close>

lemmas check_simps = fatal_if_def or_fatal_def

lemma engine_opts_Inr:
  "engine_opts c = Inr opts \<Longrightarrow> 0 < RefreshMinInterval opts \<and> RefreshMinInterval opts \<le> RefreshMaxInterval opts \<and> 0 < opt_FailureRetry opts \<and>
     RefreshMaxInterval opts = fl_Duration c ''engine-refresh-max-interval'' \<and> opt_FailureRetry opts = fl_Int c ''engine-failure-retry''"
  by (auto simp: engine_opts_def check_simps Let_def split: if_split_asm)

lemma tls_checks_Inr: "tls_checks load c = Inr t \<Longrightarrow> t = None \<longleftrightarrow> \<not> fl_Bool c ''tls'' \<and> \<not> fl_Bool c ''tlsverify''"
  by (auto simp: tls_checks_def check_simps split: if_split_asm sum.split_asm)

lemma replication_checks_Inr:
  "replication_checks pd kv c = Inr rep \<Longrightarrow>
     (case rep of None \<Rightarrow> \<not> fl_Bool c ''replication'' | Some (addr, ttl) \<Rightarrow> fl_Bool c ''replication'' \<and> checkAddrFormat addr \<and> 0 < ttl)"
  by (auto simp: replication_checks_def check_simps Let_def split: if_split_asm sum.split_asm)

lemma manage_Inr:
  assumes "manage srt rnd re pd new load new_cluster is_kv getenv c = Some (Inr pl)"
  shows "tls_checks load c = Inr (pl_tls pl)" "engine_opts c = Inr (pl_opts pl)" "\<exists>kv. replication_checks pd kv c = Inr (pl_replication pl)"
    "\<exists>st names fs. strategy_New srt rnd (fl_String c ''strategy'') = Inr st \<and> filter_New re names = Inr fs \<and> pl_scheduler pl = scheduler_New st fs"
  using assms unfolding manage_def Let_def
  by (auto simp: check_simps split: option.split_asm sum.split_asm if_split_asm prod.split_asm) blast+

lemma wait_period_positive:
  assumes "0 < lo" "lo \<le> hi" "hi \<le> 2 ^ 52" "0 \<le> b" "b \<le> 1000" "\<forall>n > 0. 0 \<le> rnd n \<and> rnd n < n"
  shows "lo \<le> wait_period lo hi b rnd"
proof -
  define x where "x = lo * (1 + b)"
  have x: "lo \<le> x" "x \<le> 2 ^ 52 * 1001"
    unfolding x_def using assms(1-5) by (simp add: algebra_simps) (intro mult_mono; use assms(1-5) in simp)
  have fits: "in_i64 (1 + b)" "in_i64 x" "in_i64 (hi - lo)" using assms(1-5) x by (auto simp: in_i64_def)
  then have period: "wait_period lo hi b rnd = (if hi - lo > 0 then i64 (x + rnd (hi - lo)) else x)"
    by (simp add: wait_period_def Let_def x_def)
  show ?thesis
  proof (cases "hi > lo")
    case True
    with assms(6) have rnd: "0 \<le> rnd (hi - lo)" "rnd (hi - lo) < hi - lo" by simp_all
    have "in_i64 (x + rnd (hi - lo))" using rnd x assms(1,3) by (simp add: in_i64_def)
    with period x(1) rnd(1) True show ?thesis by simp
  qed (use period x(1) in simp)
qed

text \<open>
  C31. A manager that starts has sound settings: its engines start healthy in the sense of their invariant, the time between two refreshes is at least the
  minimum and never overflows (for intervals below 52 days), TLS is used exactly if it was asked for, the scheduler is made of a known
  strategy and known filters, and with replication the manager announces an address with a port.
\<close>

theorem manage_sound:
  assumes "manage srt rnd re pd new load new_cluster is_kv getenv c = Some (Inr pl)"
    and "fl_Int c ''engine-failure-retry'' < 2 ^ 63" "fl_Duration c ''engine-refresh-max-interval'' \<le> 2 ^ 52"
    and "\<forall>n > 0. 0 \<le> draw n \<and> draw n < n"
  shows "health_ok (NewEngine now addr ratio (opt_FailureRetry (pl_opts pl))) \<and>
    0 < RefreshMinInterval (pl_opts pl) \<and>
    RefreshMinInterval (pl_opts pl) \<le>
      wait_period (RefreshMinInterval (pl_opts pl)) (RefreshMaxInterval (pl_opts pl)) (backoff_factor e) draw \<and>
    (pl_tls pl = None \<longleftrightarrow> \<not> fl_Bool c ''tls'' \<and> \<not> fl_Bool c ''tlsverify'') \<and>
    (\<exists>st names fs. strategy_New srt rnd (fl_String c ''strategy'') = Inr st \<and> filter_New re names = Inr fs \<and>
       pl_scheduler pl = scheduler_New st fs) \<and>
    (case pl_replication pl of None \<Rightarrow> \<not> fl_Bool c ''replication''
       | Some (a, ttl) \<Rightarrow> fl_Bool c ''replication'' \<and> checkAddrFormat a \<and> 0 < ttl)"
proof -
  note parts = manage_Inr [OF assms(1)]
  obtain kv where rep: "replication_checks pd kv c = Inr (pl_replication pl)" using parts(3) by blast
  note opts = engine_opts_Inr [OF parts(2)]
  have "health_ok (NewEngine now addr ratio (opt_FailureRetry (pl_opts pl)))"
    using opts assms(2) by (simp add: health_ok_def NewEngine_def)
  moreover have "0 \<le> backoff_factor e" "backoff_factor e \<le> 1000" by (simp_all add: backoff_factor_def Let_def)
  then have "RefreshMinInterval (pl_opts pl) \<le>
      wait_period (RefreshMinInterval (pl_opts pl)) (RefreshMaxInterval (pl_opts pl)) (backoff_factor e) draw"
    using opts assms(3,4) by (intro wait_period_positive) auto
  ultimately show ?thesis
    using opts tls_checks_Inr [OF parts(1)] parts(4) replication_checks_Inr [OF rep] by simp
qed

text \<open>Joining: the address has a port, and the registration is renewed before it expires.\<close>

lemma join_sound:
  assumes "join_checks pd new getenv c = Inr (addr, hb, joinDelay, d)"
  shows "checkAddrFormat addr \<and> second \<le> hb \<and> 0 \<le> joinDelay \<and>
    (\<exists>ttl opts. hb < ttl \<and> getDiscoveryOpt c = Inr opts \<and> new (getDiscovery getenv c) hb ttl opts = Inr d)"
  using assms unfolding join_checks_def Let_def
  by (auto simp: check_simps not_le split: if_split_asm sum.split_asm)

text \<open>Options are either refused or all stored, the last value of a key winning, with a default path.\<close>

lemma discovery_opts_Inr: "discovery_opts opts m = Inr m' \<Longrightarrow> \<forall>opt \<in> set opts. Contains opt ''=''"
  by (induction opts arbitrary: m) (auto simp: fatal_if_def Let_def split: if_split_asm)

lemma getDiscoveryOpt_path: "getDiscoveryOpt c = Inr m \<Longrightarrow> map_of m ''kv.path'' \<noteq> None"
  by (auto simp: getDiscoveryOpt_def or_fatal_def update_conv' split: sum.split_asm if_split_asm)

subsection \<open>What a watcher knows\<close>

definition reported :: "watch_message list \<Rightarrow> (string \<times> string) list" where
  "reported ms = last ([] # List.map_filter (\<lambda>m. case m of Entries es \<Rightarrow> Some es | Fetch_error _ \<Rightarrow> None) ms)"

definition fetched :: "(string \<times> string) list \<Rightarrow> (string \<times> string) list result list \<Rightarrow> (string \<times> string) list" where
  "fetched current fetches = last (current # List.map_filter (\<lambda>f. case f of Inr es \<Rightarrow> Some es | Inl _ \<Rightarrow> None) fetches)"

lemma watch_ticks_reported:
  "last (current # List.map_filter (\<lambda>m. case m of Entries es \<Rightarrow> Some es | Fetch_error _ \<Rightarrow> None) (watch_ticks current fetches)) =
     fetched current fetches"
proof (induction current fetches rule: watch_ticks.induct)
  case (3 current new fetches)
  then show ?case by (cases "new = current") (simp_all add: fetched_def map_filter_simps)
qed (simp_all add: fetched_def map_filter_simps)

text \<open>
  C33. Whatever the service answers, the last entries that \<open>Watch\<close> has sent are those of the last fetch that succeeded, although
  it sends entries only when they have changed; and errors are reported as often as they occur. To have sent no entries yet counts
  as having sent the empty list.
\<close>

theorem watch_reports_last_fetch:
  "reported (token_Watch fetches) = fetched [] fetches \<and>
   List.map_filter (\<lambda>m. case m of Fetch_error err \<Rightarrow> Some err | _ \<Rightarrow> None) (token_Watch fetches) =
     List.map_filter (\<lambda>f. case f of Inl err \<Rightarrow> Some err | Inr _ \<Rightarrow> None) fetches"
proof -
  have errors: "List.map_filter (\<lambda>m. case m of Fetch_error err \<Rightarrow> Some err | _ \<Rightarrow> None) (watch_ticks current fetches) =
     List.map_filter (\<lambda>f. case f of Inl err \<Rightarrow> Some err | Inr _ \<Rightarrow> None) fetches" for current fetches
    by (induction current fetches rule: watch_ticks.induct) (auto simp: map_filter_simps)
  show ?thesis
    by (cases fetches rule: token_Watch.cases)
      (use watch_ticks_reported in \<open>simp_all add: reported_def fetched_def errors map_filter_simps\<close>)
qed

subsection \<open>Starting a manager\<close>

definition demo_flags :: Flags where
  "demo_flags = \<lparr>fl_Args = [''consul://10.0.0.9''],
     fl_String = (\<lambda>k. if k = ''strategy'' then ''spread'' else if k = ''cluster-driver'' then ''swarm'' else if k = ''advertise'' then ''10.0.0.1:3375'' else ''60s''),
     fl_StringSlice = (\<lambda>k. if k = ''filter'' then [''health''] else []), fl_Bool = (\<lambda>k. k = ''replication''), fl_Int = (\<lambda>_. 3),
     fl_Duration = (\<lambda>_. 30 * second), fl_IsSet = (\<lambda>_. False)\<rparr>"

definition demo_manage :: "unit Plan result option" where
  "demo_manage = manage insertionSort (\<lambda>i. i) (\<lambda>_. None) (\<lambda>_. Inr (60 * second)) (\<lambda>_ _ _ _. Inr ()) (\<lambda>_ _ _ _. Inr ())
     (\<lambda>_ _ _. None) (\<lambda>_. True) (\<lambda>_. []) demo_flags"

lemma demo_manage_run: "(case demo_manage of Some (Inr pl) \<Rightarrow> pl_replication pl = Some (''10.0.0.1:3375'', 60 * second) | _ \<Rightarrow> False)"
  by code_simp

theorem manage_sound_witness:
  "\<exists>pl. demo_manage = Some (Inr pl) \<and> health_ok (NewEngine 0 ''10.0.0.1:2375'' 0 (opt_FailureRetry (pl_opts pl))) \<and>
     pl_tls pl = None \<and> checkAddrFormat ''10.0.0.1:3375''"
proof -
  obtain pl where run: "demo_manage = Some (Inr pl)" and rep: "pl_replication pl = Some (''10.0.0.1:3375'', 60 * second)"
    using demo_manage_run by (auto split: option.split_asm sum.split_asm)
  have draw: "\<forall>n > 0. (0::int) \<le> (\<lambda>_. 0) n \<and> (\<lambda>_. 0) n < n" by simp
  from manage_sound [OF run [unfolded demo_manage_def] _ _ draw, of 0 "''10.0.0.1:2375''" 0] rep run
  show ?thesis by (auto simp: demo_flags_def second_def)
qed

end
