(* ===== verification/Spec2Isabelle.thy ===== *)
theory Spec2Isabelle
  imports Sched_Strategy Seize_Filter Swarm_Scale Swarm_Watchdog Mesos_Invariants Mesos_Queue Api_Replies Api_Events Cluster_Report Cli_Manage
begin

text \<open>
  \<^bold>\<open>Cattle: a verification development.\<close>

  Cattle is a cluster manager for docker engines: Docker Swarm (standalone) extended with scaling of
  applications. A client's request reaches the HTTP API, which calls the cluster; the cluster asks the scheduler for
  a node and calls the docker daemon through an engine. This library models the manager from the data upwards.

  \<^item> \<^bold>\<open>Go and its library.\<close> \<open>Cattle_Prelude\<close> has the conventions (64-bit integers, strings, slices, errors, panics)
    and the library calls; \<open>Go_Json\<close> has \<open>encoding/json\<close> on lists of strings, with its round trip;
    \<open>Op_Monad\<close> has operations with state, errors and panics, and the rules by which invariants compose.
  \<^item> \<^bold>\<open>Data.\<close> \<open>Container_Config\<close> is \<open>cluster/config.go\<close>: the record of a container's configuration and
    how scheduling expressions travel from the environment into labels and back. \<open>Cluster_Objects\<close>
    is \<open>cluster/container.go\<close>, \<open>image.go\<close>, \<open>network.go\<close> and \<open>volume.go\<close>: look-up, matching, merging.
  \<^item> \<^bold>\<open>Scheduler.\<close> \<open>Sched_Filters\<close> is \<open>scheduler/node\<close> and \<open>scheduler/filter\<close>: nodes, expressions, the seven
    filters, \<open>ApplyFilters\<close>. \<open>Sched_Strategy\<close> is \<open>scheduler/strategy\<close> and \<open>scheduler/scheduler.go\<close>: weights, the
    three strategies, \<open>SelectNodesForContainer\<close>.
  \<^item> \<^bold>\<open>Engines.\<close> \<open>Engine_State\<close> and \<open>Engine_Ops\<close> are \<open>cluster/engine.go\<close>: the record \<open>Engine\<close>, its health and
    life cycle, and every call to the daemon with its effect on the engine's tables. \<open>Engine_Invariants\<close> has the
    invariant, the transition system of one engine and the refinement between daemon and tables.
  \<^item> \<^bold>\<open>Cluster.\<close> \<open>Swarm_Cluster\<close> is \<open>cluster/swarm/cluster.go\<close>: engines, waiting engines, containers being
    created, discovery, placement, fan-out. \<open>Swarm_Invariants\<close> has its invariant and transition system.
  \<^item> \<^bold>\<open>Scaling.\<close> \<open>Scale_Utils\<close> is \<open>common/define.go\<close> and \<open>cluster/swarm/utils.go\<close>; \<open>Scale_Filter\<close> is \<open>filter.go\<close>;
    \<open>Seize_Filter\<close> is \<open>resource_filter.go\<close> and \<open>task_filter.go\<close>; \<open>Task_Ring\<close> is \<open>task.go\<close>; \<open>Swarm_Scale\<close> is
    \<open>local_processor.go\<close> and \<open>Cluster.Scale\<close>, which puts them together.
  \<^item> \<^bold>\<open>Watchdog.\<close> \<open>Swarm_Watchdog\<close> is \<open>cluster/watchdog.go\<close>, \<open>event.go\<close> and \<open>options.go\<close>.
  \<^item> \<^bold>\<open>Mesos.\<close> \<open>Mesos_Tasks\<close> is \<open>cluster/mesos/task\<close>: tasks with their ports and resources, on \<open>Go_Float\<close>, which is
    \<open>float64\<close> rounded to even. \<open>Mesos_Cluster\<close> is \<open>cluster/mesos\<close>: agents, offers, the driver's callbacks, launching,
    the queue. \<open>Mesos_Invariants\<close> has the invariant and transition system, \<open>Mesos_Queue\<close> the goroutines around one task.
  \<^item> \<^bold>\<open>HTTP API.\<close> \<open>Api_Http\<close> is \<open>api/utils.go\<close> and \<open>cluster/cluster.go\<close>: requests, replies, forwarding, and the interface
    \<open>Backend\<close> with its implementations by the swarm and by Mesos. \<open>Api_Listing\<close> and \<open>Api_Handlers\<close> are \<open>api/handlers.go\<close>, with
    \<open>api/sorter.go\<close>: the handlers that list, and those that change or forward. \<open>Api_Guarantees\<close> puts them on top of the swarm.
    \<open>Api_Routes\<close> is \<open>api/primary.go\<close>, \<open>replica.go\<close> and \<open>server.go\<close>: the table of routes and its dispatch; \<open>Api_Replies\<close> has the form of every answer.
    \<open>Api_Events\<close> is \<open>api/events.go\<close>: the clients that listen for events.
  \<^item> \<^bold>\<open>Start and replication.\<close> \<open>Cli_Manage\<close> has the checks of \<open>cli/manage.go\<close>, \<open>join.go\<close> and \<open>list.go\<close>, the request of \<open>scale.go\<close>,
    and \<open>discovery/token\<close>. \<open>Cli_Replication\<close> is the rest of \<open>cli/manage.go\<close>: how a manager changes between primary and replica.
    \<open>Cluster_Report\<close> is what both back ends report to \<open>docker info\<close>.

  Definitions keep the names of the source; where several types have a method of the same name, the name of the type
  comes first (\<open>Cluster_RemoveImage\<close>, \<open>Engine_Containers\<close>).

  \<^bold>\<open>How state is modelled.\<close> An operation takes the state and returns a result with the new state; \<open>None\<close>
  is a panic, \<open>Inl\<close> an error that the source returns. The state of an engine operation is the engine and the state
  of its daemon; that of a cluster operation is the record \<open>Cluster\<close> and the state of all daemons. The
  daemon is not part of the sources: it is the record \<open>Api\<close> of calls over an arbitrary type \<open>'d\<close>, and theorems hold
  for every such daemon, with hypotheses on it named where one is needed (\<open>ids_reported\<close>: an engine that
  answers reports an identifier). Witnesses use a small concrete daemon (\<open>demo_api\<close>). The other parameters
  are the regular expressions of the library (\<open>re\<close>), its sort (\<open>srt\<close>, contract \<open>go_sort\<close>), its random numbers
  (\<open>rnd\<close>, \<open>ids\<close>) and the clock, which is part of the daemon's state. An engine is referred to by its identifier, so
  that pointers from containers to engines stay valid when the engine changes; where the code shares
  a configuration between containers and relies on it, the model writes it back (\<open>write_config\<close>).

  \<^bold>\<open>Concurrency.\<close> The manager runs goroutines under locks. The critical sections are the steps:
  \<open>engine_step\<close> and \<open>cluster_step\<close> are inductive relations with one rule per operation, in any order, and a container
  creation takes two steps, reservation and completion, so that creations interleave as they do in
  the program. Goroutines that scaling starts are jobs in \<open>background\<close> that run later. Loops of
  goroutines (\<open>refreshLoop\<close>, \<open>monitorDiscovery\<close>, \<open>monitorPendingEngines\<close>) are represented by their body.
  Operations that the locks do not make atomic run to their end in the model. Where the channels between goroutines
  matter, the goroutines themselves are the transition system: \<open>task_step\<close> for the creation, the timer and the launch of
  one Mesos task, \<open>events_step\<close> for the listeners of events, and \<open>manager_step\<close> for the election of a leader.

  \<^bold>\<open>Termination.\<close> All functions are total. Loops whose end depends on the input are \<open>function\<close>s with a measure
  (\<open>do_tasks\<close>: the retries left in the ring). \<open>draw_unique\<close>, which draws identifiers until one is
  free, is a \<open>partial_function\<close> whose \<open>None\<close> is not returning, and so is the count over a range of
  offered ports (\<open>getPorts\<close>), which does not end at the largest \<open>uint64\<close>. The decoder of \<open>Go_Json\<close> recurses on its
  input. The retries of a creation are bounded by the source's constant.

  \<^bold>\<open>What is shown.\<close>

  \<^item> Placement: the scheduler returns exactly the nodes that satisfy every policy, soft expressions first, in the
    order of the strategy, with room for the request; a creation that is accepted is placed on such a
    node, counted with the containers still being created (\<open>placement_sound\<close>, in this theory).
  \<^item> Data: expressions survive the trip through labels, adding and removing an affinity cancel out, look-ups
    return what matches and never an ambiguous prefix, merging of endpoints and networks keeps all.
  \<^item> Engines: the invariant holds in every reachable state, the identity never changes silently, a refresh makes the
    table equal to what the daemon reports, repeated failures flag the engine and one success restores it,
    the health indicator is bounded and monotone, a disconnected engine has no effect.
  \<^item> Cluster: engines are stored once, under their own identifier and address, names of containers being
    created are unique, in every reachable state; one discovery round followed by validation makes the tables
    follow the entries.
  \<^item> Scaling: task processing ends and accounts for every task, the selection leaves the minimum running, seizing
    follows priorities, and each task to scale down starts its job on the cluster.
  \<^item> Watchdog: a named container of a failed engine is re-created or kept for the next attempt.
  \<^item> Mesos: a task is launched on an agent that the scheduler accepts, with the offers it uses up; the tables stay consistent and no task is built twice in every reachable
    state; a launch always answers the request unless it has given up, and a request returns exactly when the channels allow it.
  \<^item> API: a creation that is answered with 201 is stored, a taken name gives 409 and changes nothing; listings show exactly the containers
    and images that pass the filters, in order and within the limit; requests about containers go to the daemon of the right engine or
    touch nothing; every route of the table is served by its own handler in any order of registration; every answer has at most one status, up to
    three handlers whose exceptions are stated.
  \<^item> Start: the flags that a manager accepts establish what the invariant of an engine and the scheduler rely on; token
    discovery always leaves a watcher with the entries of the last fetch that succeeded; a replicated manager has a watchdog
    exactly when it leads, and when it can serve in the wrong role is stated.
  \<^item> Errors: where the code panics or loses an error, a theorem states exactly when.

  \<^bold>\<open>Simplifications.\<close> A Go map that is ranged over is an association list, which stands for one of the orders of the map; what is shown of
  listings is independent of it, and a pass over the queue of Mesos takes the order as a parameter. Some operations are one step although
  the source releases a lock in between: the validation of an engine connects it without the lock of the cluster, \<open>launch_section\<close>
  chooses the node and builds the task under two locks between which offers can change, \<open>Handle\<close> of the events changes from the read
  lock to the write lock, and in \<open>manager_step\<close> the manager reacts to a message of the election in the step that sends it. The
  goroutines that \<open>CreateVolume\<close> starts, one per engine, run one after the other. \<open>task_step\<close> follows one task and leaves the others out. An engine that
  was removed and registered again under the same identifier is the one that its old containers point to. Copies of a configuration are
  independent, also where the source shares the array of the environment (\<open>task_filter.go\<close>). The dot in the pattern of a version matches one
  byte. New identifiers of Mesos tasks are taken to be fresh.

  \<^bold>\<open>Not modelled.\<close> Of the API, the text of an event, the copying of bytes and the TLS dialling below \<open>hijack\<close>, the profiler's pages, and the opening
  of sockets. JSON bodies are decoded by a parameter, and the router redirects paths that are not canonical by another. Of the command line (\<open>cli/\<close>), the definitions of flags, help texts and
  certificates. \<open>cluster/httpclient.go\<close> and \<open>cluster/event_monitor.go\<close>: network input and output. Log messages, except
  where computing a message can panic. Time-outs and delays.
\<close>

section \<open>Properties that span components\<close>

lemma listNodes_drawn [simp]: "listNodes (c\<lparr>drawn := n\<rparr>) = listNodes c"
  by (simp add: listNodes_def node_with_pending_def)

lemma node_with_pending_ID: "nd_ID (node_with_pending c e) = e_ID e"
proof -
  have "nd_ID (fold (\<lambda>(_, p) n. if Q p n then snd (Node_AddContainer n (ToContainer p)) else n) ps n) = nd_ID n"
    for Q :: "pendingContainer \<Rightarrow> Node \<Rightarrow> bool" and ps :: "(string \<times> pendingContainer) list" and n
    by (induction ps arbitrary: n) (auto simp: Node_AddContainer_def Let_def)
  then show ?thesis unfolding node_with_pending_def by (simp add: NewNode_def)
qed

lemma reserve_select:
  assumes "reserve config name aff c = Some ((config', Inr (i, eid)), c')"
  shows "\<exists>n wish nodes. SelectNodesForContainer (cl_scheduler c) (listNodes c) wish = Some (Inr nodes) \<and>
    config' = (if aff then RemoveAffinity wish (''image=='' @ Image wish) else wish) \<and>
    place i name config' (Inr nodes) (c\<lparr>drawn := n\<rparr>) = Some ((config', Inr (i, eid)), c') \<and> checkNameUniqueness c name"
proof -
  have unique: "checkNameUniqueness c name" using assms by (auto simp: reserve_def split: if_splits)
  obtain i0 cfg c1 where start: "(if SwarmID config = [] then
       (case generateUniqueID c of None \<Rightarrow> None | Some (i, c') \<Rightarrow> Some (i, SetSwarmID config i, c'))
     else Some (SwarmID config, config, c)) = Some (i0, cfg, c1)"
    using assms unique by (auto simp: reserve_def bind_eq_Some_conv split: if_splits)
  then obtain n where c1: "c1 = c\<lparr>drawn := n\<rparr>"
  proof (cases "SwarmID config = []")
    case False
    with start that [of "drawn c"] show ?thesis by simp
  qed (use start generateUniqueID_cluster that in \<open>auto split: option.splits\<close>)
  define cf where "cf = local_network c1 cfg"
  define wish where "wish = (if aff then AddAffinity cf (''image=='' @ Image cf) else cf)"
  have img [simp]: "Image (AddAffinity x y) = Image x" for x y by (simp add: AddAffinity_def set_exprs_def)
  from assms unique obtain ans where ans: "SelectNodesForContainer (cl_scheduler c1) (listNodes c1) wish = Some ans"
    "place i0 name (if aff then RemoveAffinity wish (''image=='' @ Image wish) else wish) ans c1 = Some ((config', Inr (i, eid)), c')"
    unfolding reserve_def start by (auto simp: Let_def bind_eq_Some_conv cf_def [symmetric] wish_def split: if_splits)
  then obtain nodes where "ans = Inr nodes" by (cases ans) (auto simp: place_def)
  moreover from this ans(2) have "i0 = i" "config' = (if aff then RemoveAffinity wish (''image=='' @ Image wish) else wish)"
    by (auto simp: place_def bind_eq_Some_conv split: option.splits)
  ultimately show ?thesis
    using ans unique by (intro exI [of _ n] exI [of _ wish] exI [of _ nodes]) (simp add: c1)
qed

text \<open>
  C1. Placement is sound end to end: when a creation is accepted, it goes to a registered engine whose node, counted
  with the containers that are still being created there, satisfies the policy of every configured
  filter for the hard expressions of the completed configuration and, under spread and binpack, has the resources;
  the name was free in the whole cluster, and the reservation is recorded for the decisions that follow.
\<close>

theorem placement_sound:
  assumes "node_sort srt" "\<forall>i. rnd i \<le> i" "strategy_New srt rnd sname = Inr st" "filter_New re names = Inr fs"
    and "cl_scheduler c = scheduler_New st fs" "cluster_ok c"
    and "reserve config name aff c = Some ((config', Inr (i, eid)), c')"
  shows "\<exists>e wish. map_of (engines c) eid = Some e \<and>
    map_of (pendingContainers c') i = Some \<lparr>pc_Config = config', pc_Name = name, pc_Engine = engine_spec e\<rparr> \<and>
    config' = (if aff then RemoveAffinity wish (''image=='' @ Image wish) else wish) \<and>
    checkNameUniqueness c name \<and> strategy_fit sname wish (node_with_pending c e) \<and>
    (\<forall>n \<in> set names. policy re n wish False (node_with_pending c e))"
proof -
  from reserve_select [OF assms(7)] obtain n wish nodes where
    sel: "SelectNodesForContainer (cl_scheduler c) (listNodes c) wish = Some (Inr nodes)"
    and config': "config' = (if aff then RemoveAffinity wish (''image=='' @ Image wish) else wish)"
    and pl: "place i name config' (Inr nodes) (c\<lparr>drawn := n\<rparr>) = Some ((config', Inr (i, eid)), c')"
    and unique: "checkNameUniqueness c name" by blast
  from pl obtain nd e where nd: "index nodes 0 = Some nd" "nd_ID nd = eid" and e: "map_of (engines c) eid = Some e"
    and c': "map_of (pendingContainers c') i = Some \<lparr>pc_Config = config', pc_Name = name, pc_Engine = engine_spec e\<rparr>"
    by (auto simp: place_def bind_eq_Some_conv split: option.splits)
  from select_nodes_mset [OF assms(1-4) sel [unfolded assms(5)]] obtain soft where
    eq: "mset nodes = mset (filter (\<lambda>n. strategy_fit sname wish n \<and> satisfies re names wish soft n) (listNodes c))" by blast
  have "nd \<in> set nodes" using nd(1) by (auto simp: index_def split: if_splits)
  then have nd': "nd \<in> set (listNodes c)" "strategy_fit sname wish nd" "satisfies re names wish False nd"
    using mset_eq_setD [OF eq] satisfies_hard by auto
  then obtain k x where x: "(k, x) \<in> set (engines c)" "nd = node_with_pending c x" by (auto simp: listNodes_def)
  then have "k = eid" using nd(2) assms(6) by (auto simp: node_with_pending_ID cluster_ok_def engines_ok_def)
  then have "x = e" using x(1) e assms(6) by (auto simp: cluster_ok_def engines_ok_def)
  with nd' x e c' config' unique show ?thesis by (auto simp: satisfies_def)
qed

lemma demo_scheduler_kept: "cl_scheduler (fst demo_validated) = demo_scheduler"
proof -
  have kept: "cl_scheduler c' = cl_scheduler c" if "validatePendingEngine apis rs nc a (c, d) = Some (b, c', d')" for apis rs nc a c d b c' d'
    using that by (auto simp: validatePendingEngine_def split: option.split_asm sum.split_asm if_split_asm prod.split_asm)
  obtain b where run: "validatePendingEngine demo_apis (\<lambda>_ d. (Inr ''10.0.0.1'', d)) (\<lambda>_ d. (Inr (), d)) demo_addr
      (demo_joined, demo_world) = Some (b, fst demo_validated, snd demo_validated)" using demo_validated_run by auto
  have "cl_scheduler (fst demo_validated) = cl_scheduler demo_joined" by (rule kept [OF run])
  also have "\<dots> = demo_scheduler"
    by (simp add: demo_joined_def discovery_round_def Diff_def addEngine_def demo_empty_def Let_def)
  finally show ?thesis .
qed

lemma demo_reservation:
  "(case reserve zero_config ''db'' False (fst demo_validated) of
      Some ((config', Inr (i, eid)), c') \<Rightarrow> i = ''swarm-'' \<and> eid = ''E1'' \<and> length (pendingContainers c') = 1
    | _ \<Rightarrow> False)"
  by code_simp

theorem placement_sound_witness:
  "\<exists>config' c' e. reserve zero_config ''db'' False (fst demo_validated) = Some ((config', Inr (''swarm-'', ''E1'')), c') \<and>
     map_of (engines (fst demo_validated)) ''E1'' = Some e \<and>
     policy exact_re ''health'' config' False (node_with_pending (fst demo_validated) e)"
proof -
  let ?c = "fst demo_validated"
  have sch: "cl_scheduler ?c = scheduler_New \<lparr>st_Name = ''spread'', RankAndSort = Spread_RankAndSort insertionSort\<rparr> [HealthFilter]"
    by (simp add: demo_scheduler_kept demo_scheduler_def)
  have ok: "cluster_ok ?c"
    using cluster_steps_inv [OF demo_reached demo_apis_ids] demo_empty_ok(1) by (simp add: cluster_inv_def)
  have case_reserve: "(case x of Some ((config', Inr (i, eid)), c') \<Rightarrow> P config' i eid c' | _ \<Rightarrow> False) \<Longrightarrow>
      \<exists>config' i eid c'. x = Some ((config', Inr (i, eid)), c') \<and> P config' i eid c'"
    for x :: "((ContainerConfig \<times> (string \<times> string) result) \<times> Cluster) option" and P
    by (cases x; cases "snd (fst (the x))") auto
  obtain config' c' where res: "reserve zero_config ''db'' False ?c = Some ((config', Inr (''swarm-'', ''E1'')), c')"
    using case_reserve [OF demo_reservation] by blast
  from placement_sound [OF sample_scheduler(4) _ sample_scheduler(1,2) sch ok res] res show ?thesis by auto
qed

end
